theory Spec2Isabelle
  imports Complex_Main
begin

section \<open>Python values and exceptions\<close>

text \<open>
  The exceptions that \<^verbatim>\<open>compte_weak_scaling.py\<close> can raise while it scans a log file.
  A function that may raise returns \<open>py_error + 'a\<close>, with \<open>Inl\<close> for the exception.
\<close>

datatype py_error = IndexError | ValueError | TypeError | ZeroDivisionError
  | OverflowError | AttributeError | UnboundLocalError

text \<open>
  Floats are idealised as reals: rounding, float overflow and the limit of the conversion
  of a Python int to a float are not modelled. A numpy float keeps its three special
  values, since numpy divides by zero and averages an empty list without raising.
\<close>

datatype npfloat = Fin real | PosInf | NegInf | NaN

text \<open>
  A naive \<^verbatim>\<open>datetime\<close> is the number of microseconds since 0001-01-01 00:00:00, a
  \<^verbatim>\<open>timedelta\<close> is a number of microseconds: the subtraction of two naive datetimes is
  exact in Python, and so is the subtraction of the two integers.
\<close>

text \<open>
  The values an attribute of the two record classes can hold. A list is an object of its
  own: an attribute holds a reference to it, the address of the list in the store.
\<close>

datatype pyval = PyInt int | PyStr string | PyFloat real | NpFloat npfloat
  | PyDatetime int | PyTimedelta int | WallTimeListRef nat | DtListRef nat

section \<open>Pattern extractors\<close>

text \<open>
  A line is a \<open>string\<close> without its end-of-line character; the characters are ASCII.
\<close>

definition is_digit :: "char \<Rightarrow> bool" where
  "is_digit c = (c \<in> set ''0123456789'')"

definition digit_val :: "char \<Rightarrow> int" where
  "digit_val c = int (of_char c) - 48"

text \<open>\<^verbatim>\<open>int(s)\<close> on a string of decimal digits.\<close>

definition py_int :: "string \<Rightarrow> int" where
  "py_int s = foldl (\<lambda>a c. 10 * a + digit_val c) 0 s"

primrec starts_with :: "string \<Rightarrow> string \<Rightarrow> bool" where
  "starts_with [] s = True"
| "starts_with (p # ps) s = (case s of [] \<Rightarrow> False | c # cs \<Rightarrow> p = c \<and> starts_with ps cs)"

text \<open>\<^verbatim>\<open>re.search(pat, line)\<close> for a pattern without metacharacters: a substring test.\<close>

primrec re_search :: "string \<Rightarrow> string \<Rightarrow> bool" where
  "re_search pat [] = (pat = [])"
| "re_search pat (c # cs) = (starts_with pat (c # cs) \<or> re_search pat cs)"

text \<open>\<^verbatim>\<open>re.findall(r"\d+", line)\<close>: the maximal runs of digits, from left to right.\<close>

definition first_digits :: "string \<Rightarrow> string option" where
  "first_digits s =
     (let r = dropWhile (\<lambda>c. \<not> is_digit c) s
      in if r = [] then None else Some (takeWhile is_digit r))"

text \<open>
  One run of \<^verbatim>\<open>\d+\<close> followed by the literal \<open>sep\<close>: the run must be the whole maximal run
  of digits at the head of the string, since a shorter one is followed by a digit.
\<close>

definition digits_then :: "char \<Rightarrow> string \<Rightarrow> (string \<times> string) option" where
  "digits_then sep s =
     (let d = takeWhile is_digit s; r = dropWhile is_digit s
      in if d = [] then None
         else (case r of [] \<Rightarrow> None | c # cs \<Rightarrow> if c = sep then Some (d, cs) else None))"

definition digits_last :: "string \<Rightarrow> string option" where
  "digits_last s = (let d = takeWhile is_digit s in if d = [] then None else Some d)"

text \<open>A match of \<^verbatim>\<open>\d+-\d+-\d+\<close> that starts at the head of the string: its three runs.\<close>

definition match_date :: "string \<Rightarrow> (string \<times> string \<times> string) option" where
  "match_date s =
     (case digits_then (CHR ''-'') s of None \<Rightarrow> None
      | Some (a, r1) \<Rightarrow>
        (case digits_then (CHR ''-'') r1 of None \<Rightarrow> None
         | Some (b, r2) \<Rightarrow>
           (case digits_last r2 of None \<Rightarrow> None | Some c \<Rightarrow> Some (a, b, c))))"

text \<open>A match of \<^verbatim>\<open>\d+\:\d+\:\d+\.\d+\<close> that starts at the head of the string: its four runs.\<close>

definition match_time :: "string \<Rightarrow> (string \<times> string \<times> string \<times> string) option" where
  "match_time s =
     (case digits_then (CHR '':'') s of None \<Rightarrow> None
      | Some (h, r1) \<Rightarrow>
        (case digits_then (CHR '':'') r1 of None \<Rightarrow> None
         | Some (m, r2) \<Rightarrow>
           (case digits_then (CHR ''.'') r2 of None \<Rightarrow> None
            | Some (sec, r3) \<Rightarrow>
              (case digits_last r3 of None \<Rightarrow> None | Some f \<Rightarrow> Some (h, m, sec, f)))))"

text \<open>
  \<^verbatim>\<open>re.findall(p, line)[0]\<close>: the leftmost match, tried at every position from the left;
  \<open>None\<close> when the list of matches is empty.
\<close>

primrec findall0 :: "(string \<Rightarrow> 'a option) \<Rightarrow> string \<Rightarrow> 'a option" where
  "findall0 m [] = None"
| "findall0 m (c # cs) = (case m (c # cs) of Some r \<Rightarrow> Some r | None \<Rightarrow> findall0 m cs)"

text \<open>\<^verbatim>\<open>re.search(f"n=\d+", line)\<close>.\<close>

definition match_step :: "string \<Rightarrow> unit option" where
  "match_step s =
     (case s of a # b # c # _ \<Rightarrow>
        if a = CHR ''n'' \<and> b = CHR ''='' \<and> is_digit c then Some () else None
      | _ \<Rightarrow> None)"

definition has_step :: "string \<Rightarrow> bool" where
  "has_step line = (findall0 match_step line \<noteq> None)"

text \<open>
  A match of \<^verbatim>\<open>dt=\d+.\d+\D+\d+\<close> at the head of the string; the result is the matched text
  after \<^verbatim>\<open>dt=\<close>. The first run of digits is tried whole first (the dot then takes the
  character after it); when that fails the dot takes a digit of the first run, which
  needs a run of three digits or more, and the match is that run, the non-digits after
  it and the next run of digits.
\<close>

definition match_dt :: "string \<Rightarrow> string option" where
  "match_dt s =
     (if \<not> starts_with ''dt='' s then None
      else
        let t = drop 3 s;
            r1 = takeWhile is_digit t; t1 = dropWhile is_digit t;
            n1 = takeWhile (\<lambda>c. \<not> is_digit c) t1;
            c1 = takeWhile is_digit (dropWhile (\<lambda>c. \<not> is_digit c) t1);
            short = (if 3 \<le> length r1 \<and> n1 \<noteq> [] \<and> c1 \<noteq> [] then Some (r1 @ n1 @ c1) else None)
        in if r1 = [] then None
           else (case t1 of [] \<Rightarrow> short
             | x # t2 \<Rightarrow>
               let r2 = takeWhile is_digit t2; t3 = dropWhile is_digit t2;
                   n2 = takeWhile (\<lambda>c. \<not> is_digit c) t3;
                   c2 = takeWhile is_digit (dropWhile (\<lambda>c. \<not> is_digit c) t3)
               in if x \<noteq> CHR 0x0A \<and> r2 \<noteq> [] \<and> n2 \<noteq> [] \<and> c2 \<noteq> []
                  then Some (r1 @ [x] @ r2 @ n2 @ c2) else short))"

section \<open>\<^verbatim>\<open>datetime.strptime\<close> with the format \<^verbatim>\<open>%m-%d-%Y %H:%M:%S.%f\<close>\<close>

definition is_leap :: "int \<Rightarrow> bool" where
  "is_leap y = (y mod 4 = 0 \<and> (y mod 100 \<noteq> 0 \<or> y mod 400 = 0))"

definition days_in_month :: "int \<Rightarrow> int \<Rightarrow> int" where
  "days_in_month y m =
     (if m = 2 then (if is_leap y then 29 else 28)
      else if m = 4 \<or> m = 6 \<or> m = 9 \<or> m = 11 then 30 else 31)"

definition days_before_year :: "int \<Rightarrow> int" where
  "days_before_year y = (y - 1) * 365 + (y - 1) div 4 - (y - 1) div 100 + (y - 1) div 400"

definition days_before_month :: "int \<Rightarrow> int \<Rightarrow> int" where
  "days_before_month y m =
     [0, 31, 59, 90, 120, 151, 181, 212, 243, 273, 304, 334] ! nat (m - 1)
       + (if 2 < m \<and> is_leap y then 1 else 0)"

text \<open>The microseconds from 0001-01-01 00:00:00 to a valid date and time.\<close>

definition datetime_us :: "int \<Rightarrow> int \<Rightarrow> int \<Rightarrow> int \<Rightarrow> int \<Rightarrow> int \<Rightarrow> int \<Rightarrow> int" where
  "datetime_us y m d hh mm ss us =
     ((((days_before_year y + days_before_month y m + (d - 1)) * 24 + hh) * 60 + mm) * 60 + ss)
       * 1000000 + us"

text \<open>
  The string parsed is \<^verbatim>\<open>date_obj[0] + " " + wall_time_obj[0]\<close>, seven runs of digits
  between the separators of the format. Each directive is followed by a literal, so a run
  must be, as a whole, one of the alternatives of its directive: one or two digits for
  \<^verbatim>\<open>%m %d %H %M %S\<close> within their ranges, four digits for \<^verbatim>\<open>%Y\<close>, one to six for \<^verbatim>\<open>%f\<close>
  (padded with zeros on the right to six digits, that is multiplied by a power of ten). The constructor then refuses year 0, a day beyond the
  month and the seconds 60 and 61.
\<close>

definition strptime :: "(string \<times> string \<times> string) \<Rightarrow> (string \<times> string \<times> string \<times> string)
    \<Rightarrow> py_error + int" where
  "strptime date time =
     (case date of (ms, ds, ys) \<Rightarrow>
      case time of (hs, mins, ss, fs) \<Rightarrow>
        let m = py_int ms; d = py_int ds; y = py_int ys; hh = py_int hs; mi = py_int mins;
            sec = py_int ss; us = py_int fs * 10 ^ (6 - length fs)
        in if length ms \<le> 2 \<and> 1 \<le> m \<and> m \<le> 12
              \<and> length ds \<le> 2 \<and> 1 \<le> d \<and> d \<le> 31
              \<and> length ys = 4 \<and> 1 \<le> y
              \<and> length hs \<le> 2 \<and> hh \<le> 23
              \<and> length mins \<le> 2 \<and> mi \<le> 59
              \<and> length ss \<le> 2 \<and> sec \<le> 59
              \<and> length fs \<le> 6
              \<and> d \<le> days_in_month y m
           then Inr (datetime_us y m d hh mi sec us)
           else Inl ValueError)"

text \<open>
  The first three statements of \<^verbatim>\<open>search_file_write_stats\<close>, and the same three of
  \<^verbatim>\<open>search_walltime\<close>: the first date and the first time of the line, parsed.
\<close>

definition line_wall_time :: "string \<Rightarrow> py_error + int" where
  "line_wall_time line =
     (case findall0 match_date line of None \<Rightarrow> Inl IndexError
      | Some date \<Rightarrow>
        (case findall0 match_time line of None \<Rightarrow> Inl IndexError
         | Some time \<Rightarrow> strptime date time))"

text \<open>
  \<^verbatim>\<open>search_walltime\<close>. The parser of \<^verbatim>\<open>float\<close> is the parameter \<open>pf\<close> (\<open>None\<close> where
  \<^verbatim>\<open>float\<close> raises ValueError); its argument is \<^verbatim>\<open>dt_obj[0].split("=")[1]\<close>, the matched
  text after \<^verbatim>\<open>dt=\<close> up to the next equals sign.
\<close>

definition search_walltime :: "(string \<Rightarrow> real option) \<Rightarrow> string \<Rightarrow> py_error + (int \<times> real) option" where
  "search_walltime pf line =
     (if has_step line then
        (case line_wall_time line of Inl e \<Rightarrow> Inl e
         | Inr wall_time \<Rightarrow>
           (case findall0 match_dt line of None \<Rightarrow> Inl IndexError
            | Some body \<Rightarrow>
              (case pf (takeWhile (\<lambda>c. c \<noteq> CHR ''='') body) of None \<Rightarrow> Inl ValueError
               | Some dt \<Rightarrow> Inr (Some (wall_time, dt)))))
      else Inr None)"

text \<open>
  A parser for the scientific notation that FLASH prints (\<^verbatim>\<open>1.250E-03\<close>), to instantiate
  \<open>pf\<close> on concrete lines.
\<close>

definition float_sci :: "string \<Rightarrow> real option" where
  "float_sci s =
     (let ip = takeWhile is_digit s; r1 = dropWhile is_digit s
      in case r1 of [] \<Rightarrow> None
         | p # r2 \<Rightarrow>
           let fp = takeWhile is_digit r2; r3 = dropWhile is_digit r2
           in (case r3 of [] \<Rightarrow> None
               | e # r4 \<Rightarrow>
                 (case r4 of [] \<Rightarrow> None
                  | sg # ex \<Rightarrow>
                    if ip \<noteq> [] \<and> p = CHR ''.'' \<and> fp \<noteq> [] \<and> e = CHR ''E''
                       \<and> (sg = CHR ''+'' \<or> sg = CHR ''-'') \<and> ex \<noteq> [] \<and> list_all is_digit ex
                    then Some (real_of_int (py_int (ip @ fp)) / 10 ^ length fp
                               * (if sg = CHR ''+'' then 10 ^ nat (py_int ex)
                                  else 1 / 10 ^ nat (py_int ex)))
                    else None)))"

section \<open>The classes\<close>

definition seconds_per_hour :: real where
  "seconds_per_hour = 3600"

text \<open>\<^verbatim>\<open>timedelta.total_seconds()\<close>.\<close>

definition total_seconds :: "int \<Rightarrow> real" where
  "total_seconds td = real_of_int td / 1000000"

text \<open>
  \<^verbatim>\<open>class FLASHLogFileIO\<close>. The attributes \<^verbatim>\<open>start_date\<close>, \<^verbatim>\<open>wall_time\<close>, \<^verbatim>\<open>core_hours\<close>,
  \<^verbatim>\<open>open\<close> and \<^verbatim>\<open>close\<close> carry the suffix \<open>_io\<close> here.
\<close>

record FLASHLogFileIO =
  start_date_io :: pyval
  write_id :: int
  wall_time_io :: pyval
  wall_time_norm :: pyval
  file_type :: string
  core_hours_io :: pyval
  open_io :: bool
  close_io :: bool

definition FLASHLogFileIO_init :: "int \<Rightarrow> FLASHLogFileIO" where
  "FLASHLogFileIO_init wid =
     \<lparr>start_date_io = PyStr [], write_id = wid, wall_time_io = PyInt 0,
      wall_time_norm = PyInt 0, file_type = [], core_hours_io = PyInt 0,
      open_io = False, close_io = False\<rparr>"

definition empty_io :: "FLASHLogFileIO \<Rightarrow> FLASHLogFileIO" where
  "empty_io f =
     f\<lparr>start_date_io := PyStr [], wall_time_io := PyInt 0, wall_time_norm := PyInt 0,
       file_type := [], core_hours_io := PyInt 0, open_io := False, close_io := False\<rparr>"

definition open_file :: "FLASHLogFileIO \<Rightarrow> FLASHLogFileIO" where
  "open_file f = (let f1 = f\<lparr>open_io := True\<rparr> in if close_io f1 then f1\<lparr>close_io := False\<rparr> else f1)"

definition close_file :: "FLASHLogFileIO \<Rightarrow> FLASHLogFileIO" where
  "close_file f = (let f1 = f\<lparr>close_io := True\<rparr> in if open_io f1 then f1\<lparr>open_io := False\<rparr> else f1)"

text \<open>
  \<^verbatim>\<open>class FLASHLogBlock\<close>. \<^verbatim>\<open>process_block_statistics\<close> creates the two attributes
  \<^verbatim>\<open>avg_wall_time_norm\<close> and \<^verbatim>\<open>std_wall_time_norm\<close>, which the constructor does not set:
  they are \<open>None\<close> until then.
\<close>

record FLASHLogBlock =
  block_id :: int
  core_hours :: pyval
  wall_time :: pyval
  avg_wall_time_diff :: pyval
  std_wall_time_diff :: pyval
  avg_wall_time_diff_norm :: pyval
  std_wall_time_diff_norm :: pyval
  dt :: pyval
  start_date :: pyval
  end_date :: pyval
  start_line :: int
  end_line :: int
  n_steps :: int
  avg_wall_time_norm :: "pyval option"
  std_wall_time_norm :: "pyval option"

definition FLASHLogBlock_init :: "int \<Rightarrow> FLASHLogBlock" where
  "FLASHLogBlock_init bid =
     \<lparr>block_id = bid, core_hours = PyInt 0, wall_time = PyInt 0,
      avg_wall_time_diff = PyInt 0, std_wall_time_diff = PyInt 0,
      avg_wall_time_diff_norm = PyInt 0, std_wall_time_diff_norm = PyInt 0,
      dt = PyInt 0, start_date = PyStr [], end_date = PyStr [],
      start_line = 0, end_line = 0, n_steps = 0,
      avg_wall_time_norm = None, std_wall_time_norm = None\<rparr>"

text \<open>
  The state of the program: the attributes of the \<^verbatim>\<open>FLASHLogStats\<close> object, the store of
  the objects it creates, and the local variables of \<^verbatim>\<open>deconstruct_log_file\<close>.

  The two dictionaries \<^verbatim>\<open>blocks\<close> and \<^verbatim>\<open>fileIOs\<close> are association lists in insertion order;
  they hold references: the address of the record in \<open>heap_block\<close> or \<open>heap_io\<close>. The local
  variables \<^verbatim>\<open>fileIO\<close> and \<^verbatim>\<open>block\<close> are references too (\<open>None\<close> while unbound), and
  \<^verbatim>\<open>wall_time_list\<close> and \<^verbatim>\<open>dt_list\<close> are the addresses of two list objects. An object is
  created at the end of its store and never removed. The local variable \<^verbatim>\<open>write\<close> is
  \<open>write_flag\<close>.
\<close>

record state =
  n_cores_per_node :: int
  nodes :: "real option"
  n_cores :: "int option"
  nxb :: "int option"
  nyb :: "int option"
  nzb :: "int option"
  n_cells_per_block :: "int option"
  n_cells :: "int option"
  blocks :: "(int \<times> nat) list"
  fileIOs :: "(int \<times> nat) list"
  debug :: bool
  heap_io :: "FLASHLogFileIO list"
  heap_block :: "FLASHLogBlock list"
  heap_wall_time :: "int list list"
  heap_dt :: "real list list"
  chunk :: bool
  write_flag :: bool
  IO_id_counter :: int
  block_id_counter :: int
  wall_time_list :: nat
  dt_list :: nat
  fileIO :: "nat option"
  block :: "nat option"
  cnt :: int

text \<open>\<^verbatim>\<open>d[k] = v\<close> on a dictionary: the value of a present key is replaced in place.\<close>

primrec dict_set :: "int \<Rightarrow> nat \<Rightarrow> (int \<times> nat) list \<Rightarrow> (int \<times> nat) list" where
  "dict_set k v [] = [(k, v)]"
| "dict_set k v (p # ps) = (if fst p = k then (k, v) # ps else p # dict_set k v ps)"

text \<open>Following a reference; \<open>None\<close> for an address that holds no object.\<close>

definition heap_get :: "'a list \<Rightarrow> nat \<Rightarrow> 'a option" where
  "heap_get h a = (if a < length h then Some (h ! a) else None)"

text \<open>
  \<^verbatim>\<open>FLASHLogStats.__init__\<close> with the default site; the path, the site and
  \<^verbatim>\<open>total_core_hours\<close> are never read again and are left out. The stores are empty and the
  local variables of \<^verbatim>\<open>deconstruct_log_file\<close> do not exist yet.
\<close>

definition FLASHLogStats_init :: "bool \<Rightarrow> state" where
  "FLASHLogStats_init dbg =
     \<lparr>n_cores_per_node = 48, nodes = None, n_cores = None, nxb = None, nyb = None,
      nzb = None, n_cells_per_block = None, n_cells = None, blocks = [], fileIOs = [],
      debug = dbg, heap_io = [], heap_block = [], heap_wall_time = [], heap_dt = [],
      chunk = False, write_flag = False, IO_id_counter = 0, block_id_counter = 0,
      wall_time_list = 0, dt_list = 0, fileIO = None, block = None, cnt = 0\<rparr>"

section \<open>The parameter scan\<close>

definition search_core_count :: "state \<Rightarrow> string \<Rightarrow> py_error + state" where
  "search_core_count st line =
     (if re_search ''Number of MPI tasks:'' line then
        (case first_digits line of None \<Rightarrow> Inl IndexError
         | Some d \<Rightarrow>
           if n_cores_per_node st = 0 then Inl ZeroDivisionError
           else Inr (st\<lparr>n_cores := Some (py_int d),
                        nodes := Some (real_of_int (py_int d) / real_of_int (n_cores_per_node st))\<rparr>))
      else Inr st)"

definition search_block_cell_count :: "string \<Rightarrow> string \<Rightarrow> py_error + int option" where
  "search_block_cell_count line block_string =
     (if re_search block_string line then
        (case first_digits line of None \<Rightarrow> Inl IndexError
         | Some d \<Rightarrow> Inr (Some (py_int d)))
      else Inr None)"

text \<open>The body of the loop of \<^verbatim>\<open>compute_sim_parameters\<close>, on one line.\<close>

definition scan_line :: "state \<Rightarrow> string \<Rightarrow> py_error + state" where
  "scan_line st line =
     (case (if n_cores st = None then search_core_count st line else Inr st) of
        Inl e \<Rightarrow> Inl e
      | Inr st1 \<Rightarrow>
        (case (if nxb st1 = None then search_block_cell_count line ''Number x zones:''
               else Inr (nxb st1)) of
           Inl e \<Rightarrow> Inl e
         | Inr x \<Rightarrow>
           (case (if nyb st1 = None then search_block_cell_count line ''Number y zones:''
                  else Inr (nyb st1)) of
              Inl e \<Rightarrow> Inl e
            | Inr y \<Rightarrow>
              (case (if nzb st1 = None then search_block_cell_count line ''Number z zones:''
                     else Inr (nzb st1)) of
                 Inl e \<Rightarrow> Inl e
               | Inr z \<Rightarrow> Inr (st1\<lparr>nxb := x, nyb := y, nzb := z\<rparr>)))))"

primrec scan_lines :: "state \<Rightarrow> string list \<Rightarrow> py_error + state" where
  "scan_lines st [] = Inr st"
| "scan_lines st (line # rest) =
     (case scan_line st line of Inl e \<Rightarrow> Inl e | Inr st1 \<Rightarrow> scan_lines st1 rest)"

text \<open>
  \<^verbatim>\<open>compute_sim_parameters\<close>: the loop, then the two products. A product with \<^verbatim>\<open>None\<close>
  raises TypeError.
\<close>

definition compute_sim_parameters :: "state \<Rightarrow> string list \<Rightarrow> py_error + state" where
  "compute_sim_parameters st lines =
     (case scan_lines st lines of Inl e \<Rightarrow> Inl e
      | Inr st1 \<Rightarrow>
        (case nxb st1 of None \<Rightarrow> Inl TypeError
         | Some x \<Rightarrow>
           (case nyb st1 of None \<Rightarrow> Inl TypeError
            | Some y \<Rightarrow>
              (case nzb st1 of None \<Rightarrow> Inl TypeError
               | Some z \<Rightarrow>
                 (case n_cores st1 of None \<Rightarrow> Inl TypeError
                  | Some c \<Rightarrow>
                    Inr (st1\<lparr>n_cells_per_block := Some (x * y * z),
                             n_cells := Some (x * y * z * c)\<rparr>))))))"

section \<open>The file-write tracker\<close>

text \<open>
  \<^verbatim>\<open>search_file_write_stats\<close>, as a function of the event object it mutates; the caller
  writes the result back at the object's address. In the branch of \<^verbatim>\<open>close:\<close> the
  subtraction \<^verbatim>\<open>wall_time - fileIO.wall_time\<close> needs a datetime on the right: the integer
  0 of a new or emptied event raises TypeError. With \<^verbatim>\<open>debug\<close> set, the same branch prints
  \<^verbatim>\<open>wall_time - fileIO.wall_time\<close> after the attribute has become a float, which raises
  TypeError as well.
\<close>

definition search_file_write_stats :: "bool \<Rightarrow> string \<Rightarrow> FLASHLogFileIO \<Rightarrow> py_error + FLASHLogFileIO" where
  "search_file_write_stats dbg line f =
     (case line_wall_time line of Inl e \<Rightarrow> Inl e
      | Inr wt \<Rightarrow>
        if re_search ''open:'' line then
          let f1 = (if open_io f then empty_io f else f);
              f2 = open_file f1
          in Inr (f2\<lparr>start_date_io := PyDatetime wt, wall_time_io := PyDatetime wt\<rparr>)
        else if re_search ''close:'' line then
          let f1 = close_file f
          in (case wall_time_io f1 of
                PyDatetime t0 \<Rightarrow>
                  let secs = total_seconds (wt - t0)
                  in if dbg then Inl TypeError
                     else Inr (f1\<lparr>wall_time_io := PyFloat secs,
                                  core_hours_io := PyFloat (secs / seconds_per_hour)\<rparr>)
              | PyTimedelta d \<Rightarrow> Inl AttributeError
              | _ \<Rightarrow> Inl TypeError)
        else Inr f)"

text \<open>
  The left operand of \<^verbatim>\<open>fileIO.wall_time / self.n_cells_per_block\<close>: a float or an int
  is divided, a datetime or a string raises TypeError. The attribute holds nothing else
  there: its timedelta is replaced by a float in the statement after it is assigned.
\<close>

fun py_number :: "pyval \<Rightarrow> real option" where
  "py_number (PyFloat x) = Some x"
| "py_number (PyInt i) = Some (real_of_int i)"
| "py_number _ = None"

text \<open>
  The part of the loop body under \<^verbatim>\<open>if args["file_writes"]\<close>. A new event object is
  created only in the \<^verbatim>\<open>else\<close> branch, at a new address; the other branch works on the
  object that \<^verbatim>\<open>fileIO\<close> refers to.
\<close>

definition track_file_write :: "state \<Rightarrow> string \<Rightarrow> py_error + state" where
  "track_file_write st line =
     (let search_chk = re_search ''IO_writeCheckpoint'' line;
          search_plt = re_search ''IO_writePlotfile'' line
      in if search_chk \<or> search_plt then
           if write_flag st then
             (case fileIO st of None \<Rightarrow> Inl UnboundLocalError
              | Some a \<Rightarrow>
                (case heap_get (heap_io st) a of None \<Rightarrow> Inl UnboundLocalError
                 | Some f0 \<Rightarrow>
                   (case search_file_write_stats (debug st) line f0 of Inl e \<Rightarrow> Inl e
                    | Inr f \<Rightarrow>
                      if close_io f then
                        (case py_number (wall_time_io f) of
                           Some w \<Rightarrow>
                             (case n_cells_per_block st of None \<Rightarrow> Inl TypeError
                              | Some n \<Rightarrow>
                                if n = 0 then Inl ZeroDivisionError
                                else Inr (st\<lparr>heap_io := (heap_io st)
                                               [a := f\<lparr>file_type := (if search_chk then ''chk'' else ''plt''),
                                                       wall_time_norm := PyFloat (w / real_of_int n)\<rparr>],
                                             write_flag := False,
                                             fileIOs := dict_set (IO_id_counter st) a (fileIOs st),
                                             IO_id_counter := IO_id_counter st + 1\<rparr>))
                         | None \<Rightarrow> Inl TypeError)
                      else Inr (st\<lparr>heap_io := (heap_io st)[a := f]\<rparr>))))
           else
             (case search_file_write_stats (debug st) line (FLASHLogFileIO_init (IO_id_counter st)) of
                Inl e \<Rightarrow> Inl e
              | Inr f \<Rightarrow>
                Inr (st\<lparr>write_flag := True, fileIO := Some (length (heap_io st)),
                        heap_io := heap_io st @ [f]\<rparr>))
         else Inr st)"

section \<open>The block tracker\<close>

text \<open>\<^verbatim>\<open>np.diff\<close> on a list of datetimes: the timedeltas between neighbours.\<close>

fun np_diff :: "int list \<Rightarrow> int list" where
  "np_diff (x # y # r) = (y - x) # np_diff (y # r)"
| "np_diff _ = []"

text \<open>
  The list \<^verbatim>\<open>steps_per_time_secs\<close> that \<^verbatim>\<open>process_block_statistics\<close> builds: the seconds
  of each difference.
\<close>

definition steps_per_time_secs :: "int list \<Rightarrow> real list" where
  "steps_per_time_secs wl = map total_seconds (np_diff wl)"

text \<open>\<^verbatim>\<open>np.mean\<close> and \<^verbatim>\<open>np.std\<close>: NaN (and a warning) on the empty list.\<close>

definition np_mean :: "real list \<Rightarrow> npfloat" where
  "np_mean xs = (if xs = [] then NaN else Fin (sum_list xs / real (length xs)))"

definition np_std :: "real list \<Rightarrow> npfloat" where
  "np_std xs =
     (if xs = [] then NaN
      else let m = sum_list xs / real (length xs)
           in Fin (sqrt (sum_list (map (\<lambda>x. (x - m) ^ 2) xs) / real (length xs))))"

text \<open>A numpy float divided by a Python int: a zero divisor gives an infinity or NaN.\<close>

definition np_div :: "npfloat \<Rightarrow> int \<Rightarrow> npfloat" where
  "np_div x n =
     (case x of
        NaN \<Rightarrow> NaN
      | Fin r \<Rightarrow> if n \<noteq> 0 then Fin (r / real_of_int n)
                 else if 0 < r then PosInf else if r < 0 then NegInf else NaN
      | PosInf \<Rightarrow> if 0 \<le> n then PosInf else NegInf
      | NegInf \<Rightarrow> if 0 \<le> n then NegInf else PosInf)"

text \<open>A timedelta holds at most 999999999 days, either way; beyond, OverflowError.\<close>

definition timedelta_ok :: "int \<Rightarrow> bool" where
  "timedelta_ok us = (- 999999999 \<le> us div 86400000000 \<and> us div 86400000000 \<le> 999999999)"

text \<open>
  \<^verbatim>\<open>process_block_statistics\<close>. The block and the two lists come as references; the block
  keeps the references to the lists in \<^verbatim>\<open>wall_time\<close> and \<^verbatim>\<open>dt\<close>.
\<close>

definition process_block_statistics :: "state \<Rightarrow> nat \<Rightarrow> nat \<Rightarrow> int \<Rightarrow> nat \<Rightarrow> int \<Rightarrow> py_error + state" where
  "process_block_statistics st b wtl c dtl block_id_ctr =
     (case heap_get (heap_block st) b of None \<Rightarrow> Inl UnboundLocalError
      | Some blk \<Rightarrow>
        (case heap_get (heap_wall_time st) wtl of None \<Rightarrow> Inl UnboundLocalError
         | Some wl \<Rightarrow>
           if wl = [] then Inl IndexError
           else
             let blk1 = blk\<lparr>end_date := PyDatetime (last wl), end_line := c - 1\<rparr>;
                 blk2 = blk1\<lparr>n_steps := end_line blk1 - start_line blk1,
                             wall_time := WallTimeListRef wtl, dt := DtListRef dtl\<rparr>;
                 secs = steps_per_time_secs wl
             in (case start_date blk2 of
                   PyDatetime sd \<Rightarrow>
                     (case n_cores st of None \<Rightarrow> Inl TypeError
                      | Some nc \<Rightarrow>
                        if \<not> timedelta_ok ((last wl - sd) * nc) then Inl OverflowError
                        else
                          (case n_cells_per_block st of None \<Rightarrow> Inl TypeError
                           | Some ncb \<Rightarrow>
                             let blk3 = blk2\<lparr>core_hours := PyTimedelta ((last wl - sd) * nc),
                                             avg_wall_time_diff := NpFloat (np_mean secs),
                                             std_wall_time_diff := NpFloat (np_std secs),
                                             avg_wall_time_norm := Some (NpFloat (np_div (np_mean secs) ncb)),
                                             std_wall_time_norm := Some (NpFloat (np_div (np_std secs) ncb))\<rparr>
                             in Inr (st\<lparr>heap_block := (heap_block st)[b := blk3],
                                        blocks := dict_set block_id_ctr b (blocks st)\<rparr>)))
                 | _ \<Rightarrow> Inl TypeError)))"

text \<open>
  The part of the loop body under \<^verbatim>\<open>if args["blocks"]\<close>. \<^verbatim>\<open>append\<close> mutates the list object
  that the local variable refers to; \<^verbatim>\<open>wall_time_list = []\<close> binds the variable to a new
  list object.
\<close>

definition track_block :: "(string \<Rightarrow> real option) \<Rightarrow> state \<Rightarrow> string \<Rightarrow> py_error + state" where
  "track_block pf st line =
     (case search_walltime pf line of Inl e \<Rightarrow> Inl e
      | Inr (Some (wt, d)) \<Rightarrow>
          let st1 = (if \<not> chunk st
                     then st\<lparr>heap_block := heap_block st @
                                [(FLASHLogBlock_init (block_id_counter st))
                                   \<lparr>start_date := PyDatetime wt, start_line := cnt st\<rparr>],
                             block := Some (length (heap_block st)), chunk := True\<rparr>
                     else st)
          in (case heap_get (heap_wall_time st1) (wall_time_list st1) of
                None \<Rightarrow> Inl UnboundLocalError
              | Some wl \<Rightarrow>
                (case heap_get (heap_dt st1) (dt_list st1) of None \<Rightarrow> Inl UnboundLocalError
                 | Some dl \<Rightarrow>
                   Inr (st1\<lparr>heap_wall_time := (heap_wall_time st1)[wall_time_list st1 := wl @ [wt]],
                            heap_dt := (heap_dt st1)[dt_list st1 := dl @ [d]]\<rparr>)))
      | Inr None \<Rightarrow>
          if chunk st then
            (case block st of None \<Rightarrow> Inl UnboundLocalError
             | Some b \<Rightarrow>
               (case process_block_statistics st b (wall_time_list st) (cnt st) (dt_list st)
                       (block_id_counter st) of
                  Inl e \<Rightarrow> Inl e
                | Inr st1 \<Rightarrow>
                  Inr (st1\<lparr>block_id_counter := block_id_counter st1 + 1,
                           wall_time_list := length (heap_wall_time st1),
                           heap_wall_time := heap_wall_time st1 @ [[]],
                           dt_list := length (heap_dt st1),
                           heap_dt := heap_dt st1 @ [[]],
                           chunk := False\<rparr>)))
          else Inr st)"

section \<open>The region pass\<close>

text \<open>The two switches of the command line that the pass reads from the global \<^verbatim>\<open>args\<close>.\<close>

record args =
  file_writes :: bool
  blocks_arg :: bool

text \<open>The body of the loop of \<^verbatim>\<open>deconstruct_log_file\<close>, on one line.\<close>

definition loop_body :: "args \<Rightarrow> (string \<Rightarrow> real option) \<Rightarrow> state \<Rightarrow> string \<Rightarrow> py_error + state" where
  "loop_body A pf st line =
     (case (if file_writes A then track_file_write st line else Inr st) of
        Inl e \<Rightarrow> Inl e
      | Inr st1 \<Rightarrow>
        (case (if blocks_arg A then track_block pf st1 line else Inr st1) of
           Inl e \<Rightarrow> Inl e
         | Inr st2 \<Rightarrow> Inr (st2\<lparr>cnt := cnt st2 + 1\<rparr>)))"

primrec read_loop :: "args \<Rightarrow> (string \<Rightarrow> real option) \<Rightarrow> state \<Rightarrow> string list \<Rightarrow> py_error + state" where
  "read_loop A pf st [] = Inr st"
| "read_loop A pf st (line # rest) =
     (case loop_body A pf st line of Inl e \<Rightarrow> Inl e | Inr st1 \<Rightarrow> read_loop A pf st1 rest)"

text \<open>The local variables as \<^verbatim>\<open>deconstruct_log_file\<close> sets them before the loop.\<close>

definition init_locals :: "state \<Rightarrow> state" where
  "init_locals st =
     st\<lparr>chunk := False, write_flag := False, IO_id_counter := 0, block_id_counter := 0,
        wall_time_list := length (heap_wall_time st), heap_wall_time := heap_wall_time st @ [[]],
        dt_list := length (heap_dt st), heap_dt := heap_dt st @ [[]],
        fileIO := None, block := None, cnt := 1\<rparr>"

definition deconstruct_log_file :: "args \<Rightarrow> (string \<Rightarrow> real option) \<Rightarrow> state \<Rightarrow> string list \<Rightarrow> py_error + state" where
  "deconstruct_log_file A pf st lines =
     (case (if n_cells st = None then compute_sim_parameters (init_locals st) lines
            else Inr (init_locals st)) of
        Inl e \<Rightarrow> Inl e
      | Inr st1 \<Rightarrow> read_loop A pf st1 lines)"

text \<open>
  The body of the loop of \<^verbatim>\<open>main\<close> for one file, up to the export: a new \<^verbatim>\<open>FLASHLogStats\<close>,
  the parameter scan, the region pass. An exception of the scan ends the program before
  the pass.
\<close>

definition main_file :: "args \<Rightarrow> (string \<Rightarrow> real option) \<Rightarrow> bool \<Rightarrow> string list \<Rightarrow> py_error + state" where
  "main_file A pf dbg lines =
     (case compute_sim_parameters (FLASHLogStats_init dbg) lines of
        Inl e \<Rightarrow> Inl e
      | Inr st \<Rightarrow> deconstruct_log_file A pf st lines)"

text \<open>
  What \<^verbatim>\<open>create_dataset\<close> writes in the column \<^verbatim>\<open>core_hrs\<close>: for a block
  \<^verbatim>\<open>core_hours.total_seconds()/seconds_per_hour\<close>, for a file write \<^verbatim>\<open>core_hours\<close> as it is.
\<close>

definition export_core_hrs_block :: "FLASHLogBlock \<Rightarrow> py_error + real" where
  "export_core_hrs_block blk =
     (case core_hours blk of PyTimedelta td \<Rightarrow> Inr (total_seconds td / seconds_per_hour)
      | _ \<Rightarrow> Inl AttributeError)"

definition export_core_hrs_io :: "FLASHLogFileIO \<Rightarrow> pyval" where
  "export_core_hrs_io f = core_hours_io f"

text \<open>The records that a dictionary of the result store refers to, in insertion order.\<close>

definition stored_blocks :: "state \<Rightarrow> (int \<times> FLASHLogBlock) list" where
  "stored_blocks st = map (\<lambda>(k, a). (k, heap_block st ! a)) (blocks st)"

definition stored_fileIOs :: "state \<Rightarrow> (int \<times> FLASHLogFileIO) list" where
  "stored_fileIOs st = map (\<lambda>(k, a). (k, heap_io st ! a)) (fileIOs st)"

section \<open>Auxiliary definitions for the statements\<close>

text \<open>
  The first line of a file that contains a label, and the first integer on that line:
  what a field of the parameter scan is compared with.
\<close>

definition first_extraction :: "string \<Rightarrow> string list \<Rightarrow> int option" where
  "first_extraction label lines =
     (case find (re_search label) lines of None \<Rightarrow> None
      | Some l \<Rightarrow> map_option py_int (first_digits l))"

text \<open>The effect of one line on a field of the scan that keeps its first value.\<close>

definition keep_first :: "string \<Rightarrow> int option \<Rightarrow> string \<Rightarrow> int option" where
  "keep_first label cur l =
     (case cur of Some c \<Rightarrow> Some c
      | None \<Rightarrow> if re_search label l then map_option py_int (first_digits l) else None)"

text \<open>Concrete lines for the closed examples.\<close>

definition example_header :: "string list" where
  "example_header = [''Number of MPI tasks: 96'', ''Number x zones: 16'',
     ''Number y zones: 16'', ''Number z zones: 16'']"

text \<open>A line that carries one of the two names of the write routines.\<close>

definition is_marker :: "string \<Rightarrow> bool" where
  "is_marker line = (re_search ''IO_writeCheckpoint'' line \<or> re_search ''IO_writePlotfile'' line)"

text \<open>
  The block record as \<^verbatim>\<open>process_block_statistics\<close> leaves it, and as the loop creates it.
\<close>

definition finalized_block :: "FLASHLogBlock \<Rightarrow> int list \<Rightarrow> nat \<Rightarrow> nat \<Rightarrow> int \<Rightarrow> int \<Rightarrow> int \<Rightarrow> int \<Rightarrow> FLASHLogBlock" where
  "finalized_block blk wl wtl dtl c sd nc ncb =
     blk\<lparr>end_date := PyDatetime (last wl), end_line := c - 1,
         n_steps := c - 1 - start_line blk,
         wall_time := WallTimeListRef wtl, dt := DtListRef dtl,
         core_hours := PyTimedelta ((last wl - sd) * nc),
         avg_wall_time_diff := NpFloat (np_mean (steps_per_time_secs wl)),
         std_wall_time_diff := NpFloat (np_std (steps_per_time_secs wl)),
         avg_wall_time_norm := Some (NpFloat (np_div (np_mean (steps_per_time_secs wl)) ncb)),
         std_wall_time_norm := Some (NpFloat (np_div (np_std (steps_per_time_secs wl)) ncb))\<rparr>"

definition new_block :: "int \<Rightarrow> int \<Rightarrow> int \<Rightarrow> FLASHLogBlock" where
  "new_block bid wt c = (FLASHLogBlock_init bid)\<lparr>start_date := PyDatetime wt, start_line := c\<rparr>"

text \<open>
  The references of the state are sound: the keys of a dictionary are distinct and below
  its counter, every stored reference is the address of an object, the object being
  tracked or accumulated is not stored, and the lists of a stored block are older than
  the two lists being filled.
\<close>

definition io_refs :: "state \<Rightarrow> bool" where
  "io_refs st \<longleftrightarrow>
     distinct (map fst (fileIOs st)) \<and>
     (\<forall>(k, a) \<in> set (fileIOs st). a < length (heap_io st) \<and> k < IO_id_counter st) \<and>
     (write_flag st \<longrightarrow>
        (\<exists>a. fileIO st = Some a \<and> a < length (heap_io st) \<and> a \<notin> snd ` set (fileIOs st)))"

definition blk_refs :: "state \<Rightarrow> bool" where
  "blk_refs st \<longleftrightarrow>
     distinct (map fst (blocks st)) \<and>
     wall_time_list st < length (heap_wall_time st) \<and> dt_list st < length (heap_dt st) \<and>
     (\<forall>(k, b) \<in> set (blocks st). b < length (heap_block st) \<and> k < block_id_counter st \<and>
        (\<exists>wa da. wall_time (heap_block st ! b) = WallTimeListRef wa \<and> wa < wall_time_list st
                \<and> dt (heap_block st ! b) = DtListRef da \<and> da < dt_list st)) \<and>
     (chunk st \<longrightarrow>
        (\<exists>b. block st = Some b \<and> b < length (heap_block st) \<and> b \<notin> snd ` set (blocks st)))"

text \<open>
  From \<open>st\<close> to \<open>st'\<close> nothing stored has changed: every entry of a dictionary of \<open>st\<close> is
  an entry of \<open>st'\<close>, the object it refers to has the same value, and so have the two
  lists that a stored block refers to.
\<close>

definition io_unchanged :: "state \<Rightarrow> state \<Rightarrow> bool" where
  "io_unchanged st st' \<longleftrightarrow>
     (\<forall>(k, a) \<in> set (fileIOs st). (k, a) \<in> set (fileIOs st') \<and> heap_io st' ! a = heap_io st ! a)"

definition blk_unchanged :: "state \<Rightarrow> state \<Rightarrow> bool" where
  "blk_unchanged st st' \<longleftrightarrow>
     (\<forall>(k, b) \<in> set (blocks st). (k, b) \<in> set (blocks st') \<and> heap_block st' ! b = heap_block st ! b \<and>
        (\<forall>wa. wall_time (heap_block st ! b) = WallTimeListRef wa \<longrightarrow>
                heap_wall_time st' ! wa = heap_wall_time st ! wa) \<and>
        (\<forall>da. dt (heap_block st ! b) = DtListRef da \<longrightarrow> heap_dt st' ! da = heap_dt st ! da))"

text \<open>Two states agree on what one tracker reads and writes, or on the parameters.\<close>

definition same_blk_fields :: "state \<Rightarrow> state \<Rightarrow> bool" where
  "same_blk_fields st st' \<longleftrightarrow>
     blocks st' = blocks st \<and> heap_block st' = heap_block st
     \<and> heap_wall_time st' = heap_wall_time st \<and> heap_dt st' = heap_dt st
     \<and> chunk st' = chunk st \<and> block st' = block st
     \<and> wall_time_list st' = wall_time_list st \<and> dt_list st' = dt_list st
     \<and> block_id_counter st' = block_id_counter st"

definition same_io_fields :: "state \<Rightarrow> state \<Rightarrow> bool" where
  "same_io_fields st st' \<longleftrightarrow>
     fileIOs st' = fileIOs st \<and> heap_io st' = heap_io st \<and> write_flag st' = write_flag st
     \<and> fileIO st' = fileIO st \<and> IO_id_counter st' = IO_id_counter st"

definition same_params :: "state \<Rightarrow> state \<Rightarrow> bool" where
  "same_params st st' \<longleftrightarrow>
     n_cores st' = n_cores st \<and> n_cells_per_block st' = n_cells_per_block st
     \<and> debug st' = debug st"

text \<open>
  The state of the pass that \<^verbatim>\<open>main\<close> runs on a file, after the first \<open>n\<close> lines of the
  region pass.
\<close>

definition pass_prefix :: "args \<Rightarrow> (string \<Rightarrow> real option) \<Rightarrow> bool \<Rightarrow> string list \<Rightarrow> nat \<Rightarrow> py_error + state" where
  "pass_prefix A pf dbg lines n =
     (case compute_sim_parameters (FLASHLogStats_init dbg) lines of
        Inl e \<Rightarrow> Inl e
      | Inr s0 \<Rightarrow> read_loop A pf (init_locals s0) (take n lines))"

definition refs_ok :: "state \<Rightarrow> bool" where
  "refs_ok st \<longleftrightarrow> io_refs st \<and> blk_refs st"

definition stored_unchanged :: "state \<Rightarrow> state \<Rightarrow> bool" where
  "stored_unchanged st st' \<longleftrightarrow> io_unchanged st st' \<and> blk_unchanged st st'"

text \<open>
  The values an event object takes: after an open marker at time \<open>t\<close>, and after the close
  marker at time \<open>t1\<close> that stores it.
\<close>

definition opened_event :: "int \<Rightarrow> int \<Rightarrow> FLASHLogFileIO" where
  "opened_event wid t =
     (FLASHLogFileIO_init wid)\<lparr>start_date_io := PyDatetime t, wall_time_io := PyDatetime t,
                               open_io := True\<rparr>"

definition file_kind :: "string \<Rightarrow> string" where
  "file_kind line = (if re_search ''IO_writeCheckpoint'' line then ''chk'' else ''plt'')"

definition closed_event :: "int \<Rightarrow> int \<Rightarrow> int \<Rightarrow> string \<Rightarrow> int \<Rightarrow> FLASHLogFileIO" where
  "closed_event wid t0 t1 kind n =
     \<lparr>start_date_io = PyDatetime t0, write_id = wid,
      wall_time_io = PyFloat (total_seconds (t1 - t0)),
      wall_time_norm = PyFloat (total_seconds (t1 - t0) / real_of_int n),
      file_type = kind,
      core_hours_io = PyFloat (total_seconds (t1 - t0) / seconds_per_hour),
      open_io = False, close_io = True\<rparr>"

text \<open>
  Line \<open>i\<close> (counted from 0) is a marker line with \<^verbatim>\<open>open:\<close> and the time \<open>t\<close>; line \<open>j\<close> is a
  marker line that takes the branch of \<^verbatim>\<open>close:\<close>, with the time \<open>t\<close>; no marker line
  strictly between \<open>i\<close> and \<open>j\<close> has \<^verbatim>\<open>open:\<close> or \<^verbatim>\<open>close:\<close>.
\<close>

definition open_at :: "string list \<Rightarrow> nat \<Rightarrow> int \<Rightarrow> bool" where
  "open_at ls i t \<longleftrightarrow>
     i < length ls \<and> is_marker (ls ! i) \<and> re_search ''open:'' (ls ! i)
     \<and> line_wall_time (ls ! i) = Inr t"

definition close_at :: "string list \<Rightarrow> nat \<Rightarrow> int \<Rightarrow> bool" where
  "close_at ls j t \<longleftrightarrow>
     j < length ls \<and> is_marker (ls ! j) \<and> \<not> re_search ''open:'' (ls ! j)
     \<and> re_search ''close:'' (ls ! j) \<and> line_wall_time (ls ! j) = Inr t"

definition quiet_between :: "string list \<Rightarrow> nat \<Rightarrow> nat \<Rightarrow> bool" where
  "quiet_between ls i j \<longleftrightarrow>
     (\<forall>m. i < m \<and> m < j \<longrightarrow>
        \<not> (is_marker (ls ! m) \<and> (re_search ''open:'' (ls ! m) \<or> re_search ''close:'' (ls ! m))))"

text \<open>
  The event being tracked after the lines \<open>pre\<close>: new, or opened by the last open marker.
  The stored events: each is the closed event of an open marker, the last one before its
  close marker.
\<close>

definition io_working :: "string list \<Rightarrow> state \<Rightarrow> bool" where
  "io_working pre st \<longleftrightarrow>
     (write_flag st \<longrightarrow>
        (\<exists>a. fileIO st = Some a \<and>
           (heap_io st ! a = FLASHLogFileIO_init (IO_id_counter st)
            \<or> (\<exists>i t. open_at pre i t \<and> quiet_between pre i (length pre)
                  \<and> heap_io st ! a = opened_event (IO_id_counter st) t))))"

definition io_stored :: "string list \<Rightarrow> state \<Rightarrow> bool" where
  "io_stored pre st \<longleftrightarrow>
     (\<forall>(k, a) \<in> set (fileIOs st).
        \<exists>i j t0 t1 n. i < j \<and> open_at pre i t0 \<and> close_at pre j t1 \<and> quiet_between pre i j
          \<and> n_cells_per_block st = Some n \<and> n \<noteq> 0
          \<and> heap_io st ! a = closed_event k t0 t1 (file_kind (pre ! j)) n)"

text \<open>
  Every event object is in the result store or is the one being tracked. Together, the
  facts about the file-write tracker after the lines \<open>pre\<close>.
\<close>

definition io_heap :: "state \<Rightarrow> bool" where
  "io_heap st \<longleftrightarrow>
     (\<forall>a < length (heap_io st).
        a \<in> snd ` set (fileIOs st) \<or> (write_flag st \<and> fileIO st = Some a))"

definition io_inv :: "args \<Rightarrow> string list \<Rightarrow> state \<Rightarrow> bool" where
  "io_inv A pre st \<longleftrightarrow>
     io_refs st \<and> io_heap st \<and> (\<not> file_writes A \<longrightarrow> \<not> write_flag st)
     \<and> io_working pre st \<and> io_stored pre st"

text \<open>
  The flags \<open>(open, close)\<close> of the event object at address \<open>a\<close>: in a state, and after
  the first \<open>m\<close> lines of the pass of \<^verbatim>\<open>main\<close> over a file. \<open>None\<close>: the object has
  not been created.
\<close>

definition flags :: "state \<Rightarrow> nat \<Rightarrow> (bool \<times> bool) option" where
  "flags st a =
     (if a < length (heap_io st) then Some (open_io (heap_io st ! a), close_io (heap_io st ! a))
      else None)"

definition flags_at :: "args \<Rightarrow> (string \<Rightarrow> real option) \<Rightarrow> bool \<Rightarrow> string list \<Rightarrow> nat \<Rightarrow> nat \<Rightarrow> (bool \<times> bool) option" where
  "flags_at A pf dbg lines m a =
     (case pass_prefix A pf dbg lines m of Inl e \<Rightarrow> None | Inr st \<Rightarrow> flags st a)"

text \<open>
  The history of the event object \<open>a\<close> over the first \<open>n\<close> lines. Not yet opened: after
  each of the first \<open>n\<close> lines it is absent or has both flags unset. Open since line \<open>i\<close>
  (counted from 0), an open marker: absent or new until then, and \<open>open\<close> set, \<open>close\<close>
  unset after each line from \<open>i\<close> on. Closed once: open since line \<open>i\<close>, until line \<open>j\<close>, a
  close marker, and \<open>close\<close> set, \<open>open\<close> unset after each line from \<open>j\<close> on.
\<close>

definition not_opened :: "args \<Rightarrow> (string \<Rightarrow> real option) \<Rightarrow> bool \<Rightarrow> string list \<Rightarrow> nat \<Rightarrow> nat \<Rightarrow> bool" where
  "not_opened A pf dbg lines n a \<longleftrightarrow>
     (\<forall>m \<le> n. flags_at A pf dbg lines m a = None
             \<or> flags_at A pf dbg lines m a = Some (False, False))"

definition open_since :: "args \<Rightarrow> (string \<Rightarrow> real option) \<Rightarrow> bool \<Rightarrow> string list \<Rightarrow> nat \<Rightarrow> nat \<Rightarrow> nat \<Rightarrow> bool" where
  "open_since A pf dbg lines n a i \<longleftrightarrow>
     i < n \<and> (\<exists>t. open_at lines i t) \<and> not_opened A pf dbg lines i a
     \<and> (\<forall>m. i < m \<and> m \<le> n \<longrightarrow> flags_at A pf dbg lines m a = Some (True, False))"

definition closed_once :: "args \<Rightarrow> (string \<Rightarrow> real option) \<Rightarrow> bool \<Rightarrow> string list \<Rightarrow> nat \<Rightarrow> nat \<Rightarrow> nat \<Rightarrow> nat \<Rightarrow> bool" where
  "closed_once A pf dbg lines n a i j \<longleftrightarrow>
     j < n \<and> (\<exists>t. close_at lines j t) \<and> open_since A pf dbg lines j a i
     \<and> (\<forall>m. j < m \<and> m \<le> n \<longrightarrow> flags_at A pf dbg lines m a = Some (False, True))"

text \<open>The histories after \<open>n\<close> lines: of the stored events and of the event being tracked.\<close>

definition io_hist :: "args \<Rightarrow> (string \<Rightarrow> real option) \<Rightarrow> bool \<Rightarrow> string list \<Rightarrow> nat \<Rightarrow> state \<Rightarrow> bool" where
  "io_hist A pf dbg lines n st \<longleftrightarrow>
     (\<forall>m \<le> n. \<forall>a. flags_at A pf dbg lines m a \<noteq> None \<longrightarrow> a < length (heap_io st))
     \<and> (\<forall>(k, a) \<in> set (fileIOs st). \<exists>i j. closed_once A pf dbg lines n a i j)
     \<and> (write_flag st \<longrightarrow>
          (\<exists>a. fileIO st = Some a
             \<and> (not_opened A pf dbg lines n a \<or> (\<exists>i. open_since A pf dbg lines n a i))))"

text \<open>A call of one of the three methods of an event object.\<close>

datatype io_call = Open_file | Close_file | Empty

primrec call :: "io_call \<Rightarrow> FLASHLogFileIO \<Rightarrow> FLASHLogFileIO" where
  "call Open_file f = open_file f"
| "call Close_file f = close_file f"
| "call Empty f = empty_io f"

text \<open>
  The lines \<open>s\<close>, \<open>s + 1\<close>, ... of the file (counted from 1) are step lines, and \<open>wl\<close> and
  \<open>dl\<close> are their times and their time steps, in order; the line before line \<open>s\<close>, if
  there is one, is not a step line.
\<close>

definition steps_at :: "(string \<Rightarrow> real option) \<Rightarrow> string list \<Rightarrow> int \<Rightarrow> int list \<Rightarrow> real list \<Rightarrow> bool" where
  "steps_at pf ls s wl dl \<longleftrightarrow>
     1 \<le> s \<and> length dl = length wl \<and> nat (s - 1) + length wl \<le> length ls
     \<and> (s = 1 \<or> \<not> has_step (ls ! nat (s - 2)))
     \<and> (\<forall>i < length wl. search_walltime pf (ls ! (nat (s - 1) + i)) = Inr (Some (wl ! i, dl ! i)))"

text \<open>
  The block stored under the key \<open>k\<close> for the step lines \<open>s\<close>, ..., \<open>s + length wl - 1\<close>:
  its lists are the objects at \<open>wa\<close> and \<open>da\<close>, the line that ended it has the number
  \<open>s + length wl\<close>.
\<close>

definition stored_block :: "int \<Rightarrow> int \<Rightarrow> int list \<Rightarrow> nat \<Rightarrow> nat \<Rightarrow> int \<Rightarrow> int \<Rightarrow> FLASHLogBlock" where
  "stored_block k s wl wa da nc ncb =
     finalized_block (new_block k (hd wl) s) wl wa da (s + int (length wl)) (hd wl) nc ncb"

text \<open>
  The block being accumulated after the lines \<open>pre\<close>, and the stored blocks: each is
  the stored block of a run of step lines that a line without a step ended.
\<close>

definition blk_open :: "(string \<Rightarrow> real option) \<Rightarrow> string list \<Rightarrow> state \<Rightarrow> bool" where
  "blk_open pf pre st \<longleftrightarrow>
     (if chunk st
      then (\<exists>b s. block st = Some b
              \<and> heap_wall_time st ! wall_time_list st \<noteq> []
              \<and> heap_block st ! b
                  = new_block (block_id_counter st) (hd (heap_wall_time st ! wall_time_list st)) s
              \<and> s + int (length (heap_wall_time st ! wall_time_list st)) = int (length pre) + 1
              \<and> steps_at pf pre s (heap_wall_time st ! wall_time_list st)
                    (heap_dt st ! dt_list st))
      else heap_wall_time st ! wall_time_list st = [] \<and> heap_dt st ! dt_list st = [])"

definition blk_stored :: "(string \<Rightarrow> real option) \<Rightarrow> string list \<Rightarrow> state \<Rightarrow> bool" where
  "blk_stored pf pre st \<longleftrightarrow>
     (\<forall>(k, b) \<in> set (blocks st).
        \<exists>s wa da nc ncb.
          heap_wall_time st ! wa \<noteq> [] \<and> n_cores st = Some nc \<and> n_cells_per_block st = Some ncb
          \<and> heap_block st ! b = stored_block k s (heap_wall_time st ! wa) wa da nc ncb
          \<and> steps_at pf pre s (heap_wall_time st ! wa) (heap_dt st ! da)
          \<and> nat (s - 1) + length (heap_wall_time st ! wa) < length pre
          \<and> \<not> has_step (pre ! (nat (s - 1) + length (heap_wall_time st ! wa))))"

definition blk_inv :: "args \<Rightarrow> (string \<Rightarrow> real option) \<Rightarrow> string list \<Rightarrow> state \<Rightarrow> bool" where
  "blk_inv A pf pre st \<longleftrightarrow>
     blk_refs st \<and> cnt st = int (length pre) + 1
     \<and> (\<not> blocks_arg A \<longrightarrow> \<not> chunk st)
     \<and> (blocks_arg A \<and> pre \<noteq> [] \<longrightarrow> chunk st = has_step (last pre))
     \<and> blk_open pf pre st \<and> blk_stored pf pre st"

text \<open>
  Every line without a step that follows a step line has ended a block: a block whose
  end line is the number of that step line is stored.
\<close>

definition blk_complete :: "string list \<Rightarrow> state \<Rightarrow> bool" where
  "blk_complete pre st \<longleftrightarrow>
     (\<forall>e. 0 < e \<and> e < length pre \<and> has_step (pre ! (e - 1)) \<and> \<not> has_step (pre ! e) \<longrightarrow>
        (\<exists>k b. (k, b) \<in> set (blocks st) \<and> end_line (heap_block st ! b) = int e))"

text \<open>
  A log file for the closed examples: the four parameter lines, three step lines, an
  open marker, a second open marker, a close marker, two step lines, a line without a
  step, two step lines, a line without a step, and a last step line.
\<close>

definition ex_h1 :: string where
  "ex_h1 = ''Number of MPI tasks: 96''"

definition ex_h2 :: string where
  "ex_h2 = ''Number x zones: 16''"

definition ex_h3 :: string where
  "ex_h3 = ''Number y zones: 16''"

definition ex_h4 :: string where
  "ex_h4 = ''Number z zones: 16''"

definition ex_s1 :: string where
  "ex_s1 = ''01-01-2022 00:00:00.000 n=1 dt=1.0E-05''"

definition ex_s2 :: string where
  "ex_s2 = ''01-01-2022 00:00:02.000 n=2 dt=1.0E-05''"

definition ex_s3 :: string where
  "ex_s3 = ''01-01-2022 00:00:04.000 n=3 dt=1.0E-05''"

definition ex_o1 :: string where
  "ex_o1 = ''01-01-2022 00:00:05.000 IO_writeCheckpoint open:''"

definition ex_o2 :: string where
  "ex_o2 = ''01-01-2022 00:00:06.000 IO_writeCheckpoint open:''"

definition ex_c1 :: string where
  "ex_c1 = ''01-01-2022 00:00:16.000 IO_writeCheckpoint close:''"

definition ex_s4 :: string where
  "ex_s4 = ''01-01-2022 00:00:20.000 n=4 dt=1.0E-05''"

definition ex_s5 :: string where
  "ex_s5 = ''01-01-2022 00:00:23.000 n=5 dt=1.0E-05''"

definition ex_x :: string where
  "ex_x = ''grid changed''"

definition ex_s6 :: string where
  "ex_s6 = ''01-01-2022 00:00:30.000 n=6 dt=1.0E-05''"

definition ex_s7 :: string where
  "ex_s7 = ''01-01-2022 00:00:31.000 n=7 dt=1.0E-05''"

definition ex_y :: string where
  "ex_y = ''run complete''"

definition ex_s8 :: string where
  "ex_s8 = ''01-01-2022 00:00:40.000 n=8 dt=1.0E-05''"

definition example_log :: "string list" where
  "example_log = [ex_h1, ex_h2, ex_h3, ex_h4, ex_s1, ex_s2, ex_s3, ex_o1, ex_o2, ex_c1,
     ex_s4, ex_s5, ex_x, ex_s6, ex_s7, ex_y, ex_s8]"

definition ex_args :: args where
  "ex_args = \<lparr>file_writes = True, blocks_arg = True\<rparr>"

definition ex_s0 :: state where
  "ex_s0 = \<lparr>n_cores_per_node = 48, nodes = Some 2, n_cores = Some 96,
        nxb = Some 16, nyb = Some 16, nzb = Some 16,
        n_cells_per_block = Some 4096, n_cells = Some 393216, blocks = [],
        fileIOs = [], debug = False, heap_io = [], heap_block = [],
        heap_wall_time = [], heap_dt = [], chunk = False, write_flag = False,
        IO_id_counter = 0, block_id_counter = 0, wall_time_list = 0,
        dt_list = 0, fileIO = None, block = None, cnt = 0\<rparr>"

text \<open>The state at the end of the pass over the example log.\<close>

definition ex_final :: state where
  "ex_final =
     \<lparr>n_cores_per_node = 48, nodes = Some 2, n_cores = Some 96,
      nxb = Some 16, nyb = Some 16, nzb = Some 16,
      n_cells_per_block = Some 4096, n_cells = Some 393216,
      blocks = [(0, 0), (1, 1), (2, 2)], fileIOs = [(0, 0)],
      debug = False,
      heap_io =
        [\<lparr>start_date_io = PyDatetime 63776592006000000, write_id = 0,
          wall_time_io = PyFloat 10, wall_time_norm = PyFloat (5 / 2048),
          file_type = ''chk'', core_hours_io = PyFloat (1 / 360),
          open_io = False, close_io = True\<rparr>],
      heap_block =
        [\<lparr>block_id = 0, core_hours = PyTimedelta 384000000,
          wall_time = WallTimeListRef 0,
          avg_wall_time_diff = NpFloat (Fin 2), std_wall_time_diff = NpFloat (Fin 0),
          avg_wall_time_diff_norm = PyInt 0, std_wall_time_diff_norm = PyInt 0,
          dt = DtListRef 0,
          start_date = PyDatetime 63776592000000000,
          end_date = PyDatetime 63776592004000000, start_line = 5,
          end_line = 7, n_steps = 2,
          avg_wall_time_norm = Some (NpFloat (Fin (1 / 2048))),
          std_wall_time_norm = Some (NpFloat (Fin 0))\<rparr>,
         \<lparr>block_id = 1, core_hours = PyTimedelta 288000000,
          wall_time = WallTimeListRef 1,
          avg_wall_time_diff = NpFloat (Fin 3), std_wall_time_diff = NpFloat (Fin 0),
          avg_wall_time_diff_norm = PyInt 0, std_wall_time_diff_norm = PyInt 0,
          dt = DtListRef 1,
          start_date = PyDatetime 63776592020000000,
          end_date = PyDatetime 63776592023000000, start_line = 11,
          end_line = 12, n_steps = 1,
          avg_wall_time_norm = Some (NpFloat (Fin (3 / 4096))),
          std_wall_time_norm = Some (NpFloat (Fin 0))\<rparr>,
         \<lparr>block_id = 2, core_hours = PyTimedelta 96000000,
          wall_time = WallTimeListRef 2,
          avg_wall_time_diff = NpFloat (Fin 1), std_wall_time_diff = NpFloat (Fin 0),
          avg_wall_time_diff_norm = PyInt 0, std_wall_time_diff_norm = PyInt 0,
          dt = DtListRef 2,
          start_date = PyDatetime 63776592030000000,
          end_date = PyDatetime 63776592031000000, start_line = 14,
          end_line = 15, n_steps = 1,
          avg_wall_time_norm = Some (NpFloat (Fin (1 / 4096))),
          std_wall_time_norm = Some (NpFloat (Fin 0))\<rparr>,
         \<lparr>block_id = 3, core_hours = PyInt 0, wall_time = PyInt 0,
          avg_wall_time_diff = PyInt 0, std_wall_time_diff = PyInt 0,
          avg_wall_time_diff_norm = PyInt 0, std_wall_time_diff_norm = PyInt 0,
          dt = PyInt 0,
          start_date = PyDatetime 63776592040000000, end_date = PyStr [],
          start_line = 17, end_line = 0, n_steps = 0,
          avg_wall_time_norm = None, std_wall_time_norm = None\<rparr>],
      heap_wall_time =
        [[63776592000000000, 63776592002000000, 63776592004000000],
         [63776592020000000, 63776592023000000],
         [63776592030000000, 63776592031000000], [63776592040000000]],
      heap_dt =
        [[1 / 100000, 1 / 100000, 1 / 100000], [1 / 100000, 1 / 100000],
         [1 / 100000, 1 / 100000], [1 / 100000]],
      chunk = True, write_flag = False, IO_id_counter = 1,
      block_id_counter = 3, wall_time_list = 3, dt_list = 3, fileIO = Some 0,
      block = Some 3, cnt = 18\<rparr>"

text \<open>
  Three short files: one that ends in a run of step lines, one whose run of step lines
  is interrupted once and resumes until the end of the file, and one whose first marker
  line is a close marker.
\<close>

definition ex_trailing :: "string list" where
  "ex_trailing = [ex_h1, ex_h2, ex_h3, ex_h4, ex_s1, ex_s2]"

definition ex_interrupted :: "string list" where
  "ex_interrupted = [ex_h1, ex_h2, ex_h3, ex_h4, ex_s1, ex_s2, ex_x, ex_s4, ex_s5]"

definition ex_orphan :: "string list" where
  "ex_orphan = [ex_h1, ex_h2, ex_h3, ex_h4, ex_c1]"

section \<open>The parameter scan: proofs\<close>

lemma search_block_cell_count_keep:
  "search_block_cell_count l label = Inr x \<Longrightarrow> x = keep_first label None l"
  by (auto simp: search_block_cell_count_def keep_first_def split: if_splits option.splits)

lemma search_block_cell_count_Some:
  "search_block_cell_count l label = Inr x \<Longrightarrow> re_search label l \<Longrightarrow> x \<noteq> None"
  by (auto simp: search_block_cell_count_def split: if_splits option.splits)

lemma search_core_count_keep:
  "search_core_count st l = Inr st1 \<Longrightarrow>
     n_cores st = None \<Longrightarrow> n_cores st1 = keep_first ''Number of MPI tasks:'' None l
     \<and> nxb st1 = nxb st \<and> nyb st1 = nyb st \<and> nzb st1 = nzb st"
  unfolding search_core_count_def keep_first_def
  by (cases "re_search ''Number of MPI tasks:'' l"; cases "first_digits l")
     (auto split: if_splits)

lemma search_core_count_Some:
  "search_core_count st l = Inr st1 \<Longrightarrow> re_search ''Number of MPI tasks:'' l \<Longrightarrow> n_cores st1 \<noteq> None"
  unfolding search_core_count_def 
  by (cases "first_digits l") (auto split: if_splits)

lemma scan_line_n_cores:
  assumes "scan_line st l = Inr st1"
  shows "n_cores st1 = keep_first ''Number of MPI tasks:'' (n_cores st) l"
proof -
  obtain st0 where a: "(if n_cores st = None then search_core_count st l else Inr st) = Inr st0"
    and b: "n_cores st1 = n_cores st0"
    using assms unfolding scan_line_def by (auto split: sum.splits)
  show ?thesis
  proof (cases "n_cores st")
    case None
    then show ?thesis using a b search_core_count_keep[of st l st0] by simp
  next
    case (Some c)
    then show ?thesis using a b by (simp add: keep_first_def)
  qed
qed

lemma scan_line_cells:
  assumes "scan_line st l = Inr st1"
  shows "nxb st1 = keep_first ''Number x zones:'' (nxb st) l"
    and "nyb st1 = keep_first ''Number y zones:'' (nyb st) l"
    and "nzb st1 = keep_first ''Number z zones:'' (nzb st) l"
proof -
  obtain st0 x y z where a: "(if n_cores st = None then search_core_count st l else Inr st) = Inr st0"
    and x: "(if nxb st0 = None then search_block_cell_count l ''Number x zones:'' else Inr (nxb st0)) = Inr x"
    and y: "(if nyb st0 = None then search_block_cell_count l ''Number y zones:'' else Inr (nyb st0)) = Inr y"
    and z: "(if nzb st0 = None then search_block_cell_count l ''Number z zones:'' else Inr (nzb st0)) = Inr z"
    and r: "st1 = st0\<lparr>nxb := x, nyb := y, nzb := z\<rparr>"
    using assms unfolding scan_line_def by (auto split: sum.splits)
  have k: "nxb st0 = nxb st \<and> nyb st0 = nyb st \<and> nzb st0 = nzb st"
    using a search_core_count_keep[of st l st0] by (cases "n_cores st") auto
  show "nxb st1 = keep_first ''Number x zones:'' (nxb st) l"
    using x k r search_block_cell_count_keep[of l "''Number x zones:''" x]
    by (cases "nxb st") (auto simp: keep_first_def)
  show "nyb st1 = keep_first ''Number y zones:'' (nyb st) l"
    using y k r search_block_cell_count_keep[of l "''Number y zones:''" y]
    by (cases "nyb st") (auto simp: keep_first_def)
  show "nzb st1 = keep_first ''Number z zones:'' (nzb st) l"
    using z k r search_block_cell_count_keep[of l "''Number z zones:''" z]
    by (cases "nzb st") (auto simp: keep_first_def)
qed

lemma scan_line_found:
  assumes "scan_line st l = Inr st1"
  shows "re_search ''Number of MPI tasks:'' l \<Longrightarrow> n_cores st1 \<noteq> None"
    and "re_search ''Number x zones:'' l \<Longrightarrow> nxb st1 \<noteq> None"
    and "re_search ''Number y zones:'' l \<Longrightarrow> nyb st1 \<noteq> None"
    and "re_search ''Number z zones:'' l \<Longrightarrow> nzb st1 \<noteq> None"
proof -
  obtain st0 x y z where a: "(if n_cores st = None then search_core_count st l else Inr st) = Inr st0"
    and x: "(if nxb st0 = None then search_block_cell_count l ''Number x zones:'' else Inr (nxb st0)) = Inr x"
    and y: "(if nyb st0 = None then search_block_cell_count l ''Number y zones:'' else Inr (nyb st0)) = Inr y"
    and z: "(if nzb st0 = None then search_block_cell_count l ''Number z zones:'' else Inr (nzb st0)) = Inr z"
    and r: "st1 = st0\<lparr>nxb := x, nyb := y, nzb := z\<rparr>"
    using assms unfolding scan_line_def by (auto split: sum.splits)
  show "re_search ''Number of MPI tasks:'' l \<Longrightarrow> n_cores st1 \<noteq> None"
    using a r search_core_count_Some[of st l st0] by (cases "n_cores st") auto
  show "re_search ''Number x zones:'' l \<Longrightarrow> nxb st1 \<noteq> None"
    using x r search_block_cell_count_Some[of l "''Number x zones:''" x] by (cases "nxb st0") auto
  show "re_search ''Number y zones:'' l \<Longrightarrow> nyb st1 \<noteq> None"
    using y r search_block_cell_count_Some[of l "''Number y zones:''" y] by (cases "nyb st0") auto
  show "re_search ''Number z zones:'' l \<Longrightarrow> nzb st1 \<noteq> None"
    using z r search_block_cell_count_Some[of l "''Number z zones:''" z] by (cases "nzb st0") auto
qed

lemma first_extraction_step:
  assumes "new = keep_first label cur l" and "re_search label l \<Longrightarrow> new \<noteq> None"
  shows "(case new of Some c \<Rightarrow> Some c | None \<Rightarrow> first_extraction label ls)
       = (case cur of Some c \<Rightarrow> Some c | None \<Rightarrow> first_extraction label (l # ls))"
  using assms by (cases cur; cases "re_search label l") (auto simp: keep_first_def first_extraction_def)

lemma scan_lines_fields:
  assumes "scan_lines st ls = Inr st1"
  shows "n_cores st1 = (case n_cores st of Some c \<Rightarrow> Some c | None \<Rightarrow> first_extraction ''Number of MPI tasks:'' ls)"
    and "nxb st1 = (case nxb st of Some c \<Rightarrow> Some c | None \<Rightarrow> first_extraction ''Number x zones:'' ls)"
    and "nyb st1 = (case nyb st of Some c \<Rightarrow> Some c | None \<Rightarrow> first_extraction ''Number y zones:'' ls)"
    and "nzb st1 = (case nzb st of Some c \<Rightarrow> Some c | None \<Rightarrow> first_extraction ''Number z zones:'' ls)"
  using assms
proof (induction ls arbitrary: st)
  case Nil
  { case 1 then show ?case by (simp add: first_extraction_def split: option.splits) }
  { case 2 then show ?case by (simp add: first_extraction_def split: option.splits) }
  { case 3 then show ?case by (simp add: first_extraction_def split: option.splits) }
  { case 4 then show ?case by (simp add: first_extraction_def split: option.splits) }
next
  case (Cons l ls)
  { case 1
    then obtain st0 where s0: "scan_line st l = Inr st0" and r: "scan_lines st0 ls = Inr st1"
      by (auto split: sum.splits)
    show ?case
      using Cons.IH(1)[OF r] first_extraction_step[OF scan_line_n_cores[OF s0] scan_line_found(1)[OF s0]]
      by simp }
  { case 2
    then obtain st0 where s0: "scan_line st l = Inr st0" and r: "scan_lines st0 ls = Inr st1"
      by (auto split: sum.splits)
    show ?case
      using Cons.IH(2)[OF r] first_extraction_step[OF scan_line_cells(1)[OF s0] scan_line_found(2)[OF s0]]
      by simp }
  { case 3
    then obtain st0 where s0: "scan_line st l = Inr st0" and r: "scan_lines st0 ls = Inr st1"
      by (auto split: sum.splits)
    show ?case
      using Cons.IH(3)[OF r] first_extraction_step[OF scan_line_cells(2)[OF s0] scan_line_found(3)[OF s0]]
      by simp }
  { case 4
    then obtain st0 where s0: "scan_line st l = Inr st0" and r: "scan_lines st0 ls = Inr st1"
      by (auto split: sum.splits)
    show ?case
      using Cons.IH(4)[OF r] first_extraction_step[OF scan_line_cells(3)[OF s0] scan_line_found(4)[OF s0]]
      by simp }
qed

lemma first_extraction_absent:
  "\<forall>l \<in> set ls. \<not> re_search label l \<Longrightarrow> first_extraction label ls = None"
  by (induction ls) (auto simp: first_extraction_def)

lemma compute_sim_parameters_cases:
  assumes "compute_sim_parameters st ls = Inr st2"
  obtains st1 x y z c where "scan_lines st ls = Inr st1"
    and "nxb st1 = Some x" and "nyb st1 = Some y" and "nzb st1 = Some z" and "n_cores st1 = Some c"
    and "st2 = st1\<lparr>n_cells_per_block := Some (x * y * z), n_cells := Some (x * y * z * c)\<rparr>"
  using assms unfolding compute_sim_parameters_def
  by (auto split: sum.splits option.splits)

lemma compute_sim_parameters_missing:
  assumes "scan_lines st ls = Inr st1"
    and "n_cores st1 = None \<or> nxb st1 = None \<or> nyb st1 = None \<or> nzb st1 = None"
  shows "compute_sim_parameters st ls = Inl TypeError"
  using assms unfolding compute_sim_parameters_def
  by (auto split: option.splits)

lemma scan_fails_compute_fails:
  "scan_lines st ls = Inl e \<Longrightarrow> compute_sim_parameters st ls = Inl e"
  by (simp add: compute_sim_parameters_def)

lemma init_fields [simp]:
  "n_cores (FLASHLogStats_init dbg) = None" "nxb (FLASHLogStats_init dbg) = None"
  "nyb (FLASHLogStats_init dbg) = None" "nzb (FLASHLogStats_init dbg) = None"
  by (simp_all add: FLASHLogStats_init_def)

text \<open>
  Claim C6. When one of the four labels (the MPI task count, the x, y or z zone count) is
  on no line of the file, \<^verbatim>\<open>compute_sim_parameters\<close> on a new \<^verbatim>\<open>FLASHLogStats\<close> raises an
  exception, and \<^verbatim>\<open>main\<close> ends with that exception of the scan: the region pass does not
  run, whatever the switches \<open>A\<close> and the float parser \<open>pf\<close> it would read.
\<close>

theorem C6_missing_parameter_aborts:
  assumes "(\<forall>l \<in> set lines. \<not> re_search ''Number of MPI tasks:'' l)
         \<or> (\<forall>l \<in> set lines. \<not> re_search ''Number x zones:'' l)
         \<or> (\<forall>l \<in> set lines. \<not> re_search ''Number y zones:'' l)
         \<or> (\<forall>l \<in> set lines. \<not> re_search ''Number z zones:'' l)"
  shows "\<exists>e. compute_sim_parameters (FLASHLogStats_init dbg) lines = Inl e
           \<and> main_file A pf dbg lines = Inl e"
proof (cases "scan_lines (FLASHLogStats_init dbg) lines")
  case (Inl e)
  then show ?thesis by (simp add: main_file_def scan_fails_compute_fails)
next
  case (Inr st1)
  have "n_cores st1 = None \<or> nxb st1 = None \<or> nyb st1 = None \<or> nzb st1 = None"
    using assms scan_lines_fields[OF Inr] first_extraction_absent by auto
  from compute_sim_parameters_missing[OF Inr this]
  show ?thesis by (simp add: main_file_def)
qed

text \<open>
  Claim C7. After a successful parameter scan each of the core count and the three cell
  counts is the first integer of the first line of the file that contains its label;
  later lines with the label change nothing. Cells per block is the product of the three
  cell counts and the total is that product times the core count. The witness is the
  scenario of the four lines with 96 tasks and 16 zones per axis.
\<close>

theorem C7_first_extraction_retained:
  assumes "compute_sim_parameters (FLASHLogStats_init dbg) lines = Inr st"
  shows "\<exists>c x y z.
           first_extraction ''Number of MPI tasks:'' lines = Some c \<and> n_cores st = Some c
         \<and> first_extraction ''Number x zones:'' lines = Some x \<and> nxb st = Some x
         \<and> first_extraction ''Number y zones:'' lines = Some y \<and> nyb st = Some y
         \<and> first_extraction ''Number z zones:'' lines = Some z \<and> nzb st = Some z
         \<and> n_cells_per_block st = Some (x * y * z)
         \<and> n_cells st = Some (x * y * z * c)"
proof -
  from assms obtain st1 x y z c where s: "scan_lines (FLASHLogStats_init dbg) lines = Inr st1"
    and f: "nxb st1 = Some x" "nyb st1 = Some y" "nzb st1 = Some z" "n_cores st1 = Some c"
    and r: "st = st1\<lparr>n_cells_per_block := Some (x * y * z), n_cells := Some (x * y * z * c)\<rparr>"
    by (rule compute_sim_parameters_cases)
  have "first_extraction ''Number of MPI tasks:'' lines = Some c"
    and "first_extraction ''Number x zones:'' lines = Some x"
    and "first_extraction ''Number y zones:'' lines = Some y"
    and "first_extraction ''Number z zones:'' lines = Some z"
    using scan_lines_fields[OF s] f by simp_all
  then show ?thesis using f r by simp
qed

lemma example_header_scan:
  "\<exists>st. compute_sim_parameters (FLASHLogStats_init dbg) example_header = Inr st"
  by (simp add: example_header_def compute_sim_parameters_def scan_line_def search_core_count_def
      search_block_cell_count_def FLASHLogStats_init_def first_digits_def is_digit_def py_int_def digit_val_def)

theorem C7_witness:
  "\<exists>st. compute_sim_parameters (FLASHLogStats_init False) example_header = Inr st
      \<and> n_cores st = Some 96 \<and> n_cells_per_block st = Some 4096 \<and> n_cells st = Some 393216"
proof -
  obtain st where s: "compute_sim_parameters (FLASHLogStats_init False) example_header = Inr st"
    using example_header_scan by blast
  have e: "first_extraction ''Number of MPI tasks:'' example_header = Some 96"
    "first_extraction ''Number x zones:'' example_header = Some 16"
    "first_extraction ''Number y zones:'' example_header = Some 16"
    "first_extraction ''Number z zones:'' example_header = Some 16"
    by (simp_all add: example_header_def first_extraction_def first_digits_def is_digit_def py_int_def digit_val_def)
  show ?thesis using C7_first_extraction_retained[OF s] s e by auto
qed

theorem C6_witness:
  "compute_sim_parameters (FLASHLogStats_init False)
        [''Number x zones: 16'', ''Number y zones: 16'', ''Number z zones: 16''] = Inl TypeError
   \<and> main_file \<lparr>file_writes = True, blocks_arg = True\<rparr> float_sci False
        [''Number x zones: 16'', ''Number y zones: 16'', ''Number z zones: 16''] = Inl TypeError"
proof -
  have h: "\<forall>l \<in> set [''Number x zones: 16'', ''Number y zones: 16'', ''Number z zones: 16''].
       \<not> re_search ''Number of MPI tasks:'' l" by simp
  have c: "compute_sim_parameters (FLASHLogStats_init False)
        [''Number x zones: 16'', ''Number y zones: 16'', ''Number z zones: 16''] = Inl TypeError"
    by (simp add: compute_sim_parameters_def scan_line_def search_core_count_def
      search_block_cell_count_def FLASHLogStats_init_def first_digits_def is_digit_def py_int_def digit_val_def)
  from C6_missing_parameter_aborts[of "[''Number x zones: 16'', ''Number y zones: 16'', ''Number z zones: 16'']"
      False "\<lparr>file_writes = True, blocks_arg = True\<rparr>" float_sci] h c
  show ?thesis by auto
qed

section \<open>The steps of the region pass, case by case\<close>

lemma heap_get_Some: "heap_get h a = Some x \<longleftrightarrow> a < length h \<and> x = h ! a"
  by (auto simp: heap_get_def)

lemma heap_get_None: "heap_get h a = None \<longleftrightarrow> \<not> a < length h"
  by (auto simp: heap_get_def)

lemma read_loop_append:
  "read_loop A pf st (xs @ ys) =
     (case read_loop A pf st xs of Inl e \<Rightarrow> Inl e | Inr st1 \<Rightarrow> read_loop A pf st1 ys)"
  by (induction xs arbitrary: st) (auto split: sum.splits)

lemma read_loop_snoc:
  "read_loop A pf st (xs @ [l]) = Inr st' \<longleftrightarrow>
     (\<exists>st1. read_loop A pf st xs = Inr st1 \<and> loop_body A pf st1 l = Inr st')"
  by (auto simp: read_loop_append split: sum.splits)

lemma read_loop_invariant:
  assumes run: "read_loop A pf st0 ls = Inr st"
    and init: "I [] st0"
    and step: "\<And>pre s l s'. I pre s \<Longrightarrow> loop_body A pf s l = Inr s' \<Longrightarrow> I (pre @ [l]) s'"
  shows "I ls st"
  using run
proof (induction ls arbitrary: st rule: rev_induct)
  case Nil
  then show ?case using init by simp
next
  case (snoc l ls)
  then obtain s1 where a: "read_loop A pf st0 ls = Inr s1" and b: "loop_body A pf s1 l = Inr st"
    by (auto simp: read_loop_snoc)
  show ?case using step[OF snoc.IH[OF a] b] .
qed

lemma search_file_write_stats_cases:
  assumes "search_file_write_stats dbg line f = Inr f'"
  obtains (opened) t where "line_wall_time line = Inr t" and "re_search ''open:'' line"
      and "f' = (open_file (if open_io f then empty_io f else f))
                  \<lparr>start_date_io := PyDatetime t, wall_time_io := PyDatetime t\<rparr>"
    | (closed) t t0 where "line_wall_time line = Inr t" and "\<not> re_search ''open:'' line"
      and "re_search ''close:'' line" and "wall_time_io f = PyDatetime t0" and "\<not> dbg"
      and "f' = (close_file f)\<lparr>wall_time_io := PyFloat (total_seconds (t - t0)),
                  core_hours_io := PyFloat (total_seconds (t - t0) / seconds_per_hour)\<rparr>"
    | (neither) t where "line_wall_time line = Inr t" and "\<not> re_search ''open:'' line"
      and "\<not> re_search ''close:'' line" and "f' = f"
proof (cases "line_wall_time line")
  case (Inl e)
  then show ?thesis using assms by (simp add: search_file_write_stats_def)
next
  case (Inr t)
  show ?thesis
  proof (cases "re_search ''open:'' line")
    case True
    then show ?thesis using assms Inr opened[of t]
      by (simp add: search_file_write_stats_def Let_def)
  next
    case no: False
    show ?thesis
    proof (cases "re_search ''close:'' line")
      case True
      have wt: "wall_time_io (close_file f) = wall_time_io f"
        by (simp add: close_file_def Let_def)
      show ?thesis using assms Inr no True closed[of t] wt
        by (cases "wall_time_io f") (auto simp: search_file_write_stats_def Let_def split: if_splits)
    next
      case False
      then show ?thesis using assms Inr no neither[of t]
        by (simp add: search_file_write_stats_def)
    qed
  qed
qed

lemma track_file_write_cases:
  assumes "track_file_write st line = Inr st'"
  obtains (skip) "\<not> is_marker line" and "st' = st"
    | (new) f where "is_marker line" and "\<not> write_flag st"
      and "search_file_write_stats (debug st) line (FLASHLogFileIO_init (IO_id_counter st)) = Inr f"
      and "st' = st\<lparr>write_flag := True, fileIO := Some (length (heap_io st)),
                     heap_io := heap_io st @ [f]\<rparr>"
    | (update) a f where "is_marker line" and "write_flag st" and "fileIO st = Some a"
      and "a < length (heap_io st)"
      and "search_file_write_stats (debug st) line (heap_io st ! a) = Inr f"
      and "\<not> close_io f" and "st' = st\<lparr>heap_io := (heap_io st)[a := f]\<rparr>"
    | (store) a f w n where "is_marker line" and "write_flag st" and "fileIO st = Some a"
      and "a < length (heap_io st)"
      and "search_file_write_stats (debug st) line (heap_io st ! a) = Inr f"
      and "close_io f" and "py_number (wall_time_io f) = Some w"
      and "n_cells_per_block st = Some n"
      and "n \<noteq> 0"
      and "st' = st\<lparr>heap_io := (heap_io st)
                       [a := f\<lparr>file_type := (if re_search ''IO_writeCheckpoint'' line then ''chk'' else ''plt''),
                               wall_time_norm := PyFloat (w / real_of_int n)\<rparr>],
                     write_flag := False,
                     fileIOs := dict_set (IO_id_counter st) a (fileIOs st),
                     IO_id_counter := IO_id_counter st + 1\<rparr>"
proof (cases "is_marker line")
  case False
  then show ?thesis using assms skip
    by (simp add: track_file_write_def is_marker_def)
next
  case m: True
  show ?thesis
  proof (cases "write_flag st")
    case False
    then show ?thesis using assms m new
      by (auto simp: track_file_write_def is_marker_def split: sum.splits)
  next
    case w: True
    from assms m w obtain a where a: "fileIO st = Some a"
      by (cases "fileIO st") (auto simp: track_file_write_def is_marker_def)
    from assms m w a have al: "a < length (heap_io st)"
      by (cases "heap_get (heap_io st) a") (auto simp: track_file_write_def is_marker_def heap_get_def split: if_splits)
    then have hg: "heap_get (heap_io st) a = Some (heap_io st ! a)" by (simp add: heap_get_def)
    from assms m w a hg obtain f where f: "search_file_write_stats (debug st) line (heap_io st ! a) = Inr f"
      by (cases "search_file_write_stats (debug st) line (heap_io st ! a)")
         (auto simp: track_file_write_def is_marker_def)
    show ?thesis
    proof (cases "close_io f")
      case False
      then show ?thesis using assms m w a hg f al update[of a f]
        by (auto simp: track_file_write_def is_marker_def)
    next
      case True
      then show ?thesis using assms m w a hg f al store[of a f]
        by (cases "py_number (wall_time_io f)"; cases "n_cells_per_block st")
           (auto simp: track_file_write_def is_marker_def split: if_splits)
    qed
  qed
qed

lemma process_block_statistics_cases:
  assumes "process_block_statistics st b wtl c dtl k = Inr st'"
  obtains sd nc ncb where "b < length (heap_block st)" and "wtl < length (heap_wall_time st)"
    and "heap_wall_time st ! wtl \<noteq> []"
    and "start_date (heap_block st ! b) = PyDatetime sd"
    and "n_cores st = Some nc" and "n_cells_per_block st = Some ncb"
    and "timedelta_ok ((last (heap_wall_time st ! wtl) - sd) * nc)"
    and "st' = st\<lparr>heap_block := (heap_block st)
                    [b := finalized_block (heap_block st ! b) (heap_wall_time st ! wtl) wtl dtl c sd nc ncb],
                  blocks := dict_set k b (blocks st)\<rparr>"
proof -
  from assms have bl: "b < length (heap_block st)"
    by (cases "heap_get (heap_block st) b") (auto simp: process_block_statistics_def heap_get_def split: if_splits)
  then have hb: "heap_get (heap_block st) b = Some (heap_block st ! b)" by (simp add: heap_get_def)
  from assms hb have wl: "wtl < length (heap_wall_time st)"
    by (cases "heap_get (heap_wall_time st) wtl") (auto simp: process_block_statistics_def heap_get_def split: if_splits)
  then have hw: "heap_get (heap_wall_time st) wtl = Some (heap_wall_time st ! wtl)" by (simp add: heap_get_def)
  from assms hb hw have ne: "heap_wall_time st ! wtl \<noteq> []"
    by (auto simp: process_block_statistics_def split: if_splits)
  from assms hb hw ne obtain sd where sd: "start_date (heap_block st ! b) = PyDatetime sd"
    by (cases "start_date (heap_block st ! b)") (auto simp: process_block_statistics_def Let_def)
  from assms hb hw ne sd obtain nc where nc: "n_cores st = Some nc"
    by (cases "n_cores st") (auto simp: process_block_statistics_def Let_def)
  from assms hb hw ne sd nc have ok: "timedelta_ok ((last (heap_wall_time st ! wtl) - sd) * nc)"
    by (auto simp: process_block_statistics_def Let_def split: if_splits)
  from assms hb hw ne sd nc ok obtain ncb where ncb: "n_cells_per_block st = Some ncb"
    by (cases "n_cells_per_block st") (auto simp: process_block_statistics_def Let_def)
  from assms hb hw ne sd nc ok ncb
  have "st' = st\<lparr>heap_block := (heap_block st)
                    [b := finalized_block (heap_block st ! b) (heap_wall_time st ! wtl) wtl dtl c sd nc ncb],
                  blocks := dict_set k b (blocks st)\<rparr>"
    by (simp add: process_block_statistics_def Let_def finalized_block_def)
  then show ?thesis using that bl wl ne sd nc ncb ok by blast
qed

text \<open>\<^verbatim>\<open>track_block\<close> in each of its four situations.\<close>

lemma track_block_no_step_idle:
  "search_walltime pf line = Inr None \<Longrightarrow> \<not> chunk st \<Longrightarrow> track_block pf st line = Inr st"
  by (simp add: track_block_def)

lemma track_block_no_step_chunk:
  "search_walltime pf line = Inr None \<Longrightarrow> chunk st \<Longrightarrow> track_block pf st line =
     (case block st of None \<Rightarrow> Inl UnboundLocalError
             | Some b \<Rightarrow>
               (case process_block_statistics st b (wall_time_list st) (cnt st) (dt_list st)
                       (block_id_counter st) of
                  Inl e \<Rightarrow> Inl e
                | Inr st1 \<Rightarrow>
                  Inr (st1\<lparr>block_id_counter := block_id_counter st1 + 1,
                           wall_time_list := length (heap_wall_time st1),
                           heap_wall_time := heap_wall_time st1 @ [[]],
                           dt_list := length (heap_dt st1),
                           heap_dt := heap_dt st1 @ [[]],
                           chunk := False\<rparr>)))"
  by (simp add: track_block_def)

lemma track_block_step_chunk:
  "search_walltime pf line = Inr (Some (wt, d)) \<Longrightarrow> chunk st \<Longrightarrow> track_block pf st line =
          (case heap_get (heap_wall_time st) (wall_time_list st) of
                None \<Rightarrow> Inl UnboundLocalError
              | Some wl \<Rightarrow>
                (case heap_get (heap_dt st) (dt_list st) of None \<Rightarrow> Inl UnboundLocalError
                 | Some dl \<Rightarrow>
                   Inr (st\<lparr>heap_wall_time := (heap_wall_time st)[wall_time_list st := wl @ [wt]],
                            heap_dt := (heap_dt st)[dt_list st := dl @ [d]]\<rparr>)))"
  by (simp add: track_block_def)

lemma track_block_step_new:
  "search_walltime pf line = Inr (Some (wt, d)) \<Longrightarrow> \<not> chunk st \<Longrightarrow> track_block pf st line =
          (case heap_get (heap_wall_time st) (wall_time_list st) of
                None \<Rightarrow> Inl UnboundLocalError
              | Some wl \<Rightarrow>
                (case heap_get (heap_dt st) (dt_list st) of None \<Rightarrow> Inl UnboundLocalError
                 | Some dl \<Rightarrow>
                   Inr (st\<lparr>heap_block := heap_block st @ [new_block (block_id_counter st) wt (cnt st)],
                     block := Some (length (heap_block st)), chunk := True,
                     heap_wall_time := (heap_wall_time st)[wall_time_list st := wl @ [wt]],
                            heap_dt := (heap_dt st)[dt_list st := dl @ [d]]\<rparr>)))"
  by (simp add: track_block_def new_block_def Let_def split: option.splits)

lemma track_block_cases:
  assumes "track_block pf st line = Inr st'"
  obtains (idle) "search_walltime pf line = Inr None" and "\<not> chunk st" and "st' = st"
    | (first) wt d where "search_walltime pf line = Inr (Some (wt, d))" and "\<not> chunk st"
      and "wall_time_list st < length (heap_wall_time st)" and "dt_list st < length (heap_dt st)"
      and "st' = st\<lparr>heap_block := heap_block st @ [new_block (block_id_counter st) wt (cnt st)],
                     block := Some (length (heap_block st)), chunk := True,
                     heap_wall_time := (heap_wall_time st)
                       [wall_time_list st := heap_wall_time st ! wall_time_list st @ [wt]],
                     heap_dt := (heap_dt st)[dt_list st := heap_dt st ! dt_list st @ [d]]\<rparr>"
    | (more) wt d where "search_walltime pf line = Inr (Some (wt, d))" and "chunk st"
      and "wall_time_list st < length (heap_wall_time st)" and "dt_list st < length (heap_dt st)"
      and "st' = st\<lparr>heap_wall_time := (heap_wall_time st)
                       [wall_time_list st := heap_wall_time st ! wall_time_list st @ [wt]],
                     heap_dt := (heap_dt st)[dt_list st := heap_dt st ! dt_list st @ [d]]\<rparr>"
    | (finish) b st1 where "search_walltime pf line = Inr None" and "chunk st"
      and "block st = Some b"
      and "process_block_statistics st b (wall_time_list st) (cnt st) (dt_list st)
             (block_id_counter st) = Inr st1"
      and "st' = st1\<lparr>block_id_counter := block_id_counter st1 + 1,
                      wall_time_list := length (heap_wall_time st1),
                      heap_wall_time := heap_wall_time st1 @ [[]],
                      dt_list := length (heap_dt st1),
                      heap_dt := heap_dt st1 @ [[]],
                      chunk := False\<rparr>"
proof (cases "search_walltime pf line")
  case (Inl e)
  then show ?thesis using assms by (simp add: track_block_def)
next
  case (Inr r)
  show ?thesis
  proof (cases r)
    case None
    note sw = Inr[unfolded None]
    show ?thesis
    proof (cases "chunk st")
      case False
      have "st' = st" using assms track_block_no_step_idle[OF sw False] by simp
      then show ?thesis by (rule idle[OF sw False])
    next
      case True
      note t = track_block_no_step_chunk[OF sw True]
      from assms obtain b where b: "block st = Some b"
        unfolding t by (cases "block st") simp_all
      from assms b obtain st1 where p: "process_block_statistics st b (wall_time_list st) (cnt st)
          (dt_list st) (block_id_counter st) = Inr st1"
        unfolding t by (cases "process_block_statistics st b (wall_time_list st) (cnt st)
          (dt_list st) (block_id_counter st)") simp_all
      from assms b p have e: "st' = st1\<lparr>block_id_counter := block_id_counter st1 + 1,
                      wall_time_list := length (heap_wall_time st1),
                      heap_wall_time := heap_wall_time st1 @ [[]],
                      dt_list := length (heap_dt st1),
                      heap_dt := heap_dt st1 @ [[]],
                      chunk := False\<rparr>"
        unfolding t by simp
      show ?thesis by (rule finish[OF sw True b p e])
    qed
  next
    case (Some p)
    obtain wt d where p: "p = (wt, d)" by (cases p)
    note sw = Inr[unfolded Some p]
    show ?thesis
    proof (cases "chunk st")
      case False
      note t = track_block_step_new[OF sw False]
      from assms have a: "wall_time_list st < length (heap_wall_time st)"
        unfolding t by (cases "wall_time_list st < length (heap_wall_time st)") (simp_all add: heap_get_def)
      from assms a have b: "dt_list st < length (heap_dt st)"
        unfolding t by (cases "dt_list st < length (heap_dt st)") (simp_all add: heap_get_def)
      from assms a b have e: "st' = st\<lparr>heap_block := heap_block st @ [new_block (block_id_counter st) wt (cnt st)],
                     block := Some (length (heap_block st)), chunk := True,
                     heap_wall_time := (heap_wall_time st)
                       [wall_time_list st := heap_wall_time st ! wall_time_list st @ [wt]],
                     heap_dt := (heap_dt st)[dt_list st := heap_dt st ! dt_list st @ [d]]\<rparr>"
        unfolding t by (simp add: heap_get_def)
      show ?thesis by (rule first[OF sw False a b e])
    next
      case True
      note t = track_block_step_chunk[OF sw True]
      from assms have a: "wall_time_list st < length (heap_wall_time st)"
        unfolding t by (cases "wall_time_list st < length (heap_wall_time st)") (simp_all add: heap_get_def)
      from assms a have b: "dt_list st < length (heap_dt st)"
        unfolding t by (cases "dt_list st < length (heap_dt st)") (simp_all add: heap_get_def)
      from assms a b have e: "st' = st\<lparr>heap_wall_time := (heap_wall_time st)
                       [wall_time_list st := heap_wall_time st ! wall_time_list st @ [wt]],
                     heap_dt := (heap_dt st)[dt_list st := heap_dt st ! dt_list st @ [d]]\<rparr>"
        unfolding t by (simp add: heap_get_def)
      show ?thesis by (rule more[OF sw True a b e])
    qed
  qed
qed

lemma loop_body_cases:
  assumes "loop_body A pf st line = Inr st'"
  obtains st1 st2 where "(if file_writes A then track_file_write st line else Inr st) = Inr st1"
    and "(if blocks_arg A then track_block pf st1 line else Inr st1) = Inr st2"
    and "st' = st2\<lparr>cnt := cnt st2 + 1\<rparr>"
  using assms unfolding loop_body_def by (auto split: sum.splits)

section \<open>Stored records are not written again\<close>

lemma dict_set_fresh: "k \<notin> fst ` set d \<Longrightarrow> dict_set k v d = d @ [(k, v)]"
  by (induction d) auto

lemma stored_neq: "(k, b) \<in> set d \<Longrightarrow> a \<notin> snd ` set d \<Longrightarrow> b \<noteq> a"
  by force

lemma io_unchanged_refl: "io_unchanged st st"
  by (auto simp: io_unchanged_def)

lemma blk_unchanged_refl: "blk_unchanged st st"
  by (auto simp: blk_unchanged_def)

lemma io_unchanged_trans:
  "io_unchanged s1 s2 \<Longrightarrow> io_unchanged s2 s3 \<Longrightarrow> io_unchanged s1 s3"
  unfolding io_unchanged_def by fastforce

lemma blk_unchanged_trans:
  assumes "blk_unchanged s1 s2" and "blk_unchanged s2 s3"
  shows "blk_unchanged s1 s3"
  unfolding blk_unchanged_def
proof (intro ballI, clarify)
  fix k b assume kb: "(k, b) \<in> set (blocks s1)"
  from assms(1) kb have a: "(k, b) \<in> set (blocks s2)" "heap_block s2 ! b = heap_block s1 ! b"
    "\<And>wa. wall_time (heap_block s1 ! b) = WallTimeListRef wa \<Longrightarrow>
          heap_wall_time s2 ! wa = heap_wall_time s1 ! wa"
    "\<And>da. dt (heap_block s1 ! b) = DtListRef da \<Longrightarrow> heap_dt s2 ! da = heap_dt s1 ! da"
    unfolding blk_unchanged_def by auto
  from assms(2) a(1) have c: "(k, b) \<in> set (blocks s3)" "heap_block s3 ! b = heap_block s2 ! b"
    "\<And>wa. wall_time (heap_block s2 ! b) = WallTimeListRef wa \<Longrightarrow>
          heap_wall_time s3 ! wa = heap_wall_time s2 ! wa"
    "\<And>da. dt (heap_block s2 ! b) = DtListRef da \<Longrightarrow> heap_dt s3 ! da = heap_dt s2 ! da"
    unfolding blk_unchanged_def by auto
  show "(k, b) \<in> set (blocks s3) \<and> heap_block s3 ! b = heap_block s1 ! b \<and>
       (\<forall>wa. wall_time (heap_block s1 ! b) = WallTimeListRef wa \<longrightarrow>
             heap_wall_time s3 ! wa = heap_wall_time s1 ! wa) \<and>
       (\<forall>da. dt (heap_block s1 ! b) = DtListRef da \<longrightarrow> heap_dt s3 ! da = heap_dt s1 ! da)"
    using a c by auto
qed

text \<open>The file-write tracker: references stay valid, stored events stay as they are.\<close>

lemma track_file_write_refs:
  assumes t: "track_file_write st line = Inr st'" and r: "io_refs st"
  shows "io_refs st' \<and> io_unchanged st st'"
  using t
proof (cases rule: track_file_write_cases)
  case skip
  then show ?thesis using r by (simp add: io_unchanged_refl)
next
  case (new f)
  have "io_refs st'" using r new(2) unfolding io_refs_def new(4)
    by (auto simp: nth_append dest: less_SucI)
  moreover have "io_unchanged st st'" using r unfolding io_refs_def io_unchanged_def new(4)
    by (auto simp: nth_append)
  ultimately show ?thesis by simp
next
  case (update a f)
  from r update(2,3) have na: "a \<notin> snd ` set (fileIOs st)" unfolding io_refs_def by auto
  have "io_refs st'" using r update(2,3,4) unfolding io_refs_def update(7) by auto
  moreover have "io_unchanged st st'" using na unfolding io_unchanged_def update(7)
    by (auto dest: stored_neq)
  ultimately show ?thesis by simp
next
  case (store a f w n)
  from r store(2,3) have na: "a \<notin> snd ` set (fileIOs st)" unfolding io_refs_def by auto
  from r have fresh: "IO_id_counter st \<notin> fst ` set (fileIOs st)" unfolding io_refs_def by force
  note ds = dict_set_fresh[OF fresh]
  have "io_refs st'" using r store(4) fresh unfolding io_refs_def store(10) ds
    by (auto simp: image_iff)
  moreover have "io_unchanged st st'" using na unfolding io_unchanged_def store(10) ds
    by (auto dest: stored_neq)
  ultimately show ?thesis by simp
qed

lemma finalized_block_refs [simp]:
  "wall_time (finalized_block blk wl wtl dtl c sd nc ncb) = WallTimeListRef wtl"
  "dt (finalized_block blk wl wtl dtl c sd nc ncb) = DtListRef dtl"
  by (simp_all add: finalized_block_def)

text \<open>The block tracker: references stay valid, stored blocks and their lists stay as they are.\<close>

lemma track_block_refs:
  assumes t: "track_block pf st line = Inr st'" and r: "blk_refs st"
  shows "blk_refs st' \<and> blk_unchanged st st'"
  using t
proof (cases rule: track_block_cases)
  case idle
  then show ?thesis using r by (simp add: blk_unchanged_refl)
next
  case (first wt d)
  have "blk_refs st'" using r first(2) unfolding blk_refs_def first(5)
    by (auto simp: nth_append dest: less_SucI)
  moreover have "blk_unchanged st st'" using r unfolding blk_refs_def blk_unchanged_def first(5)
    by (auto simp: nth_append)
  ultimately show ?thesis by simp
next
  case (more wt d)
  have "blk_refs st'" using r more(2) unfolding blk_refs_def more(5) by auto
  moreover have "blk_unchanged st st'" using r unfolding blk_refs_def blk_unchanged_def more(5)
    by auto
  ultimately show ?thesis by simp
next
  case (finish b st1)
  from finish(4) obtain sd nc ncb where bl: "b < length (heap_block st)"
    and wl: "wall_time_list st < length (heap_wall_time st)"
    and s1: "st1 = st\<lparr>heap_block := (heap_block st)
                    [b := finalized_block (heap_block st ! b) (heap_wall_time st ! wall_time_list st)
                            (wall_time_list st) (dt_list st) (cnt st) sd nc ncb],
                  blocks := dict_set (block_id_counter st) b (blocks st)\<rparr>"
    by (rule process_block_statistics_cases)
  from r finish(2,3) have nb: "b \<notin> snd ` set (blocks st)" unfolding blk_refs_def by auto
  from r have fresh: "block_id_counter st \<notin> fst ` set (blocks st)" unfolding blk_refs_def by force
  note ds = dict_set_fresh[OF fresh]
  from r have dl: "dt_list st < length (heap_dt st)" unfolding blk_refs_def by simp
  define F where "F = finalized_block (heap_block st ! b) (heap_wall_time st ! wall_time_list st)
                            (wall_time_list st) (dt_list st) (cnt st) sd nc ncb"
  have sel: "heap_block st' = (heap_block st)[b := F]"
    "blocks st' = blocks st @ [(block_id_counter st, b)]"
    "block_id_counter st' = block_id_counter st + 1"
    "wall_time_list st' = length (heap_wall_time st)"
    "heap_wall_time st' = heap_wall_time st @ [[]]"
    "dt_list st' = length (heap_dt st)"
    "heap_dt st' = heap_dt st @ [[]]"
    "chunk st' = False"
    unfolding finish(5) s1 ds F_def by simp_all
  have Fr: "wall_time F = WallTimeListRef (wall_time_list st)" "dt F = DtListRef (dt_list st)"
    unfolding F_def by simp_all
  have old: "heap_block st' ! b' = heap_block st ! b'
      \<and> b' < length (heap_block st) \<and> k < block_id_counter st
      \<and> (\<exists>wa da. wall_time (heap_block st ! b') = WallTimeListRef wa \<and> wa < wall_time_list st
                \<and> dt (heap_block st ! b') = DtListRef da \<and> da < dt_list st)"
    if "(k, b') \<in> set (blocks st)" for k b'
  proof -
    from that nb have "b' \<noteq> b" by (auto dest: stored_neq)
    then have "heap_block st' ! b' = heap_block st ! b'" unfolding sel by simp
    then show ?thesis using r that unfolding blk_refs_def by auto
  qed
  have "blk_refs st'"
    unfolding blk_refs_def
  proof (intro conjI ballI)
    show "distinct (map fst (blocks st'))" using r fresh unfolding sel blk_refs_def by simp
    show "wall_time_list st' < length (heap_wall_time st')" unfolding sel by simp
    show "dt_list st' < length (heap_dt st')" unfolding sel by simp
    show "chunk st' \<longrightarrow> (\<exists>b. block st' = Some b \<and> b < length (heap_block st') \<and> b \<notin> snd ` set (blocks st'))"
      unfolding sel by simp
    fix x assume x: "x \<in> set (blocks st')"
    obtain k b' where kb: "x = (k, b')" by (cases x)
    from x kb have "(k, b') \<in> set (blocks st) \<or> (k = block_id_counter st \<and> b' = b)"
      unfolding sel by auto
    then show "case x of (k, b) \<Rightarrow> b < length (heap_block st') \<and> k < block_id_counter st' \<and>
        (\<exists>wa da. wall_time (heap_block st' ! b) = WallTimeListRef wa \<and> wa < wall_time_list st'
                \<and> dt (heap_block st' ! b) = DtListRef da \<and> da < dt_list st')"
    proof
      assume m: "(k, b') \<in> set (blocks st)"
      from old[OF m] wl dl show ?thesis unfolding kb sel(1)[symmetric] unfolding sel(3,4,6)
        by (auto simp: sel(1))
    next
      assume e: "k = block_id_counter st \<and> b' = b"
      then show ?thesis using bl wl dl Fr unfolding kb sel by simp
    qed
  qed
  moreover have "blk_unchanged st st'"
    unfolding blk_unchanged_def
  proof (intro ballI)
    fix x assume x: "x \<in> set (blocks st)"
    obtain k b' where kb: "x = (k, b')" by (cases x)
    from old[of k b'] x kb wl dl
    show "case x of (k, b) \<Rightarrow> (k, b) \<in> set (blocks st') \<and> heap_block st' ! b = heap_block st ! b \<and>
        (\<forall>wa. wall_time (heap_block st ! b) = WallTimeListRef wa \<longrightarrow>
                heap_wall_time st' ! wa = heap_wall_time st ! wa) \<and>
        (\<forall>da. dt (heap_block st ! b) = DtListRef da \<longrightarrow> heap_dt st' ! da = heap_dt st ! da)"
      unfolding kb sel(2,5,7) by (auto simp: nth_append)
  qed
  ultimately show ?thesis by simp
qed

lemma track_file_write_fields:
  assumes "track_file_write st line = Inr st'"
  shows "same_blk_fields st st'" and "same_params st st'" and "cnt st' = cnt st"
  using assms
  by (cases rule: track_file_write_cases; simp add: same_blk_fields_def same_params_def)+

lemma process_block_statistics_fields:
  assumes "process_block_statistics st b wtl c dtl k = Inr st'"
  shows "same_io_fields st st'" and "same_params st st'" and "cnt st' = cnt st"
  using assms
  by (cases rule: process_block_statistics_cases; simp add: same_io_fields_def same_params_def)+

lemma track_block_fields:
  assumes "track_block pf st line = Inr st'"
  shows "same_io_fields st st'" and "same_params st st'" and "cnt st' = cnt st"
proof -
  have "same_io_fields st st' \<and> same_params st st' \<and> cnt st' = cnt st"
    using assms
  proof (cases rule: track_block_cases)
    case (finish b st1)
    from process_block_statistics_fields[OF finish(4)] show ?thesis
      unfolding finish(5) by (simp add: same_io_fields_def same_params_def)
  qed (simp_all add: same_io_fields_def same_params_def)
  then show "same_io_fields st st'" and "same_params st st'" and "cnt st' = cnt st" by simp_all
qed

lemma same_blk_fields_refs:
  "same_blk_fields st st' \<Longrightarrow> blk_refs st' = blk_refs st"
  "same_blk_fields st st' \<Longrightarrow> blk_unchanged st st'"
  by (simp_all add: same_blk_fields_def blk_refs_def blk_unchanged_def)

lemma same_io_fields_refs:
  "same_io_fields st st' \<Longrightarrow> io_refs st' = io_refs st"
  "same_io_fields st st' \<Longrightarrow> io_unchanged st st'"
  by (simp_all add: same_io_fields_def io_refs_def io_unchanged_def)

lemma cnt_update_refs [simp]:
  "io_refs (st\<lparr>cnt := c\<rparr>) = io_refs st" "blk_refs (st\<lparr>cnt := c\<rparr>) = blk_refs st"
  "io_unchanged s (st\<lparr>cnt := c\<rparr>) = io_unchanged s st"
  "blk_unchanged s (st\<lparr>cnt := c\<rparr>) = blk_unchanged s st"
  by (simp_all add: io_refs_def blk_refs_def io_unchanged_def blk_unchanged_def)

lemma loop_body_refs:
  assumes l: "loop_body A pf st line = Inr st'" and r: "refs_ok st"
  shows "refs_ok st' \<and> stored_unchanged st st'"
proof -
  from l obtain st1 st2 where a: "(if file_writes A then track_file_write st line else Inr st) = Inr st1"
    and b: "(if blocks_arg A then track_block pf st1 line else Inr st1) = Inr st2"
    and c: "st' = st2\<lparr>cnt := cnt st2 + 1\<rparr>"
    by (rule loop_body_cases)
  have 1: "io_refs st1 \<and> io_unchanged st st1 \<and> blk_refs st1 \<and> blk_unchanged st st1"
  proof (cases "file_writes A")
    case True
    with a have t: "track_file_write st line = Inr st1" by simp
    from track_file_write_refs[OF t] r track_file_write_fields(1)[OF t] same_blk_fields_refs[of st st1]
    show ?thesis by (simp add: refs_ok_def)
  next
    case False
    with a r show ?thesis by (simp add: refs_ok_def io_unchanged_refl blk_unchanged_refl)
  qed
  have 2: "io_refs st2 \<and> io_unchanged st1 st2 \<and> blk_refs st2 \<and> blk_unchanged st1 st2"
  proof (cases "blocks_arg A")
    case True
    with b have t: "track_block pf st1 line = Inr st2" by simp
    from track_block_refs[OF t] 1 track_block_fields(1)[OF t] same_io_fields_refs[of st1 st2]
    show ?thesis by simp
  next
    case False
    with b 1 show ?thesis by (simp add: io_unchanged_refl blk_unchanged_refl)
  qed
  from 1 2 have "io_unchanged st st2" "blk_unchanged st st2"
    by (blast intro: io_unchanged_trans blk_unchanged_trans)+
  then show ?thesis using 2 unfolding c refs_ok_def stored_unchanged_def by simp
qed

lemma stored_unchanged_refl: "stored_unchanged st st"
  by (simp add: stored_unchanged_def io_unchanged_refl blk_unchanged_refl)

lemma stored_unchanged_trans:
  "stored_unchanged s1 s2 \<Longrightarrow> stored_unchanged s2 s3 \<Longrightarrow> stored_unchanged s1 s3"
  unfolding stored_unchanged_def by (blast intro: io_unchanged_trans blk_unchanged_trans)

lemma read_loop_refs:
  assumes "read_loop A pf st ls = Inr st'" and "refs_ok st"
  shows "refs_ok st' \<and> stored_unchanged st st'"
  using assms
proof (induction ls arbitrary: st)
  case Nil
  then show ?case by (simp add: stored_unchanged_refl)
next
  case (Cons l ls)
  from Cons.prems(1) obtain s1 where a: "loop_body A pf st l = Inr s1"
    and b: "read_loop A pf s1 ls = Inr st'"
    by (auto split: sum.splits)
  from loop_body_refs[OF a Cons.prems(2)] Cons.IH[OF b]
  show ?case by (blast intro: stored_unchanged_trans)
qed

text \<open>The parameter scan changes the parameters only.\<close>

lemma search_core_count_store:
  assumes "search_core_count st l = Inr st'"
  shows "same_io_fields st st' \<and> same_blk_fields st st' \<and> debug st' = debug st"
  using assms unfolding search_core_count_def
  by (cases "re_search ''Number of MPI tasks:'' l"; cases "first_digits l")
     (auto simp: same_io_fields_def same_blk_fields_def split: if_splits)

lemma scan_line_store:
  assumes "scan_line st l = Inr st'"
  shows "same_io_fields st st' \<and> same_blk_fields st st' \<and> debug st' = debug st"
proof -
  obtain st0 x y z where a: "(if n_cores st = None then search_core_count st l else Inr st) = Inr st0"
    and r: "st' = st0\<lparr>nxb := x, nyb := y, nzb := z\<rparr>"
    using assms unfolding scan_line_def by (auto split: sum.splits)
  have "same_io_fields st st0 \<and> same_blk_fields st st0 \<and> debug st0 = debug st"
    using a search_core_count_store[of st l st0]
    by (cases "n_cores st") (auto simp: same_io_fields_def same_blk_fields_def)
  then show ?thesis unfolding r by (simp add: same_io_fields_def same_blk_fields_def)
qed

lemma scan_lines_store:
  assumes "scan_lines st ls = Inr st'"
  shows "same_io_fields st st' \<and> same_blk_fields st st' \<and> debug st' = debug st"
  using assms
proof (induction ls arbitrary: st)
  case Nil
  then show ?case by (simp add: same_io_fields_def same_blk_fields_def)
next
  case (Cons l ls)
  from Cons.prems obtain s1 where a: "scan_line st l = Inr s1" and b: "scan_lines s1 ls = Inr st'"
    by (auto split: sum.splits)
  from scan_line_store[OF a] Cons.IH[OF b] show ?case
    by (simp add: same_io_fields_def same_blk_fields_def)
qed

lemma compute_sim_parameters_init:
  assumes "compute_sim_parameters (FLASHLogStats_init dbg) lines = Inr s0"
  shows "fileIOs s0 = []" and "blocks s0 = []" and "heap_io s0 = []" and "heap_block s0 = []"
    and "heap_wall_time s0 = []" and "heap_dt s0 = []" and "debug s0 = dbg"
    and "n_cells s0 \<noteq> None" and "n_cores s0 \<noteq> None" and "n_cells_per_block s0 \<noteq> None"
proof -
  from assms obtain st1 x y z c where s: "scan_lines (FLASHLogStats_init dbg) lines = Inr st1"
    and f: "n_cores st1 = Some c"
    and r: "s0 = st1\<lparr>n_cells_per_block := Some (x * y * z), n_cells := Some (x * y * z * c)\<rparr>"
    by (rule compute_sim_parameters_cases)
  from scan_lines_store[OF s]
  show "fileIOs s0 = []" and "blocks s0 = []" and "heap_io s0 = []" and "heap_block s0 = []"
    and "heap_wall_time s0 = []" and "heap_dt s0 = []" and "debug s0 = dbg"
    and "n_cells s0 \<noteq> None" and "n_cores s0 \<noteq> None" and "n_cells_per_block s0 \<noteq> None"
    unfolding r using f
    by (simp_all add: same_io_fields_def same_blk_fields_def FLASHLogStats_init_def)
qed

lemma main_file_cases:
  assumes "main_file A pf dbg lines = Inr st"
  obtains s0 where "compute_sim_parameters (FLASHLogStats_init dbg) lines = Inr s0"
    and "read_loop A pf (init_locals s0) lines = Inr st"
proof -
  from assms obtain s0 where c: "compute_sim_parameters (FLASHLogStats_init dbg) lines = Inr s0"
    and d: "deconstruct_log_file A pf s0 lines = Inr st"
    unfolding main_file_def by (auto split: sum.splits)
  from compute_sim_parameters_init(8)[OF c] d
  have "read_loop A pf (init_locals s0) lines = Inr st"
    unfolding deconstruct_log_file_def by auto
  with c show ?thesis by (rule that)
qed

lemma main_file_pass_prefix:
  "main_file A pf dbg lines = Inr st \<Longrightarrow> pass_prefix A pf dbg lines (length lines) = Inr st"
  by (erule main_file_cases) (simp add: pass_prefix_def)

lemma init_locals_refs:
  assumes "compute_sim_parameters (FLASHLogStats_init dbg) lines = Inr s0"
  shows "refs_ok (init_locals s0)"
  using compute_sim_parameters_init[OF assms]
  by (simp add: refs_ok_def io_refs_def blk_refs_def init_locals_def)

lemma read_loop_take:
  assumes "read_loop A pf st ls = Inr st'"
  obtains s1 where "read_loop A pf st (take n ls) = Inr s1" and "read_loop A pf s1 (drop n ls) = Inr st'"
proof -
  have "read_loop A pf st (take n ls @ drop n ls) = Inr st'" using assms by simp
  then show ?thesis using that unfolding read_loop_append by (auto split: sum.splits)
qed

text \<open>
  Claim C10. Take the pass of \<^verbatim>\<open>main\<close> over a file at any point, after \<open>n\<close> lines, and the
  pass at its end. Every entry that the two dictionaries of the result store hold at the
  point is still there at the end, under the same key and referring to the same object,
  and that object has the same value in every field; the two list objects that a stored
  block refers to have the same elements. A record, once stored, is not written again:
  the next event and the next block are new objects.
\<close>

theorem C10_stored_records_not_mutated:
  assumes "main_file A pf dbg lines = Inr st'"
  shows "\<exists>st. pass_prefix A pf dbg lines n = Inr st \<and> stored_unchanged st st'"
proof -
  from assms obtain s0 where c: "compute_sim_parameters (FLASHLogStats_init dbg) lines = Inr s0"
    and l: "read_loop A pf (init_locals s0) lines = Inr st'"
    by (rule main_file_cases)
  from l obtain s1 where a: "read_loop A pf (init_locals s0) (take n lines) = Inr s1"
    and b: "read_loop A pf s1 (drop n lines) = Inr st'"
    by (rule read_loop_take)
  from read_loop_refs[OF a init_locals_refs[OF c]] have "refs_ok s1" by simp
  from read_loop_refs[OF b this] have "stored_unchanged s1 st'" by simp
  then show ?thesis using a c by (simp add: pass_prefix_def)
qed

section \<open>The file-write tracker: what is tracked and what is stored\<close>

lemma open_at_snoc: "open_at pre i t \<Longrightarrow> open_at (pre @ [l]) i t"
  by (auto simp: open_at_def nth_append)

lemma close_at_snoc: "close_at pre j t \<Longrightarrow> close_at (pre @ [l]) j t"
  by (auto simp: close_at_def nth_append)

lemma quiet_between_snoc:
  "quiet_between pre i j \<Longrightarrow> j \<le> length pre \<Longrightarrow> quiet_between (pre @ [l]) i j"
  by (auto simp: quiet_between_def nth_append)

lemma quiet_between_extend:
  "quiet_between pre i (length pre) \<Longrightarrow>
   \<not> (is_marker l \<and> (re_search ''open:'' l \<or> re_search ''close:'' l)) \<Longrightarrow>
   quiet_between (pre @ [l]) i (Suc (length pre))"
  unfolding quiet_between_def
  by (metis less_SucE nth_append nth_append_length)

lemma quiet_between_last: "quiet_between (pre @ [l]) (length pre) (Suc (length pre))"
  by (auto simp: quiet_between_def)

lemma io_stored_snoc_same:
  assumes "io_stored pre st" and "fileIOs st' = fileIOs st"
    and "\<And>k a. (k, a) \<in> set (fileIOs st) \<Longrightarrow> heap_io st' ! a = heap_io st ! a"
    and "n_cells_per_block st' = n_cells_per_block st"
  shows "io_stored (pre @ [l]) st'"
  unfolding io_stored_def
proof (intro ballI)
  fix x assume x: "x \<in> set (fileIOs st')"
  obtain k a where ka: "x = (k, a)" by (cases x)
  from x ka assms(2) have m: "(k, a) \<in> set (fileIOs st)" by simp
  with assms(1) obtain i j t0 t1 n where h: "i < j" "open_at pre i t0" "close_at pre j t1"
    "quiet_between pre i j" "n_cells_per_block st = Some n" "n \<noteq> 0"
    "heap_io st ! a = closed_event k t0 t1 (file_kind (pre ! j)) n"
    unfolding io_stored_def by fastforce
  from h(3) have jl: "j < length pre" by (simp add: close_at_def)
  then have nj: "(pre @ [l]) ! j = pre ! j" by (simp add: nth_append)
  show "case x of (k, a) \<Rightarrow> \<exists>i j t0 t1 n. i < j \<and> open_at (pre @ [l]) i t0
          \<and> close_at (pre @ [l]) j t1 \<and> quiet_between (pre @ [l]) i j
          \<and> n_cells_per_block st' = Some n \<and> n \<noteq> 0
          \<and> heap_io st' ! a = closed_event k t0 t1 (file_kind ((pre @ [l]) ! j)) n"
  proof -
    have "i < j \<and> open_at (pre @ [l]) i t0 \<and> close_at (pre @ [l]) j t1
          \<and> quiet_between (pre @ [l]) i j \<and> n_cells_per_block st' = Some n \<and> n \<noteq> 0
          \<and> heap_io st' ! a = closed_event k t0 t1 (file_kind ((pre @ [l]) ! j)) n"
      using h jl nj assms(3)[OF m] assms(4)
        open_at_snoc[OF h(2)] close_at_snoc[OF h(3)] quiet_between_snoc[OF h(4)]
      by simp
    then show ?thesis unfolding ka by blast
  qed
qed

lemma event_values [simp]:
  "open_io (FLASHLogFileIO_init k) = False" "close_io (FLASHLogFileIO_init k) = False"
  "wall_time_io (FLASHLogFileIO_init k) = PyInt 0"
  "open_io (opened_event k t) = True" "close_io (opened_event k t) = False"
  "wall_time_io (opened_event k t) = PyDatetime t"
  "empty_io (opened_event k t) = FLASHLogFileIO_init k"
  "open_file (FLASHLogFileIO_init k)\<lparr>start_date_io := PyDatetime t, wall_time_io := PyDatetime t\<rparr>
     = opened_event k t"
  by (simp_all add: FLASHLogFileIO_init_def opened_event_def empty_io_def open_file_def)

lemma close_opened_event:
  "(close_file (opened_event k t0))\<lparr>wall_time_io := PyFloat (total_seconds (t - t0)),
       core_hours_io := PyFloat (total_seconds (t - t0) / seconds_per_hour),
       file_type := kind, wall_time_norm := PyFloat (total_seconds (t - t0) / real_of_int n)\<rparr>
   = closed_event k t0 t kind n"
  by (simp add: FLASHLogFileIO_init_def opened_event_def close_file_def closed_event_def)

lemma io_working_elim:
  assumes "io_working pre st" and "write_flag st" and "fileIO st = Some a"
  obtains (fresh) "heap_io st ! a = FLASHLogFileIO_init (IO_id_counter st)"
    | (opened) i t where "open_at pre i t" and "quiet_between pre i (length pre)"
        and "heap_io st ! a = opened_event (IO_id_counter st) t"
  using assms unfolding io_working_def by auto

text \<open>What \<^verbatim>\<open>search_file_write_stats\<close> does to the event being tracked.\<close>

lemma search_tracked_event:
  assumes s: "search_file_write_stats dbg line f0 = Inr f"
    and f0: "f0 = FLASHLogFileIO_init k \<or> f0 = opened_event k t0"
  obtains (opened) t where "line_wall_time line = Inr t" and "re_search ''open:'' line"
      and "f = opened_event k t"
    | (closed) t where "line_wall_time line = Inr t" and "\<not> re_search ''open:'' line"
      and "re_search ''close:'' line" and "f0 = opened_event k t0"
      and "f = (close_file (opened_event k t0))\<lparr>wall_time_io := PyFloat (total_seconds (t - t0)),
                  core_hours_io := PyFloat (total_seconds (t - t0) / seconds_per_hour)\<rparr>"
    | (neither) "\<not> re_search ''open:'' line" and "\<not> re_search ''close:'' line" and "f = f0"
  using s
proof (cases rule: search_file_write_stats_cases)
  case (opened t)
  from f0 have "(open_file (if open_io f0 then empty_io f0 else f0))
                  \<lparr>start_date_io := PyDatetime t, wall_time_io := PyDatetime t\<rparr> = opened_event k t"
    by auto
  with opened show ?thesis using that(1) by simp
next
  case (closed t t1)
  from f0 closed(4) have e: "f0 = opened_event k t0" "t1 = t0" by auto
  show ?thesis using that(2)[OF closed(1,2,3) e(1)] closed(6) unfolding e by simp
next
  case (neither t)
  then show ?thesis using that(3) by simp
qed

lemma is_fresh:
  "FLASHLogFileIO_init k = FLASHLogFileIO_init k \<or> FLASHLogFileIO_init k = opened_event k t0"
  by simp

lemma is_opened:
  "opened_event k t0 = FLASHLogFileIO_init k \<or> opened_event k t0 = opened_event k t0"
  by simp

lemma track_file_write_inv:
  assumes t: "track_file_write st line = Inr st'"
    and r: "io_refs st" and w: "io_working pre st" and s: "io_stored pre st"
  shows "io_working (pre @ [line]) st' \<and> io_stored (pre @ [line]) st'"
  using t
proof (cases rule: track_file_write_cases)
  case skip
  have q: "\<not> (is_marker line \<and> (re_search ''open:'' line \<or> re_search ''close:'' line))"
    using skip(1) by simp
  have "io_working (pre @ [line]) st'"
    using w unfolding io_working_def skip(2)
    by (auto intro: open_at_snoc quiet_between_extend[OF _ q])
  moreover have "io_stored (pre @ [line]) st'"
    using io_stored_snoc_same[OF s, of st'] skip(2) by simp
  ultimately show ?thesis by simp
next
  case (new f)
  have sel: "fileIOs st' = fileIOs st" "n_cells_per_block st' = n_cells_per_block st"
    "heap_io st' = heap_io st @ [f]" "write_flag st' = True"
    "fileIO st' = Some (length (heap_io st))" "IO_id_counter st' = IO_id_counter st"
    unfolding new(4) by simp_all
  have "io_stored (pre @ [line]) st'"
  proof (rule io_stored_snoc_same[OF s sel(1) _ sel(2)])
    fix k a assume "(k, a) \<in> set (fileIOs st)"
    with r have "a < length (heap_io st)" unfolding io_refs_def by auto
    then show "heap_io st' ! a = heap_io st ! a" unfolding sel by (simp add: nth_append)
  qed
  moreover have "io_working (pre @ [line]) st'"
    using new(3) is_fresh[of "IO_id_counter st" 0]
  proof (cases rule: search_tracked_event)
    case (opened t)
    have "open_at (pre @ [line]) (length pre) t"
      using opened new(1) by (simp add: open_at_def)
    then show ?thesis unfolding io_working_def sel
      using opened(3) quiet_between_last[of pre line] by auto
  next
    case (closed t)
    then show ?thesis by (simp add: FLASHLogFileIO_init_def opened_event_def)
  next
    case neither
    then show ?thesis unfolding io_working_def sel by simp
  qed
  ultimately show ?thesis by simp
next
  case (update a f)
  have sel: "fileIOs st' = fileIOs st" "n_cells_per_block st' = n_cells_per_block st"
    "heap_io st' = (heap_io st)[a := f]" "write_flag st' = True"
    "fileIO st' = Some a" "IO_id_counter st' = IO_id_counter st"
    unfolding update(7) using update(2,3) by simp_all
  from r update(2,3) have na: "a \<notin> snd ` set (fileIOs st)" unfolding io_refs_def by auto
  have "io_stored (pre @ [line]) st'"
  proof (rule io_stored_snoc_same[OF s sel(1) _ sel(2)])
    fix k a' assume "(k, a') \<in> set (fileIOs st)"
    with na have "a' \<noteq> a" by (auto dest: stored_neq)
    then show "heap_io st' ! a' = heap_io st ! a'" unfolding sel by simp
  qed
  moreover have "io_working (pre @ [line]) st'"
    using w update(2,3)
  proof (cases rule: io_working_elim)
    case fresh
    note u5 = update(5)[unfolded fresh]
    show ?thesis
      using u5 is_fresh[of "IO_id_counter st" 0]
    proof (cases rule: search_tracked_event)
      case (opened t)
      have "open_at (pre @ [line]) (length pre) t"
        using opened update(1) by (simp add: open_at_def)
      then show ?thesis unfolding io_working_def sel
        using opened(3) quiet_between_last[of pre line] update(4) by auto
    next
      case (closed t)
      then show ?thesis using fresh by (simp add: FLASHLogFileIO_init_def opened_event_def)
    next
      case neither
      then show ?thesis unfolding io_working_def sel using fresh update(4) by simp
    qed
  next
    case (opened i t0)
    note u5 = update(5)[unfolded opened(3)]
    show ?thesis
      using u5 is_opened[of "IO_id_counter st" t0]
    proof (cases rule: search_tracked_event)
      case (opened t)
      have "open_at (pre @ [line]) (length pre) t"
        using opened update(1) by (simp add: open_at_def)
      then show ?thesis unfolding io_working_def sel
        using opened(3) quiet_between_last[of pre line] update(4) by auto
    next
      case (closed t)
      then show ?thesis using update(6) by (simp add: close_file_def)
    next
      case neither
      have q: "\<not> (is_marker line \<and> (re_search ''open:'' line \<or> re_search ''close:'' line))"
        using neither by simp
      show ?thesis unfolding io_working_def sel
        using neither(3) opened update(4) open_at_snoc[OF opened(1), of line]
          quiet_between_extend[OF opened(2) q]
        by auto
    qed
  qed
  ultimately show ?thesis by simp
next
  case (store a f wv n)
  from r have fresh_key: "IO_id_counter st \<notin> fst ` set (fileIOs st)" unfolding io_refs_def by force
  note ds = dict_set_fresh[OF fresh_key]
  define g where "g = f\<lparr>file_type := file_kind line, wall_time_norm := PyFloat (wv / real_of_int n)\<rparr>"
  have sel: "fileIOs st' = fileIOs st @ [(IO_id_counter st, a)]"
    "n_cells_per_block st' = n_cells_per_block st"
    "heap_io st' = (heap_io st)[a := g]" "write_flag st' = False"
    unfolding store(10) ds g_def file_kind_def by simp_all
  from r store(2,3) have na: "a \<notin> snd ` set (fileIOs st)" unfolding io_refs_def by auto
  have old: "heap_io st' ! a' = heap_io st ! a'" if "(k, a') \<in> set (fileIOs st)" for k a'
  proof -
    from that na have "a' \<noteq> a" by (auto dest: stored_neq)
    then show ?thesis unfolding sel by simp
  qed
  have newv: "\<exists>i j t0 t1. i < j \<and> open_at (pre @ [line]) i t0 \<and> close_at (pre @ [line]) j t1
          \<and> quiet_between (pre @ [line]) i j
          \<and> g = closed_event (IO_id_counter st) t0 t1 (file_kind ((pre @ [line]) ! j)) n"
    using w store(2,3)
  proof (cases rule: io_working_elim)
    case fresh
    note u5 = store(5)[unfolded fresh]
    show ?thesis
      using u5 is_fresh[of "IO_id_counter st" 0]
    proof (cases rule: search_tracked_event)
      case (opened t)
      then show ?thesis using store(6) by simp
    next
      case (closed t)
      then show ?thesis using fresh by (simp add: FLASHLogFileIO_init_def opened_event_def)
    next
      case neither
      then show ?thesis using store(6) fresh by simp
    qed
  next
    case (opened i t0)
    note u5 = store(5)[unfolded opened(3)]
    show ?thesis
      using u5 is_opened[of "IO_id_counter st" t0]
    proof (cases rule: search_tracked_event)
      case (opened t)
      then show ?thesis using store(6) by simp
    next
      case (closed t)
      from closed(5) store(7) have wv: "wv = total_seconds (t - t0)" by simp
      have g: "g = closed_event (IO_id_counter st) t0 t (file_kind line) n"
        unfolding g_def closed(5) wv using close_opened_event[of "IO_id_counter st" t0 t "file_kind line" n]
        by (simp add: close_file_def opened_event_def FLASHLogFileIO_init_def closed_event_def)
      have c: "close_at (pre @ [line]) (length pre) t"
        using closed store(1) by (simp add: close_at_def)
      from \<open>open_at pre i t0\<close> have il: "i < length pre" by (simp add: open_at_def)
      have qb: "quiet_between (pre @ [line]) i (length pre)"
        using \<open>quiet_between pre i (length pre)\<close> by (rule quiet_between_snoc) simp
      have "i < length pre \<and> open_at (pre @ [line]) i t0 \<and> close_at (pre @ [line]) (length pre) t
          \<and> quiet_between (pre @ [line]) i (length pre)
          \<and> g = closed_event (IO_id_counter st) t0 t (file_kind ((pre @ [line]) ! length pre)) n"
        using il open_at_snoc[OF \<open>open_at pre i t0\<close>, of line] c qb g by simp
      then show ?thesis by blast
    next
      case neither
      then show ?thesis using store(6) opened by simp
    qed
  qed
  have "io_stored (pre @ [line]) st'"
    unfolding io_stored_def
  proof (intro ballI)
    fix x assume x: "x \<in> set (fileIOs st')"
    obtain k a' where ka: "x = (k, a')" by (cases x)
    from x ka have "(k, a') \<in> set (fileIOs st) \<or> (k = IO_id_counter st \<and> a' = a)"
      unfolding sel by auto
    then show "case x of (k, a) \<Rightarrow> \<exists>i j t0 t1 n. i < j \<and> open_at (pre @ [line]) i t0
          \<and> close_at (pre @ [line]) j t1 \<and> quiet_between (pre @ [line]) i j
          \<and> n_cells_per_block st' = Some n \<and> n \<noteq> 0
          \<and> heap_io st' ! a = closed_event k t0 t1 (file_kind ((pre @ [line]) ! j)) n"
    proof
      assume m: "(k, a') \<in> set (fileIOs st)"
      have "io_stored (pre @ [line]) (st\<lparr>heap_io := heap_io st'\<rparr>)"
        by (rule io_stored_snoc_same[OF s]) (simp_all add: old)
      then show ?thesis using m unfolding ka io_stored_def sel by fastforce
    next
      assume e: "k = IO_id_counter st \<and> a' = a"
      have "heap_io st' ! a = g" unfolding sel using store(4) by simp
      then show ?thesis unfolding ka using e newv store(8,9) sel(2) by auto
    qed
  qed
  moreover have "io_working (pre @ [line]) st'" unfolding io_working_def sel by simp
  ultimately show ?thesis by simp
qed

lemma track_file_write_heap:
  assumes t: "track_file_write st line = Inr st'" and h: "io_heap st" and r: "io_refs st"
  shows "io_heap st'"
  using t
proof (cases rule: track_file_write_cases)
  case skip
  then show ?thesis using h by simp
next
  case (new f)
  show ?thesis using h new(2) unfolding io_heap_def new(4)
    by (auto simp: less_Suc_eq)
next
  case (update a f)
  show ?thesis using h unfolding io_heap_def update(7) by auto
next
  case (store a f w n)
  from r have fresh: "IO_id_counter st \<notin> fst ` set (fileIOs st)" unfolding io_refs_def by force 
  show ?thesis using h store(2,3) unfolding io_heap_def store(10) dict_set_fresh[OF fresh]
    by auto
qed

lemma same_io_fields_inv:
  assumes "same_io_fields st st'" and "same_params st st'"
  shows "io_heap st' = io_heap st" and "io_working pre st' = io_working pre st"
    and "io_stored pre st' = io_stored pre st"
  using assms
  by (simp_all add: same_io_fields_def same_params_def io_heap_def io_working_def io_stored_def)

lemma cnt_update_io [simp]:
  "io_heap (st\<lparr>cnt := c\<rparr>) = io_heap st" "io_working pre (st\<lparr>cnt := c\<rparr>) = io_working pre st"
  "io_stored pre (st\<lparr>cnt := c\<rparr>) = io_stored pre st"
  by (simp_all add: io_heap_def io_working_def io_stored_def)

lemma loop_body_io_inv:
  assumes l: "loop_body A pf st line = Inr st'" and i: "io_inv A pre st"
  shows "io_inv A (pre @ [line]) st'"
proof -
  from l obtain st1 st2 where a: "(if file_writes A then track_file_write st line else Inr st) = Inr st1"
    and b: "(if blocks_arg A then track_block pf st1 line else Inr st1) = Inr st2"
    and c: "st' = st2\<lparr>cnt := cnt st2 + 1\<rparr>"
    by (rule loop_body_cases)
  from i have r: "io_refs st" and h: "io_heap st" and w: "io_working pre st"
    and s: "io_stored pre st" and n: "\<not> file_writes A \<longrightarrow> \<not> write_flag st"
    unfolding io_inv_def by simp_all
  have 1: "io_refs st1 \<and> io_heap st1 \<and> io_working (pre @ [line]) st1
           \<and> io_stored (pre @ [line]) st1 \<and> (\<not> file_writes A \<longrightarrow> \<not> write_flag st1)"
  proof (cases "file_writes A")
    case True
    with a have t: "track_file_write st line = Inr st1" by simp
    from track_file_write_refs[OF t r] track_file_write_heap[OF t h r]
      track_file_write_inv[OF t r w s] True
    show ?thesis by simp
  next
    case False
    with a have e: "st1 = st" by simp
    have "io_stored (pre @ [line]) st" by (rule io_stored_snoc_same[OF s]) simp_all
    moreover have "io_working (pre @ [line]) st" using n False by (simp add: io_working_def)
    ultimately show ?thesis using r h n unfolding e by simp
  qed
  have 2: "same_io_fields st1 st2 \<and> same_params st1 st2"
  proof (cases "blocks_arg A")
    case True
    with b have t: "track_block pf st1 line = Inr st2" by simp
    from track_block_fields[OF t] show ?thesis by simp
  next
    case False
    with b show ?thesis by (simp add: same_io_fields_def same_params_def)
  qed
  from 2 have wf: "write_flag st2 = write_flag st1" by (simp add: same_io_fields_def)
  show ?thesis
    unfolding io_inv_def c
    using 1 2 same_io_fields_inv(1)[of st1 st2] same_io_fields_inv(2,3)[of st1 st2 "pre @ [line]"]
      same_io_fields_refs(1)[of st1 st2] wf
    by simp
qed

lemma init_locals_io_inv:
  assumes "compute_sim_parameters (FLASHLogStats_init dbg) lines = Inr s0"
  shows "io_inv A [] (init_locals s0)"
  using compute_sim_parameters_init[OF assms]
  by (simp add: io_inv_def io_refs_def io_heap_def io_working_def io_stored_def init_locals_def)

lemma pass_prefix_cases:
  assumes "pass_prefix A pf dbg lines n = Inr st"
  obtains s0 where "compute_sim_parameters (FLASHLogStats_init dbg) lines = Inr s0"
    and "read_loop A pf (init_locals s0) (take n lines) = Inr st"
  using assms unfolding pass_prefix_def by (auto split: sum.splits)

lemma pass_prefix_io_inv:
  assumes "pass_prefix A pf dbg lines n = Inr st"
  shows "io_inv A (take n lines) st"
proof -
  from assms obtain s0 where c: "compute_sim_parameters (FLASHLogStats_init dbg) lines = Inr s0"
    and l: "read_loop A pf (init_locals s0) (take n lines) = Inr st"
    by (rule pass_prefix_cases)
  show ?thesis
    by (rule read_loop_invariant[OF l, where I = "io_inv A"])
       (auto intro: init_locals_io_inv[OF c] loop_body_io_inv)
qed

lemma pass_prefix_Suc:
  assumes "pass_prefix A pf dbg lines (Suc n) = Inr st'" and "n < length lines"
  obtains st where "pass_prefix A pf dbg lines n = Inr st"
    and "loop_body A pf st (lines ! n) = Inr st'"
proof -
  from assms(1) obtain s0 where c: "compute_sim_parameters (FLASHLogStats_init dbg) lines = Inr s0"
    and l: "read_loop A pf (init_locals s0) (take (Suc n) lines) = Inr st'"
    by (rule pass_prefix_cases)
  from l assms(2) obtain st where "read_loop A pf (init_locals s0) (take n lines) = Inr st"
    and "loop_body A pf st (lines ! n) = Inr st'"
    by (auto simp: take_Suc_conv_app_nth read_loop_snoc)
  then show ?thesis using that c by (simp add: pass_prefix_def)
qed

text \<open>The histories of the flags of the event objects.\<close>

lemma flags_at_state:
  "pass_prefix A pf dbg lines m = Inr st \<Longrightarrow> flags_at A pf dbg lines m a = flags st a"
  by (simp add: flags_at_def)

lemma not_opened_Suc:
  assumes "not_opened A pf dbg lines n a"
    and "flags_at A pf dbg lines (Suc n) a = None \<or> flags_at A pf dbg lines (Suc n) a = Some (False, False)"
  shows "not_opened A pf dbg lines (Suc n) a"
  using assms unfolding not_opened_def by (auto simp: le_Suc_eq)

lemma open_since_Suc:
  assumes "open_since A pf dbg lines n a i"
    and "flags_at A pf dbg lines (Suc n) a = Some (True, False)"
  shows "open_since A pf dbg lines (Suc n) a i"
  using assms unfolding open_since_def by (auto simp: le_Suc_eq)

lemma closed_once_Suc:
  assumes "closed_once A pf dbg lines n a i j"
    and "flags_at A pf dbg lines (Suc n) a = Some (False, True)"
  shows "closed_once A pf dbg lines (Suc n) a i j"
  using assms unfolding closed_once_def by (auto simp: le_Suc_eq)

lemma open_since_last:
  "open_since A pf dbg lines n a i \<Longrightarrow> flags_at A pf dbg lines n a = Some (True, False)"
  unfolding open_since_def by simp

lemma closed_once_last:
  "closed_once A pf dbg lines n a i j \<Longrightarrow> flags_at A pf dbg lines n a = Some (False, True)"
  unfolding closed_once_def by simp

lemma not_opened_last:
  "not_opened A pf dbg lines n a \<Longrightarrow>
     flags_at A pf dbg lines n a = None \<or> flags_at A pf dbg lines n a = Some (False, False)"
  unfolding not_opened_def by simp

text \<open>A step that leaves the flags of an object as they are extends its history.\<close>

lemma not_opened_same:
  assumes "not_opened A pf dbg lines n a"
    and "flags_at A pf dbg lines (Suc n) a = flags_at A pf dbg lines n a"
  shows "not_opened A pf dbg lines (Suc n) a"
  using not_opened_Suc[OF assms(1)] not_opened_last[OF assms(1)] assms(2) by simp

lemma open_since_same:
  assumes "open_since A pf dbg lines n a i"
    and "flags_at A pf dbg lines (Suc n) a = flags_at A pf dbg lines n a"
  shows "open_since A pf dbg lines (Suc n) a i"
  using open_since_Suc[OF assms(1)] open_since_last[OF assms(1)] assms(2) by simp

lemma closed_once_same:
  assumes "closed_once A pf dbg lines n a i j"
    and "flags_at A pf dbg lines (Suc n) a = flags_at A pf dbg lines n a"
  shows "closed_once A pf dbg lines (Suc n) a i j"
  using closed_once_Suc[OF assms(1)] closed_once_last[OF assms(1)] assms(2) by simp

lemma io_hist_same:
  assumes h: "io_hist A pf dbg lines n st"
    and p: "pass_prefix A pf dbg lines n = Inr st" and p': "pass_prefix A pf dbg lines (Suc n) = Inr st'"
    and e: "heap_io st' = heap_io st" "fileIOs st' = fileIOs st" "write_flag st' = write_flag st"
      "fileIO st' = fileIO st"
  shows "io_hist A pf dbg lines (Suc n) st'"
proof -
  have f: "flags_at A pf dbg lines (Suc n) a = flags_at A pf dbg lines n a" for a
    unfolding flags_at_state[OF p] flags_at_state[OF p'] by (simp add: flags_def e)
  have 1: "\<forall>m \<le> Suc n. \<forall>a. flags_at A pf dbg lines m a \<noteq> None \<longrightarrow> a < length (heap_io st')"
    using h f unfolding io_hist_def e by (auto simp: le_Suc_eq)
  have 2: "\<forall>(k, a) \<in> set (fileIOs st'). \<exists>i j. closed_once A pf dbg lines (Suc n) a i j"
    using h closed_once_same[OF _ f] unfolding io_hist_def e by blast
  have 3: "write_flag st' \<longrightarrow>
          (\<exists>a. fileIO st' = Some a
             \<and> (not_opened A pf dbg lines (Suc n) a \<or> (\<exists>i. open_since A pf dbg lines (Suc n) a i)))"
    using h not_opened_same[OF _ f] open_since_same[OF _ f] unfolding io_hist_def e by blast
  from 1 2 3 show ?thesis unfolding io_hist_def by simp
qed


lemma fresh_not_opened: "FLASHLogFileIO_init k \<noteq> opened_event k t"
proof
  assume "FLASHLogFileIO_init k = opened_event k t"
  then have "open_io (FLASHLogFileIO_init k) = open_io (opened_event k t)" by simp
  then show False by simp
qed

lemma close_file_flags:
  "close_io (close_file f) = True" "open_io (close_file f) = False"
  by (simp_all add: close_file_def Let_def)

lemma flags_Some: "a < length (heap_io st) \<Longrightarrow> heap_io st ! a = f \<Longrightarrow> flags st a = Some (open_io f, close_io f)"
  by (simp add: flags_def)

lemma flags_same:
  "length (heap_io st') = length (heap_io st) \<Longrightarrow> heap_io st' ! a = heap_io st ! a \<Longrightarrow> flags st' a = flags st a"
  by (simp add: flags_def)

lemma open_since_start:
  assumes "not_opened A pf dbg lines n a" and "open_at lines n t"
    and "flags_at A pf dbg lines (Suc n) a = Some (True, False)"
  shows "open_since A pf dbg lines (Suc n) a n"
proof -
  have "m = Suc n" if "n < m \<and> m \<le> Suc n" for m using that by simp
  with assms show ?thesis unfolding open_since_def by blast
qed

lemma closed_once_start:
  assumes "open_since A pf dbg lines n a i" and "close_at lines n t"
    and "flags_at A pf dbg lines (Suc n) a = Some (False, True)"
  shows "closed_once A pf dbg lines (Suc n) a i n"
proof -
  have "m = Suc n" if "n < m \<and> m \<le> Suc n" for m using that by simp
  with assms show ?thesis unfolding closed_once_def by blast
qed

lemma hist_heap_Suc:
  assumes h: "\<And>m a. m \<le> n \<Longrightarrow> flags_at A pf dbg lines m a \<noteq> None \<Longrightarrow> a < length (heap_io st)"
    and p': "pass_prefix A pf dbg lines (Suc n) = Inr st'"
    and l: "length (heap_io st) \<le> length (heap_io st')"
  shows "\<forall>m \<le> Suc n. \<forall>a. flags_at A pf dbg lines m a \<noteq> None \<longrightarrow> a < length (heap_io st')"
proof (intro allI impI)
  fix m a assume m: "m \<le> Suc n" and f: "flags_at A pf dbg lines m a \<noteq> None"
  show "a < length (heap_io st')"
  proof (cases "m = Suc n")
    case True
    from f have "flags st' a \<noteq> None" unfolding True flags_at_state[OF p'] .
    then show ?thesis by (simp add: flags_def split: if_splits)
  next
    case False
    with m have "m \<le> n" by simp
    from h[OF this f] l show ?thesis by simp
  qed
qed

text \<open>The histories over one line of the file-write tracker.\<close>

lemma track_file_write_hist:
  assumes p: "pass_prefix A pf dbg lines n = Inr st"
    and p': "pass_prefix A pf dbg lines (Suc n) = Inr st'"
    and nl: "n < length lines"
    and t: "track_file_write st (lines ! n) = Inr st1"
    and e: "heap_io st' = heap_io st1" "fileIOs st' = fileIOs st1" "write_flag st' = write_flag st1"
      "fileIO st' = fileIO st1"
    and h: "io_hist A pf dbg lines n st" and r: "io_refs st" and w: "io_working (take n lines) st"
  shows "io_hist A pf dbg lines (Suc n) st'"
proof -
  note fn = flags_at_state[OF p] and fs = flags_at_state[OF p']
  from h have h1: "\<And>m a. m \<le> n \<Longrightarrow> flags_at A pf dbg lines m a \<noteq> None \<Longrightarrow> a < length (heap_io st)"
    and h2: "\<And>k a. (k, a) \<in> set (fileIOs st) \<Longrightarrow> \<exists>i j. closed_once A pf dbg lines n a i j"
    and h3: "write_flag st \<Longrightarrow> \<exists>a. fileIO st = Some a
             \<and> (not_opened A pf dbg lines n a \<or> (\<exists>i. open_since A pf dbg lines n a i))"
    unfolding io_hist_def by blast+
  from r have r2: "\<And>k a. (k, a) \<in> set (fileIOs st) \<Longrightarrow> a < length (heap_io st)"
    and r3: "write_flag st \<Longrightarrow> \<exists>a. fileIO st = Some a \<and> a \<notin> snd ` set (fileIOs st)"
    and r4: "IO_id_counter st \<notin> fst ` set (fileIOs st)"
    unfolding io_refs_def by force+
  show ?thesis using t
  proof (cases rule: track_file_write_cases)
    case skip
    show ?thesis by (rule io_hist_same[OF h p p']) (simp_all add: e skip)
  next
    case (new f)
    have hp: "heap_io st' = heap_io st @ [f]" and fi: "fileIOs st' = fileIOs st"
      and wf: "write_flag st'" and fo: "fileIO st' = Some (length (heap_io st))"
      unfolding e new(4) by simp_all
    have 1: "\<forall>m \<le> Suc n. \<forall>a. flags_at A pf dbg lines m a \<noteq> None \<longrightarrow> a < length (heap_io st')"
      by (rule hist_heap_Suc[OF h1 p']) (simp_all add: hp)
    have 2: "\<forall>(k, a) \<in> set (fileIOs st'). \<exists>i j. closed_once A pf dbg lines (Suc n) a i j"
    proof (clarify)
      fix k a assume "(k, a) \<in> set (fileIOs st')"
      then have s: "(k, a) \<in> set (fileIOs st)" unfolding fi .
      from r2[OF s] have "flags st' a = flags st a" unfolding flags_def hp by (simp add: nth_append)
      then have "flags_at A pf dbg lines (Suc n) a = flags_at A pf dbg lines n a"
        unfolding fn fs .
      from h2[OF s] closed_once_same[OF _ this] show "\<exists>i j. closed_once A pf dbg lines (Suc n) a i j"
        by blast
    qed
    let ?a = "length (heap_io st)"
    have no: "not_opened A pf dbg lines n ?a"
      unfolding not_opened_def using h1[of _ ?a] by blast
    have fl: "flags_at A pf dbg lines (Suc n) ?a = Some (open_io f, close_io f)"
      unfolding fs flags_def hp by simp
    have 3: "not_opened A pf dbg lines (Suc n) ?a \<or> (\<exists>i. open_since A pf dbg lines (Suc n) ?a i)"
      using new(3) is_fresh[of "IO_id_counter st" 0]
    proof (cases rule: search_tracked_event)
      case (opened tm)
      from opened(1,2) new(1) nl have "open_at lines n tm" by (simp add: open_at_def)
      from open_since_start[OF no this] fl opened(3) show ?thesis by auto
    next
      case (closed tm)
      with fresh_not_opened show ?thesis by blast
    next
      case neither
      from not_opened_Suc[OF no] fl neither(3) show ?thesis by simp
    qed
    from 1 2 3 wf fo show ?thesis unfolding io_hist_def by simp
  next
    case (update a f)
    have hp: "heap_io st' = (heap_io st)[a := f]" and fi: "fileIOs st' = fileIOs st"
      and wf: "write_flag st'" and fo: "fileIO st' = Some a"
      unfolding e update(7) using update(2,3) by simp_all
    from r3[OF update(2)] update(3) have ns: "a \<notin> snd ` set (fileIOs st)" by simp
    have 1: "\<forall>m \<le> Suc n. \<forall>a. flags_at A pf dbg lines m a \<noteq> None \<longrightarrow> a < length (heap_io st')"
      by (rule hist_heap_Suc[OF h1 p']) (simp_all add: hp)
    have 2: "\<forall>(k, b) \<in> set (fileIOs st'). \<exists>i j. closed_once A pf dbg lines (Suc n) b i j"
    proof (clarify)
      fix k b assume "(k, b) \<in> set (fileIOs st')"
      then have s: "(k, b) \<in> set (fileIOs st)" unfolding fi .
      from stored_neq[OF s ns] have "flags st' b = flags st b" unfolding flags_def hp by simp
      then have "flags_at A pf dbg lines (Suc n) b = flags_at A pf dbg lines n b"
        unfolding fn fs .
      from h2[OF s] closed_once_same[OF _ this] show "\<exists>i j. closed_once A pf dbg lines (Suc n) b i j"
        by blast
    qed
    from h3[OF update(2)] update(3)
    have hi: "not_opened A pf dbg lines n a \<or> (\<exists>i. open_since A pf dbg lines n a i)" by simp
    have fl: "flags_at A pf dbg lines (Suc n) a = Some (open_io f, close_io f)"
      unfolding fs flags_def hp using update(4) by simp
    from w update(2,3) obtain t0 where f0: "heap_io st ! a = FLASHLogFileIO_init (IO_id_counter st)
        \<or> heap_io st ! a = opened_event (IO_id_counter st) t0"
      unfolding io_working_def by auto
    have 3: "not_opened A pf dbg lines (Suc n) a \<or> (\<exists>i. open_since A pf dbg lines (Suc n) a i)"
      using update(5) f0
    proof (cases rule: search_tracked_event)
      case (opened tm)
      from opened(1,2) update(1) nl have oa: "open_at lines n tm" by (simp add: open_at_def)
      from fl opened(3) have tf: "flags_at A pf dbg lines (Suc n) a = Some (True, False)" by simp
      from hi show ?thesis
      proof
        assume "not_opened A pf dbg lines n a"
        from open_since_start[OF this oa tf] show ?thesis by blast
      next
        assume "\<exists>i. open_since A pf dbg lines n a i"
        then obtain i where "open_since A pf dbg lines n a i" ..
        from open_since_Suc[OF this tf] show ?thesis by blast
      qed
    next
      case (closed tm)
      with update(6) show ?thesis by (simp add: close_file_flags)
    next
      case neither
      have "flags st' a = flags st a" unfolding flags_def hp using neither(3) update(4) by simp
      then have s: "flags_at A pf dbg lines (Suc n) a = flags_at A pf dbg lines n a"
        unfolding fn fs .
      from hi not_opened_same[OF _ s] open_since_same[OF _ s] show ?thesis by blast
    qed
    from 1 2 3 wf fo show ?thesis unfolding io_hist_def by simp
  next
    case (store a f wv nc)
    let ?g = "f\<lparr>file_type := (if re_search ''IO_writeCheckpoint'' (lines ! n) then ''chk'' else ''plt''),
                 wall_time_norm := PyFloat (wv / real_of_int nc)\<rparr>"
    have hp: "heap_io st' = (heap_io st)[a := ?g]"
      and fi: "fileIOs st' = fileIOs st @ [(IO_id_counter st, a)]"
      and wf: "\<not> write_flag st'"
      unfolding e store(10) using dict_set_fresh[OF r4] by simp_all
    from r3[OF store(2)] store(3) have ns: "a \<notin> snd ` set (fileIOs st)" by simp
    have 1: "\<forall>m \<le> Suc n. \<forall>a. flags_at A pf dbg lines m a \<noteq> None \<longrightarrow> a < length (heap_io st')"
      by (rule hist_heap_Suc[OF h1 p']) (simp_all add: hp)
    from h3[OF store(2)] store(3)
    have hi: "not_opened A pf dbg lines n a \<or> (\<exists>i. open_since A pf dbg lines n a i)" by simp
    have fl: "flags_at A pf dbg lines (Suc n) a = Some (open_io f, close_io f)"
      unfolding fs flags_def hp using store(4) by simp
    from w store(2,3) obtain t0 where f0: "heap_io st ! a = FLASHLogFileIO_init (IO_id_counter st)
        \<or> heap_io st ! a = opened_event (IO_id_counter st) t0"
      unfolding io_working_def by auto
    have new: "\<exists>i j. closed_once A pf dbg lines (Suc n) a i j"
      using store(5) f0
    proof (cases rule: search_tracked_event)
      case (opened tm)
      with store(6) show ?thesis by simp
    next
      case (closed tm)
      from closed(1,2,3) store(1) nl have ca: "close_at lines n tm" by (simp add: close_at_def)
      from fl closed(5) have ft: "flags_at A pf dbg lines (Suc n) a = Some (False, True)"
        by (simp add: close_file_flags)
      from closed(4) store(4) have "flags_at A pf dbg lines n a = Some (True, False)"
        unfolding fn by (simp add: flags_def)
      with hi not_opened_last[of A pf dbg lines n a] obtain i where "open_since A pf dbg lines n a i"
        by auto
      from closed_once_start[OF this ca ft] show ?thesis by blast
    next
      case neither
      with f0 store(6) show ?thesis by auto
    qed
    have 2: "\<forall>(k, b) \<in> set (fileIOs st'). \<exists>i j. closed_once A pf dbg lines (Suc n) b i j"
    proof (clarify)
      fix k b assume "(k, b) \<in> set (fileIOs st')"
      then consider (old) "(k, b) \<in> set (fileIOs st)" | (this) "b = a" unfolding fi by auto
      then show "\<exists>i j. closed_once A pf dbg lines (Suc n) b i j"
      proof cases
        case old
        from stored_neq[OF old ns] have "flags st' b = flags st b" unfolding flags_def hp by simp
        then have "flags_at A pf dbg lines (Suc n) b = flags_at A pf dbg lines n b"
          unfolding fn fs .
        from h2[OF old] closed_once_same[OF _ this] show ?thesis by blast
      next
        case this
        with new show ?thesis by simp
      qed
    qed
    from 1 2 wf show ?thesis unfolding io_hist_def by simp
  qed
qed


lemma loop_body_hist:
  assumes p: "pass_prefix A pf dbg lines n = Inr st"
    and p': "pass_prefix A pf dbg lines (Suc n) = Inr st'"
    and nl: "n < length lines"
    and l: "loop_body A pf st (lines ! n) = Inr st'"
    and h: "io_hist A pf dbg lines n st"
  shows "io_hist A pf dbg lines (Suc n) st'"
proof -
  from l obtain st1 st2 where a: "(if file_writes A then track_file_write st (lines ! n) else Inr st) = Inr st1"
    and b: "(if blocks_arg A then track_block pf st1 (lines ! n) else Inr st1) = Inr st2"
    and c: "st' = st2\<lparr>cnt := cnt st2 + 1\<rparr>"
    by (rule loop_body_cases)
  have "same_io_fields st1 st2"
  proof (cases "blocks_arg A")
    case True
    with b have "track_block pf st1 (lines ! n) = Inr st2" by simp
    from track_block_fields(1)[OF this] show ?thesis .
  next
    case False
    with b show ?thesis by (simp add: same_io_fields_def)
  qed
  then have e: "heap_io st' = heap_io st1" "fileIOs st' = fileIOs st1"
    "write_flag st' = write_flag st1" "fileIO st' = fileIO st1"
    unfolding c by (simp_all add: same_io_fields_def)
  show ?thesis
  proof (cases "file_writes A")
    case True
    with a have t: "track_file_write st (lines ! n) = Inr st1" by simp
    from pass_prefix_io_inv[OF p] have r: "io_refs st" and w: "io_working (take n lines) st"
      unfolding io_inv_def by simp_all
    from track_file_write_hist[OF p p' nl t e h r w] show ?thesis .
  next
    case False
    with a have "st1 = st" by simp
    with e show ?thesis using io_hist_same[OF h p p'] by simp
  qed
qed

lemma pass_prefix_io_hist:
  assumes "pass_prefix A pf dbg lines n = Inr st"
  shows "io_hist A pf dbg lines n st"
  using assms
proof (induction n arbitrary: st)
  case 0
  then obtain s0 where c: "compute_sim_parameters (FLASHLogStats_init dbg) lines = Inr s0"
    and l: "read_loop A pf (init_locals s0) (take 0 lines) = Inr st"
    by (rule pass_prefix_cases)
  from l have s: "st = init_locals s0" by simp
  have "fileIOs st = []" "\<not> write_flag st"
    unfolding s using compute_sim_parameters_init(1)[OF c] by (simp_all add: init_locals_def)
  moreover have "flags_at A pf dbg lines 0 a \<noteq> None \<longrightarrow> a < length (heap_io st)" for a
    unfolding flags_at_state[OF 0] by (simp add: flags_def)
  ultimately show ?case unfolding io_hist_def by simp
next
  case (Suc n)
  show ?case
  proof (cases "n < length lines")
    case True
    from Suc.prems True obtain s where p: "pass_prefix A pf dbg lines n = Inr s"
      and l: "loop_body A pf s (lines ! n) = Inr st"
      by (rule pass_prefix_Suc)
    from loop_body_hist[OF p Suc.prems True l Suc.IH[OF p]] show ?thesis .
  next
    case False
    then have tk: "take (Suc n) lines = take n lines" by simp
    have "pass_prefix A pf dbg lines (Suc n) = pass_prefix A pf dbg lines n"
      unfolding pass_prefix_def tk ..
    with Suc.prems have p: "pass_prefix A pf dbg lines n = Inr st" by simp
    show ?thesis by (rule io_hist_same[OF Suc.IH[OF p] p Suc.prems]) simp_all
  qed
qed

section \<open>The file-write tracker: the claims\<close>

lemma call_flags: "\<not> (open_io f \<and> close_io f) \<Longrightarrow> \<not> (open_io (call c f) \<and> close_io (call c f))"
  by (cases c) (auto simp: open_file_def close_file_def empty_io_def Let_def)

lemma fold_call_flags:
  "\<not> (open_io f \<and> close_io f) \<Longrightarrow> \<not> (open_io (fold call cs f) \<and> close_io (fold call cs f))"
proof (induction cs arbitrary: f)
  case Nil
  then show ?case by simp
next
  case (Cons c cs)
  from Cons.IH[OF call_flags[OF Cons.prems, of c]] show ?case by simp
qed

lemma closed_event_flags [simp]:
  "close_io (closed_event k t0 t1 kind n)" "\<not> open_io (closed_event k t0 t1 kind n)"
  by (simp_all add: closed_event_def)

lemma stored_event_flags:
  assumes "io_stored pre st" and "(k, a) \<in> set (fileIOs st)"
  shows "close_io (heap_io st ! a) \<and> \<not> open_io (heap_io st ! a)"
proof -
  from assms obtain t0 t1 kind n where "heap_io st ! a = closed_event k t0 t1 kind n"
    unfolding io_stored_def by fastforce
  then show ?thesis by simp
qed

lemma tracked_event_flags:
  assumes "io_working pre st" and "write_flag st" and "fileIO st = Some a"
  shows "\<not> close_io (heap_io st ! a)"
  using assms by (cases rule: io_working_elim) simp_all

text \<open>
  Claim C8. From a new event object, no sequence of calls of \<^verbatim>\<open>open_file\<close>, \<^verbatim>\<open>close_file\<close>
  (and \<^verbatim>\<open>empty\<close>) makes both flags true. At every point of the pass of \<^verbatim>\<open>main\<close> over a
  file, an event object has \<^verbatim>\<open>close\<close> set exactly when it is in the result store, and a
  stored event has \<^verbatim>\<open>open\<close> unset. Every event in the result store went from open to
  closed exactly once: there are an open marker at line \<open>i\<close> and a close marker at a later
  line \<open>j\<close> such that the object was absent or new (both flags unset) until line \<open>i\<close> was
  read, had \<^verbatim>\<open>open\<close> set and \<^verbatim>\<open>close\<close> unset after each of the lines \<open>i\<close>, ..., \<open>j - 1\<close> (so
  it was open when line \<open>j\<close> was read), and has had \<^verbatim>\<open>close\<close> set and \<^verbatim>\<open>open\<close> unset after
  every line since \<open>j\<close>.
\<close>

theorem C8_event_flags:
  "(\<forall>cs wid. \<not> (open_io (fold call cs (FLASHLogFileIO_init wid))
              \<and> close_io (fold call cs (FLASHLogFileIO_init wid))))
   \<and> (\<forall>A pf dbg lines n st. pass_prefix A pf dbg lines n = Inr st \<longrightarrow>
        (\<forall>a < length (heap_io st).
           \<not> (open_io (heap_io st ! a) \<and> close_io (heap_io st ! a))
           \<and> (close_io (heap_io st ! a) \<longleftrightarrow> a \<in> snd ` set (fileIOs st))))
   \<and> (\<forall>A pf dbg lines st. main_file A pf dbg lines = Inr st \<longrightarrow>
        (\<forall>(k, a) \<in> set (fileIOs st). close_io (heap_io st ! a) \<and> \<not> open_io (heap_io st ! a)))
   \<and> (\<forall>A pf dbg lines n st. pass_prefix A pf dbg lines n = Inr st \<longrightarrow>
        (\<forall>(k, a) \<in> set (fileIOs st).
           \<exists>i j. i < j \<and> j < n \<and> closed_once A pf dbg lines n a i j
             \<and> flags_at A pf dbg lines j a = Some (True, False)
             \<and> flags_at A pf dbg lines (Suc j) a = Some (False, True)
             \<and> flags_at A pf dbg lines n a = Some (False, True)))
   \<and> (\<forall>A pf dbg lines st. main_file A pf dbg lines = Inr st \<longrightarrow>
        (\<forall>(k, a) \<in> set (fileIOs st).
           \<exists>i j. i < j \<and> j < length lines \<and> closed_once A pf dbg lines (length lines) a i j
             \<and> flags_at A pf dbg lines j a = Some (True, False)
             \<and> flags_at A pf dbg lines (Suc j) a = Some (False, True)))"
proof -
  have 1: "\<not> (open_io (fold call cs (FLASHLogFileIO_init wid))
              \<and> close_io (fold call cs (FLASHLogFileIO_init wid)))" for cs wid
    by (rule fold_call_flags) simp
  have 2: "\<not> (open_io (heap_io st ! a) \<and> close_io (heap_io st ! a))
           \<and> (close_io (heap_io st ! a) \<longleftrightarrow> a \<in> snd ` set (fileIOs st))"
    if p: "pass_prefix A pf dbg lines n = Inr st" and a: "a < length (heap_io st)"
    for A pf dbg lines n st a
  proof -
    from pass_prefix_io_inv[OF p] have h: "io_heap st" and w: "io_working (take n lines) st"
      and s: "io_stored (take n lines) st" and r: "io_refs st"
      unfolding io_inv_def by simp_all
    show ?thesis
    proof (cases "a \<in> snd ` set (fileIOs st)")
      case True
      then obtain k where "(k, a) \<in> set (fileIOs st)" by force
      from stored_event_flags[OF s this] True show ?thesis by simp
    next
      case False
      with h a have "write_flag st" "fileIO st = Some a" unfolding io_heap_def by auto
      from tracked_event_flags[OF w this] False show ?thesis by simp
    qed
  qed
  have 3: "\<forall>(k, a) \<in> set (fileIOs st). close_io (heap_io st ! a) \<and> \<not> open_io (heap_io st ! a)"
    if m: "main_file A pf dbg lines = Inr st" for A pf dbg lines st
  proof -
    from pass_prefix_io_inv[OF main_file_pass_prefix[OF m]]
    have s: "io_stored (take (length lines) lines) st" unfolding io_inv_def by simp
    from stored_event_flags[OF s] show ?thesis by auto
  qed
  have 4: "\<forall>(k, a) \<in> set (fileIOs st).
           \<exists>i j. i < j \<and> j < n \<and> closed_once A pf dbg lines n a i j
             \<and> flags_at A pf dbg lines j a = Some (True, False)
             \<and> flags_at A pf dbg lines (Suc j) a = Some (False, True)
             \<and> flags_at A pf dbg lines n a = Some (False, True)"
    if p: "pass_prefix A pf dbg lines n = Inr st" for A pf dbg lines n st
  proof -
    have "i < j \<and> j < n \<and> closed_once A pf dbg lines n a i j
             \<and> flags_at A pf dbg lines j a = Some (True, False)
             \<and> flags_at A pf dbg lines (Suc j) a = Some (False, True)
             \<and> flags_at A pf dbg lines n a = Some (False, True)"
      if c: "closed_once A pf dbg lines n a i j" for a i j
    proof -
      from c have o: "open_since A pf dbg lines j a i" and jn: "j < n"
        and l: "\<And>m. j < m \<and> m \<le> n \<Longrightarrow> flags_at A pf dbg lines m a = Some (False, True)"
        unfolding closed_once_def by simp_all
      from o have "i < j" unfolding open_since_def by simp
      with c jn open_since_last[OF o] l[of "Suc j"] closed_once_last[OF c] show ?thesis by simp
    qed
    with pass_prefix_io_hist[OF p] show ?thesis unfolding io_hist_def by blast
  qed
  have 5: "\<forall>(k, a) \<in> set (fileIOs st).
           \<exists>i j. i < j \<and> j < length lines \<and> closed_once A pf dbg lines (length lines) a i j
             \<and> flags_at A pf dbg lines j a = Some (True, False)
             \<and> flags_at A pf dbg lines (Suc j) a = Some (False, True)"
    if m: "main_file A pf dbg lines = Inr st" for A pf dbg lines st
    using 4[OF main_file_pass_prefix[OF m]] by blast
  from 1 2 3 4 5 show ?thesis by blast
qed

lemma read_loop_fail:
  assumes "read_loop A pf st (take n ls) = Inr s1" and "n < length ls"
    and "loop_body A pf s1 (ls ! n) = Inl e"
  shows "read_loop A pf st ls = Inl e"
proof -
  have "ls = take n ls @ (ls ! n) # drop (Suc n) ls"
    using assms(2) by (simp add: id_take_nth_drop)
  then have "read_loop A pf st ls = read_loop A pf st (take n ls @ (ls ! n) # drop (Suc n) ls)"
    by simp
  also have "\<dots> = Inl e" unfolding read_loop_append using assms(1,3) by simp
  finally show ?thesis .
qed

lemma main_file_read_loop:
  assumes "compute_sim_parameters (FLASHLogStats_init dbg) lines = Inr s0"
  shows "main_file A pf dbg lines = read_loop A pf (init_locals s0) lines"
  using assms compute_sim_parameters_init(8)[OF assms]
  by (auto simp: main_file_def deconstruct_log_file_def)

lemma orphan_close_raises:
  assumes "line_wall_time line = Inr t" and "\<not> re_search ''open:'' line"
    and "re_search ''close:'' line"
  shows "search_file_write_stats dbg line (FLASHLogFileIO_init k) = Inl TypeError"
  using assms
  by (simp add: search_file_write_stats_def close_file_def FLASHLogFileIO_init_def)

text \<open>No marker line so far: the tracker has not started.\<close>

lemma no_marker_idle:
  assumes "read_loop A pf st ls = Inr st'" and "\<not> write_flag st"
    and "\<forall>l \<in> set ls. \<not> is_marker l"
  shows "\<not> write_flag st'"
  using assms
proof (induction ls arbitrary: st)
  case Nil
  then show ?case by simp
next
  case (Cons l ls)
  from Cons.prems(1) obtain s1 where a: "loop_body A pf st l = Inr s1"
    and b: "read_loop A pf s1 ls = Inr st'"
    by (auto split: sum.splits)
  from a obtain st1 st2 where x: "(if file_writes A then track_file_write st l else Inr st) = Inr st1"
    and y: "(if blocks_arg A then track_block pf st1 l else Inr st1) = Inr st2"
    and z: "s1 = st2\<lparr>cnt := cnt st2 + 1\<rparr>"
    by (rule loop_body_cases)
  from Cons.prems(3) have nm: "\<not> is_marker l" by simp
  have "st1 = st" using x nm
    by (cases "file_writes A") (auto simp: track_file_write_def is_marker_def)
  moreover have "write_flag st2 = write_flag st1"
    using y track_block_fields(1)[of pf st1 l st2]
    by (cases "blocks_arg A") (auto simp: same_io_fields_def)
  ultimately have "\<not> write_flag s1" using Cons.prems(2) z by simp
  from Cons.IH[OF b this] Cons.prems(3) show ?case by simp
qed

text \<open>
  Claim C9. A file whose first marker line (line \<open>n\<close>, counted from 0) takes the branch
  of \<^verbatim>\<open>close:\<close>: when the pass reaches that line with file writes tracked, the tracker
  creates a new event, \<^verbatim>\<open>search_file_write_stats\<close> raises TypeError on the subtraction
  from the event's integer \<^verbatim>\<open>wall_time\<close>, and \<^verbatim>\<open>main\<close> ends with that TypeError.
\<close>

theorem C9_orphan_close_type_error:
  assumes "file_writes A" and "n < length lines" and "close_at lines n t"
    and "\<forall>m < n. \<not> is_marker (lines ! m)"
    and "pass_prefix A pf dbg lines n = Inr st"
  shows "\<not> write_flag st
       \<and> search_file_write_stats (debug st) (lines ! n) (FLASHLogFileIO_init (IO_id_counter st))
           = Inl TypeError
       \<and> main_file A pf dbg lines = Inl TypeError"
proof -
  from assms(5) obtain s0 where c: "compute_sim_parameters (FLASHLogStats_init dbg) lines = Inr s0"
    and l: "read_loop A pf (init_locals s0) (take n lines) = Inr st"
    by (rule pass_prefix_cases)
  have "\<forall>l \<in> set (take n lines). \<not> is_marker l"
    using assms(2,4) by (auto simp: in_set_conv_nth)
  from no_marker_idle[OF l _ this] have w: "\<not> write_flag st" by (simp add: init_locals_def)
  from assms(3) have ca: "is_marker (lines ! n)" "\<not> re_search ''open:'' (lines ! n)"
    "re_search ''close:'' (lines ! n)" "line_wall_time (lines ! n) = Inr t"
    by (simp_all add: close_at_def)
  note o = orphan_close_raises[OF ca(4,2,3)]
  have "track_file_write st (lines ! n) = Inl TypeError"
    using ca(1) w o[of "debug st" "IO_id_counter st"]
    by (simp add: track_file_write_def is_marker_def)
  then have "loop_body A pf st (lines ! n) = Inl TypeError"
    using assms(1) by (simp add: loop_body_def)
  from read_loop_fail[OF l assms(2) this] main_file_read_loop[OF c] w o
  show ?thesis by simp
qed

lemma open_line_fresh:
  assumes "line_wall_time line = Inr t" and "re_search ''open:'' line"
  shows "search_file_write_stats dbg line (FLASHLogFileIO_init k) = Inr (opened_event k t)"
  using assms by (simp add: search_file_write_stats_def)

lemma track_file_write_reopen:
  assumes t: "track_file_write st line = Inr st1" and w: "write_flag st"
    and m: "is_marker line" and o: "re_search ''open:'' line"
    and i: "io_working pre st"
  shows "\<exists>a tm. fileIO st = Some a \<and> a < length (heap_io st) \<and> line_wall_time line = Inr tm
           \<and> st1 = st\<lparr>heap_io := (heap_io st)[a := opened_event (IO_id_counter st) tm]\<rparr>"
  using t
proof (cases rule: track_file_write_cases)
  case skip
  then show ?thesis using m by simp
next
  case (new f)
  then show ?thesis using w by simp
next
  case (update a f)
  have "\<exists>tm. line_wall_time line = Inr tm \<and> f = opened_event (IO_id_counter st) tm"
    using i w update(3)
  proof (cases rule: io_working_elim)
    case fresh
    note u5 = update(5)[unfolded fresh]
    show ?thesis using u5 is_fresh[of "IO_id_counter st" 0]
      by (cases rule: search_tracked_event) (use o in auto)
  next
    case (opened j t0)
    note u5 = update(5)[unfolded opened(3)]
    show ?thesis using u5 is_opened[of "IO_id_counter st" t0]
      by (cases rule: search_tracked_event) (use o in auto)
  qed
  then show ?thesis using update(3,4,7) by auto
next
  case (store a f wv n)
  have "\<not> close_io f"
    using i w store(3)
  proof (cases rule: io_working_elim)
    case fresh
    note u5 = store(5)[unfolded fresh]
    show ?thesis using u5 is_fresh[of "IO_id_counter st" 0]
      by (cases rule: search_tracked_event) (use o in auto)
  next
    case (opened j t0)
    note u5 = store(5)[unfolded opened(3)]
    show ?thesis using u5 is_opened[of "IO_id_counter st" t0]
      by (cases rule: search_tracked_event) (use o in auto)
  qed
  then show ?thesis using store(6) by simp
qed

text \<open>
  Claim C3. A marker line with \<^verbatim>\<open>open:\<close> that the pass of \<^verbatim>\<open>main\<close> reads (as line \<open>n\<close>,
  counted from 0) while the tracker awaits a close: the result store and the event
  counter are as before, the tracker still awaits a close, and the event it tracks has
  exactly the value that a new event takes on this line, opened at the time of this
  line; nothing of the earlier event is left. At the end of the pass every stored event
  is the closed event of one open marker and of one close marker after it, with no
  marker line with \<^verbatim>\<open>open:\<close> or \<^verbatim>\<open>close:\<close> between the two: the last open before the
  close.
\<close>

theorem C3_reopen_discards_earlier_event:
  "(\<forall>A pf dbg lines n st st'.
       pass_prefix A pf dbg lines n = Inr st \<and> file_writes A \<and> write_flag st
       \<and> n < length lines \<and> is_marker (lines ! n) \<and> re_search ''open:'' (lines ! n)
       \<and> pass_prefix A pf dbg lines (Suc n) = Inr st'
       \<longrightarrow> fileIOs st' = fileIOs st \<and> IO_id_counter st' = IO_id_counter st
           \<and> write_flag st' \<and> fileIO st' = fileIO st
           \<and> (\<exists>a t. fileIO st' = Some a \<and> line_wall_time (lines ! n) = Inr t
                 \<and> heap_io st' ! a = opened_event (IO_id_counter st) t
                 \<and> search_file_write_stats (debug st) (lines ! n)
                       (FLASHLogFileIO_init (IO_id_counter st)) = Inr (heap_io st' ! a)))
   \<and> (\<forall>A pf dbg lines st. main_file A pf dbg lines = Inr st \<longrightarrow> io_stored lines st)"
proof -
  have 1: "fileIOs st' = fileIOs st \<and> IO_id_counter st' = IO_id_counter st
           \<and> write_flag st' \<and> fileIO st' = fileIO st
           \<and> (\<exists>a t. fileIO st' = Some a \<and> line_wall_time (lines ! n) = Inr t
                 \<and> heap_io st' ! a = opened_event (IO_id_counter st) t
                 \<and> search_file_write_stats (debug st) (lines ! n)
                       (FLASHLogFileIO_init (IO_id_counter st)) = Inr (heap_io st' ! a))"
    if p: "pass_prefix A pf dbg lines n = Inr st" and fw: "file_writes A" and w: "write_flag st"
      and n: "n < length lines" and m: "is_marker (lines ! n)"
      and o: "re_search ''open:'' (lines ! n)"
      and p': "pass_prefix A pf dbg lines (Suc n) = Inr st'"
    for A pf dbg lines n st st'
  proof -
    from p' n obtain s where ps: "pass_prefix A pf dbg lines n = Inr s"
      and lb: "loop_body A pf s (lines ! n) = Inr st'"
      by (rule pass_prefix_Suc)
    from ps p have e: "s = st" by simp
    from lb[unfolded e] obtain st1 st2 where
      a: "(if file_writes A then track_file_write st (lines ! n) else Inr st) = Inr st1"
      and b: "(if blocks_arg A then track_block pf st1 (lines ! n) else Inr st1) = Inr st2"
      and c: "st' = st2\<lparr>cnt := cnt st2 + 1\<rparr>"
      by (rule loop_body_cases)
    from a fw have t: "track_file_write st (lines ! n) = Inr st1" by simp
    from pass_prefix_io_inv[OF p] have iw: "io_working (take n lines) st"
      unfolding io_inv_def by simp
    from track_file_write_reopen[OF t w m o iw] obtain a tm where
      f: "fileIO st = Some a" "a < length (heap_io st)" "line_wall_time (lines ! n) = Inr tm"
      and s1: "st1 = st\<lparr>heap_io := (heap_io st)[a := opened_event (IO_id_counter st) tm]\<rparr>"
      by blast
    have 2: "same_io_fields st1 st2"
      using b track_block_fields(1)[of pf st1 "lines ! n" st2]
      by (cases "blocks_arg A") (auto simp: same_io_fields_def)
    have sel: "fileIOs st' = fileIOs st" "IO_id_counter st' = IO_id_counter st"
      "write_flag st' = write_flag st" "fileIO st' = fileIO st"
      "heap_io st' = (heap_io st)[a := opened_event (IO_id_counter st) tm]"
      using 2 unfolding c s1 same_io_fields_def by simp_all
    have "heap_io st' ! a = opened_event (IO_id_counter st) tm" unfolding sel using f(2) by simp
    then show ?thesis using sel w f open_line_fresh[OF f(3) o] by simp
  qed
  have 2: "io_stored lines st" if m: "main_file A pf dbg lines = Inr st" for A pf dbg lines st
    using pass_prefix_io_inv[OF main_file_pass_prefix[OF m]] by (simp add: io_inv_def)
  from 1 2 show ?thesis by blast
qed

section \<open>The block tracker: what is accumulated and what is stored\<close>

lemma search_walltime_None: "search_walltime pf line = Inr None \<longleftrightarrow> \<not> has_step line"
  by (auto simp: search_walltime_def split: sum.splits option.splits)

lemma search_walltime_Some: "search_walltime pf line = Inr (Some p) \<Longrightarrow> has_step line"
  by (auto simp: search_walltime_def split: if_splits)

lemma steps_at_snoc: "steps_at pf pre s wl dl \<Longrightarrow> steps_at pf (pre @ [l]) s wl dl"
  by (auto simp: steps_at_def nth_append)

lemma steps_at_start: "steps_at pf pre s wl dl \<Longrightarrow> s = 1 \<or> \<not> has_step (pre ! nat (s - 2))"
  by (simp add: steps_at_def)

lemma steps_at_more:
  assumes "steps_at pf pre s wl dl" and "s + int (length wl) = int (length pre) + 1"
    and "search_walltime pf l = Inr (Some (wt, d))"
  shows "steps_at pf (pre @ [l]) s (wl @ [wt]) (dl @ [d])"
proof -
  from assms(1) have s1: "1 \<le> s" and len: "length dl = length wl"
    and st: "s = 1 \<or> \<not> has_step (pre ! nat (s - 2))"
    and old: "\<And>i. i < length wl \<Longrightarrow> search_walltime pf (pre ! (nat (s - 1) + i)) = Inr (Some (wl ! i, dl ! i))"
    unfolding steps_at_def by auto
  from assms(2) s1 have e: "nat (s - 1) + length wl = length pre" by linarith
  have "search_walltime pf ((pre @ [l]) ! (nat (s - 1) + i)) = Inr (Some ((wl @ [wt]) ! i, (dl @ [d]) ! i))"
    if "i < length (wl @ [wt])" for i
  proof (cases "i < length wl")
    case True
    with e have "nat (s - 1) + i < length pre" by simp
    with old[OF True] True len show ?thesis by (simp add: nth_append)
  next
    case False
    with that have i: "i = length wl" by simp
    show ?thesis unfolding i e using assms(3) len by (simp add: nth_append)
  qed
  moreover have "s = 1 \<or> \<not> has_step ((pre @ [l]) ! nat (s - 2))"
  proof (cases "s = 1")
    case False
    with s1 e have "nat (s - 2) < length pre" by linarith
    with st False show ?thesis by (simp add: nth_append)
  qed simp
  ultimately show ?thesis unfolding steps_at_def using s1 len e by simp
qed

lemma steps_at_first:
  assumes "search_walltime pf l = Inr (Some (wt, d))" and "pre \<noteq> [] \<longrightarrow> \<not> has_step (last pre)"
  shows "steps_at pf (pre @ [l]) (int (length pre) + 1) [wt] [d]"
proof (cases "pre = []")
  case True
  then show ?thesis using assms(1) by (simp add: steps_at_def)
next
  case False
  then have "nat (int (length pre) + 1 - 2) = length pre - 1" "length pre - 1 < length pre"
    by simp_all
  then have "(pre @ [l]) ! nat (int (length pre) + 1 - 2) = last pre"
    using False by (simp add: nth_append last_conv_nth)
  then show ?thesis using assms False by (simp add: steps_at_def)
qed

lemma stored_block_refs [simp]:
  "wall_time (stored_block k s wl wa da nc ncb) = WallTimeListRef wa"
  "dt (stored_block k s wl wa da nc ncb) = DtListRef da"
  by (simp_all add: stored_block_def)

lemma blk_stored_transfer:
  assumes st: "blk_stored pf pre st" and r: "blk_refs st" and m: "(k, b) \<in> set (blocks st)"
    and hb: "heap_block st' ! b = heap_block st ! b"
    and hw: "\<And>wa. wa < wall_time_list st \<Longrightarrow> heap_wall_time st' ! wa = heap_wall_time st ! wa"
    and hd: "\<And>da. da < dt_list st \<Longrightarrow> heap_dt st' ! da = heap_dt st ! da"
    and pc: "n_cores st' = n_cores st" "n_cells_per_block st' = n_cells_per_block st"
  shows "\<exists>s wa da nc ncb.
          heap_wall_time st' ! wa \<noteq> [] \<and> n_cores st' = Some nc \<and> n_cells_per_block st' = Some ncb
          \<and> heap_block st' ! b = stored_block k s (heap_wall_time st' ! wa) wa da nc ncb
          \<and> steps_at pf (pre @ [l]) s (heap_wall_time st' ! wa) (heap_dt st' ! da)
          \<and> nat (s - 1) + length (heap_wall_time st' ! wa) < length (pre @ [l])
          \<and> \<not> has_step ((pre @ [l]) ! (nat (s - 1) + length (heap_wall_time st' ! wa)))"
proof -
  from st m obtain s wa da nc ncb where h:
    "heap_wall_time st ! wa \<noteq> []" "n_cores st = Some nc" "n_cells_per_block st = Some ncb"
    "heap_block st ! b = stored_block k s (heap_wall_time st ! wa) wa da nc ncb"
    "steps_at pf pre s (heap_wall_time st ! wa) (heap_dt st ! da)"
    "nat (s - 1) + length (heap_wall_time st ! wa) < length pre"
    "\<not> has_step (pre ! (nat (s - 1) + length (heap_wall_time st ! wa)))"
    unfolding blk_stored_def by fastforce
  from r m obtain wa' da' where "wall_time (heap_block st ! b) = WallTimeListRef wa'"
    "wa' < wall_time_list st" "dt (heap_block st ! b) = DtListRef da'" "da' < dt_list st"
    unfolding blk_refs_def by fastforce
  with h(4) have lt: "wa < wall_time_list st" "da < dt_list st" by simp_all
  note e = hw[OF lt(1)] hd[OF lt(2)]
  have "heap_wall_time st' ! wa \<noteq> [] \<and> n_cores st' = Some nc \<and> n_cells_per_block st' = Some ncb
          \<and> heap_block st' ! b = stored_block k s (heap_wall_time st' ! wa) wa da nc ncb
          \<and> steps_at pf (pre @ [l]) s (heap_wall_time st' ! wa) (heap_dt st' ! da)
          \<and> nat (s - 1) + length (heap_wall_time st' ! wa) < length (pre @ [l])
          \<and> \<not> has_step ((pre @ [l]) ! (nat (s - 1) + length (heap_wall_time st' ! wa)))"
    unfolding e hb pc using h steps_at_snoc[OF h(5), of l] by (simp add: nth_append)
  then show ?thesis by blast
qed

lemma blk_stored_snoc_same:
  assumes st: "blk_stored pf pre st" and r: "blk_refs st" and b: "blocks st' = blocks st"
    and hb: "\<And>k b. (k, b) \<in> set (blocks st) \<Longrightarrow> heap_block st' ! b = heap_block st ! b"
    and hw: "\<And>wa. wa < wall_time_list st \<Longrightarrow> heap_wall_time st' ! wa = heap_wall_time st ! wa"
    and hd: "\<And>da. da < dt_list st \<Longrightarrow> heap_dt st' ! da = heap_dt st ! da"
    and pc: "n_cores st' = n_cores st" "n_cells_per_block st' = n_cells_per_block st"
  shows "blk_stored pf (pre @ [l]) st'"
  unfolding blk_stored_def
proof (intro ballI)
  fix x assume x: "x \<in> set (blocks st')"
  obtain k b' where kb: "x = (k, b')" by (cases x)
  from x kb b have m: "(k, b') \<in> set (blocks st)" by simp
  from blk_stored_transfer[OF st r m hb[OF m] hw hd pc, of l]
  show "case x of (k, b) \<Rightarrow> \<exists>s wa da nc ncb.
          heap_wall_time st' ! wa \<noteq> [] \<and> n_cores st' = Some nc \<and> n_cells_per_block st' = Some ncb
          \<and> heap_block st' ! b = stored_block k s (heap_wall_time st' ! wa) wa da nc ncb
          \<and> steps_at pf (pre @ [l]) s (heap_wall_time st' ! wa) (heap_dt st' ! da)
          \<and> nat (s - 1) + length (heap_wall_time st' ! wa) < length (pre @ [l])
          \<and> \<not> has_step ((pre @ [l]) ! (nat (s - 1) + length (heap_wall_time st' ! wa)))"
    unfolding kb by simp
qed

lemma new_block_start [simp]:
  "start_date (new_block k wt s) = PyDatetime wt" "start_line (new_block k wt s) = s"
  by (simp_all add: new_block_def)

lemma track_block_inv:
  assumes t: "track_block pf st line = Inr st'" and r: "blk_refs st"
    and c: "cnt st = int (length pre) + 1"
    and o: "blk_open pf pre st" and s: "blk_stored pf pre st"
    and lp: "pre \<noteq> [] \<longrightarrow> chunk st = has_step (last pre)"
  shows "blk_open pf (pre @ [line]) st' \<and> blk_stored pf (pre @ [line]) st'
         \<and> chunk st' = has_step line
         \<and> (chunk st \<and> \<not> has_step line \<longrightarrow>
               (\<exists>k b. (k, b) \<in> set (blocks st')
                  \<and> end_line (heap_block st' ! b) = int (length pre)))"
  using t
proof (cases rule: track_block_cases)
  case idle
  have "blk_open pf (pre @ [line]) st'" using o idle(2) unfolding idle(3) blk_open_def by simp
  moreover have "blk_stored pf (pre @ [line]) st'"
    unfolding idle(3) by (rule blk_stored_snoc_same[OF s r]) simp_all
  moreover have "chunk st' = has_step line"
    using idle(1,2) unfolding idle(3) by (simp add: search_walltime_None)
  ultimately show ?thesis using idle(2) by simp
next
  case (first wt d)
  from o first(2) have em: "heap_wall_time st ! wall_time_list st = []"
    "heap_dt st ! dt_list st = []" unfolding blk_open_def by simp_all
  have sel: "chunk st' = True" "block st' = Some (length (heap_block st))"
    "heap_block st' = heap_block st @ [new_block (block_id_counter st) wt (cnt st)]"
    "heap_wall_time st' = (heap_wall_time st)[wall_time_list st := [wt]]"
    "heap_dt st' = (heap_dt st)[dt_list st := [d]]"
    "wall_time_list st' = wall_time_list st" "dt_list st' = dt_list st"
    "block_id_counter st' = block_id_counter st" "blocks st' = blocks st"
    "n_cores st' = n_cores st" "n_cells_per_block st' = n_cells_per_block st"
    unfolding first(5) em by simp_all
  have "blk_open pf (pre @ [line]) st'"
    unfolding blk_open_def sel using first(2,3,4) steps_at_first[OF first(1), of pre] c lp
    by (simp add: add.commute)
  moreover have "blk_stored pf (pre @ [line]) st'"
  proof (rule blk_stored_snoc_same[OF s r sel(9) _ _ _ sel(10,11)])
    fix k b assume "(k, b) \<in> set (blocks st)"
    with r have "b < length (heap_block st)" unfolding blk_refs_def by auto
    then show "heap_block st' ! b = heap_block st ! b" unfolding sel by (simp add: nth_append)
  next
    fix wa assume "wa < wall_time_list st"
    then show "heap_wall_time st' ! wa = heap_wall_time st ! wa" unfolding sel by simp
  next
    fix da assume "da < dt_list st"
    then show "heap_dt st' ! da = heap_dt st ! da" unfolding sel by simp
  qed
  moreover have "chunk st' = has_step line" "has_step line"
    using search_walltime_Some[OF first(1)] sel by simp_all
  ultimately show ?thesis by simp
next
  case (more wt d)
  from o more(2) obtain b s0 where ob: "block st = Some b"
    "heap_wall_time st ! wall_time_list st \<noteq> []"
    "heap_block st ! b
       = new_block (block_id_counter st) (hd (heap_wall_time st ! wall_time_list st)) s0"
    "s0 + int (length (heap_wall_time st ! wall_time_list st)) = int (length pre) + 1"
    "steps_at pf pre s0 (heap_wall_time st ! wall_time_list st) (heap_dt st ! dt_list st)"
    unfolding blk_open_def by auto
  have sel: "chunk st' = True" "block st' = block st" "heap_block st' = heap_block st"
    "heap_wall_time st' = (heap_wall_time st)
        [wall_time_list st := heap_wall_time st ! wall_time_list st @ [wt]]"
    "heap_dt st' = (heap_dt st)[dt_list st := heap_dt st ! dt_list st @ [d]]"
    "wall_time_list st' = wall_time_list st" "dt_list st' = dt_list st"
    "block_id_counter st' = block_id_counter st" "blocks st' = blocks st"
    "n_cores st' = n_cores st" "n_cells_per_block st' = n_cells_per_block st"
    unfolding more(5) using more(2) by simp_all
  have "blk_open pf (pre @ [line]) st'"
    unfolding blk_open_def sel
    using more(3,4) ob steps_at_more[OF ob(5,4) more(1)] by auto
  moreover have "blk_stored pf (pre @ [line]) st'"
  proof (rule blk_stored_snoc_same[OF s r sel(9) _ _ _ sel(10,11)])
    fix k b assume "(k, b) \<in> set (blocks st)"
    show "heap_block st' ! b = heap_block st ! b" unfolding sel by simp
  next
    fix wa assume "wa < wall_time_list st"
    then show "heap_wall_time st' ! wa = heap_wall_time st ! wa" unfolding sel by simp
  next
    fix da assume "da < dt_list st"
    then show "heap_dt st' ! da = heap_dt st ! da" unfolding sel by simp
  qed
  moreover have "chunk st' = has_step line" "has_step line"
    using search_walltime_Some[OF more(1)] sel by simp_all
  ultimately show ?thesis by simp
next
  case (finish b st1)
  define wl where "wl = heap_wall_time st ! wall_time_list st"
  from o finish(2,3) obtain s0 where ob: "wl \<noteq> []"
    "heap_block st ! b = new_block (block_id_counter st) (hd wl) s0"
    "s0 + int (length wl) = int (length pre) + 1"
    "steps_at pf pre s0 wl (heap_dt st ! dt_list st)"
    unfolding blk_open_def wl_def by auto
  from finish(4) obtain sd nc ncb where bl: "b < length (heap_block st)"
    and wlt: "wall_time_list st < length (heap_wall_time st)"
    and sd: "start_date (heap_block st ! b) = PyDatetime sd"
    and nc: "n_cores st = Some nc" and ncb: "n_cells_per_block st = Some ncb"
    and s1: "st1 = st\<lparr>heap_block := (heap_block st)
                    [b := finalized_block (heap_block st ! b) wl
                            (wall_time_list st) (dt_list st) (cnt st) sd nc ncb],
                  blocks := dict_set (block_id_counter st) b (blocks st)\<rparr>"
    unfolding wl_def by (rule process_block_statistics_cases)
  from sd ob(2) have sdv: "sd = hd wl" by simp
  from c ob(3) have cv: "cnt st = s0 + int (length wl)" by simp
  define F where "F = stored_block (block_id_counter st) s0 wl (wall_time_list st) (dt_list st) nc ncb"
  have Fe: "finalized_block (heap_block st ! b) wl (wall_time_list st) (dt_list st) (cnt st) sd nc ncb = F"
    unfolding F_def stored_block_def ob(2) sdv cv by simp
  from r have fresh: "block_id_counter st \<notin> fst ` set (blocks st)" unfolding blk_refs_def by force
  note ds = dict_set_fresh[OF fresh]
  from r have dlt: "dt_list st < length (heap_dt st)" unfolding blk_refs_def by simp
  from r finish(2,3) have nb: "b \<notin> snd ` set (blocks st)" unfolding blk_refs_def by auto
  have sel: "heap_block st' = (heap_block st)[b := F]"
    "blocks st' = blocks st @ [(block_id_counter st, b)]"
    "wall_time_list st' = length (heap_wall_time st)"
    "heap_wall_time st' = heap_wall_time st @ [[]]"
    "dt_list st' = length (heap_dt st)"
    "heap_dt st' = heap_dt st @ [[]]"
    "chunk st' = False"
    "n_cores st' = n_cores st" "n_cells_per_block st' = n_cells_per_block st"
    unfolding finish(5) s1 ds Fe by simp_all
  have hw: "heap_wall_time st' ! wa = heap_wall_time st ! wa" if "wa \<le> wall_time_list st" for wa
    unfolding sel using that wlt by (simp add: nth_append)
  have hd: "heap_dt st' ! da = heap_dt st ! da" if "da \<le> dt_list st" for da
    unfolding sel using that dlt by (simp add: nth_append)
  have "blk_open pf (pre @ [line]) st'" unfolding blk_open_def sel by simp
  moreover have "blk_stored pf (pre @ [line]) st'"
    unfolding blk_stored_def
  proof (intro ballI)
    fix x assume x: "x \<in> set (blocks st')"
    obtain k b' where kb: "x = (k, b')" by (cases x)
    from x kb have "(k, b') \<in> set (blocks st) \<or> (k = block_id_counter st \<and> b' = b)"
      unfolding sel by auto
    then have "\<exists>s wa da nc ncb.
          heap_wall_time st' ! wa \<noteq> [] \<and> n_cores st' = Some nc \<and> n_cells_per_block st' = Some ncb
          \<and> heap_block st' ! b' = stored_block k s (heap_wall_time st' ! wa) wa da nc ncb
          \<and> steps_at pf (pre @ [line]) s (heap_wall_time st' ! wa) (heap_dt st' ! da)
          \<and> nat (s - 1) + length (heap_wall_time st' ! wa) < length (pre @ [line])
          \<and> \<not> has_step ((pre @ [line]) ! (nat (s - 1) + length (heap_wall_time st' ! wa)))"
    proof
      assume m: "(k, b') \<in> set (blocks st)"
      from m nb have "b' \<noteq> b" by (auto dest: stored_neq)
      then have hb: "heap_block st' ! b' = heap_block st ! b'" unfolding sel by simp
      show ?thesis
        by (rule blk_stored_transfer[OF s r m hb _ _ sel(8,9)]) (simp_all add: hw hd)
    next
      assume e: "k = block_id_counter st \<and> b' = b"
      from ob(4) have s1: "1 \<le> s0" by (simp add: steps_at_def)
      with ob(3) have ix: "nat (s0 - 1) + length wl = length pre" by linarith
      have "heap_wall_time st' ! wall_time_list st \<noteq> [] \<and> n_cores st' = Some nc
          \<and> n_cells_per_block st' = Some ncb
          \<and> heap_block st' ! b' = stored_block k s0 (heap_wall_time st' ! wall_time_list st)
                (wall_time_list st) (dt_list st) nc ncb
          \<and> steps_at pf (pre @ [line]) s0 (heap_wall_time st' ! wall_time_list st)
                (heap_dt st' ! dt_list st)
          \<and> nat (s0 - 1) + length (heap_wall_time st' ! wall_time_list st) < length (pre @ [line])
          \<and> \<not> has_step ((pre @ [line]) ! (nat (s0 - 1) + length (heap_wall_time st' ! wall_time_list st)))"
        unfolding hw[OF order_refl] hd[OF order_refl] wl_def[symmetric] ix
        using e ob(1) nc ncb bl steps_at_snoc[OF ob(4), of line] finish(1)
        by (simp add: sel F_def search_walltime_None)
      then show ?thesis by blast
    qed
    then show "case x of (k, b) \<Rightarrow> \<exists>s wa da nc ncb.
          heap_wall_time st' ! wa \<noteq> [] \<and> n_cores st' = Some nc \<and> n_cells_per_block st' = Some ncb
          \<and> heap_block st' ! b = stored_block k s (heap_wall_time st' ! wa) wa da nc ncb
          \<and> steps_at pf (pre @ [line]) s (heap_wall_time st' ! wa) (heap_dt st' ! da)
          \<and> nat (s - 1) + length (heap_wall_time st' ! wa) < length (pre @ [line])
          \<and> \<not> has_step ((pre @ [line]) ! (nat (s - 1) + length (heap_wall_time st' ! wa)))"
      unfolding kb by simp
  qed
  moreover have "chunk st' = has_step line"
    using finish(1) sel by (simp add: search_walltime_None)
  moreover have "\<exists>k b. (k, b) \<in> set (blocks st') \<and> end_line (heap_block st' ! b) = int (length pre)"
  proof -
    have "end_line F = int (length pre)"
      unfolding F_def stored_block_def finalized_block_def using ob(3) by simp
    then have "(block_id_counter st, b) \<in> set (blocks st')
        \<and> end_line (heap_block st' ! b) = int (length pre)"
      unfolding sel using bl by simp
    then show ?thesis by blast
  qed
  ultimately show ?thesis by simp
qed

lemma same_blk_fields_inv:
  assumes "same_blk_fields st st'" and "same_params st st'"
  shows "blk_open pf pre st' = blk_open pf pre st" and "blk_stored pf pre st' = blk_stored pf pre st"
  using assms
  by (simp_all add: same_blk_fields_def same_params_def blk_open_def blk_stored_def)

lemma cnt_update_blk [simp]:
  "blk_open pf pre (st\<lparr>cnt := c\<rparr>) = blk_open pf pre st"
  "blk_stored pf pre (st\<lparr>cnt := c\<rparr>) = blk_stored pf pre st"
  by (simp_all add: blk_open_def blk_stored_def)

lemma loop_body_blk_inv:
  assumes l: "loop_body A pf st line = Inr st'" and i: "blk_inv A pf pre st"
  shows "blk_inv A pf (pre @ [line]) st'
         \<and> (blocks_arg A \<and> chunk st \<and> \<not> has_step line \<longrightarrow>
               (\<exists>k b. (k, b) \<in> set (blocks st')
                  \<and> end_line (heap_block st' ! b) = int (length pre)))"
proof -
  from l obtain st1 st2 where a: "(if file_writes A then track_file_write st line else Inr st) = Inr st1"
    and b: "(if blocks_arg A then track_block pf st1 line else Inr st1) = Inr st2"
    and c: "st' = st2\<lparr>cnt := cnt st2 + 1\<rparr>"
    by (rule loop_body_cases)
  from i have r: "blk_refs st" and cn: "cnt st = int (length pre) + 1"
    and nb: "\<not> blocks_arg A \<longrightarrow> \<not> chunk st"
    and lp: "blocks_arg A \<and> pre \<noteq> [] \<longrightarrow> chunk st = has_step (last pre)"
    and o: "blk_open pf pre st" and s: "blk_stored pf pre st"
    unfolding blk_inv_def by simp_all
  have 1: "same_blk_fields st st1 \<and> same_params st st1 \<and> cnt st1 = cnt st"
  proof (cases "file_writes A")
    case True
    with a have t: "track_file_write st line = Inr st1" by simp
    from track_file_write_fields[OF t] show ?thesis by simp
  next
    case False
    with a show ?thesis by (simp add: same_blk_fields_def same_params_def)
  qed
  then have r1: "blk_refs st1" and cn1: "cnt st1 = int (length pre) + 1"
    and o1: "blk_open pf pre st1" and s1: "blk_stored pf pre st1"
    and ch1: "chunk st1 = chunk st"
    using r cn o s same_blk_fields_refs(1)[of st st1] same_blk_fields_inv[of st st1 pf pre]
    by (simp_all add: same_blk_fields_def)
  have 2: "blk_refs st2 \<and> cnt st2 = cnt st1 \<and> blk_open pf (pre @ [line]) st2
           \<and> blk_stored pf (pre @ [line]) st2
           \<and> (if blocks_arg A then chunk st2 = has_step line else \<not> chunk st2)
           \<and> (blocks_arg A \<and> chunk st \<and> \<not> has_step line \<longrightarrow>
               (\<exists>k b. (k, b) \<in> set (blocks st2)
                  \<and> end_line (heap_block st2 ! b) = int (length pre)))"
  proof (cases "blocks_arg A")
    case True
    with b have t: "track_block pf st1 line = Inr st2" by simp
    from lp True ch1 have lp1: "pre \<noteq> [] \<longrightarrow> chunk st1 = has_step (last pre)" by simp
    from track_block_inv[OF t r1 cn1 o1 s1 lp1] track_block_refs[OF t r1]
      track_block_fields(3)[OF t] True ch1
    show ?thesis by simp
  next
    case False
    with b have e: "st2 = st1" by simp
    from False nb ch1 have nc: "\<not> chunk st1" by simp
    have "blk_stored pf (pre @ [line]) st1" by (rule blk_stored_snoc_same[OF s1 r1]) simp_all
    moreover have "blk_open pf (pre @ [line]) st1" using o1 nc by (simp add: blk_open_def)
    ultimately show ?thesis using r1 nc False unfolding e by simp
  qed
  show ?thesis
    unfolding blk_inv_def c using 2 cn1 by (auto split: if_splits)
qed

lemma init_locals_blk_inv:
  assumes "compute_sim_parameters (FLASHLogStats_init dbg) lines = Inr s0"
  shows "blk_inv A pf [] (init_locals s0)"
  using compute_sim_parameters_init[OF assms]
  by (simp add: blk_inv_def blk_refs_def blk_open_def blk_stored_def init_locals_def)

lemma pass_prefix_blk_inv:
  assumes "pass_prefix A pf dbg lines n = Inr st"
  shows "blk_inv A pf (take n lines) st"
proof -
  from assms obtain s0 where c: "compute_sim_parameters (FLASHLogStats_init dbg) lines = Inr s0"
    and l: "read_loop A pf (init_locals s0) (take n lines) = Inr st"
    by (rule pass_prefix_cases)
  show ?thesis
  proof (rule read_loop_invariant[OF l, where I = "blk_inv A pf"])
    show "blk_inv A pf [] (init_locals s0)" by (rule init_locals_blk_inv[OF c])
  next
    fix pre s l s'
    assume "blk_inv A pf pre s" and "loop_body A pf s l = Inr s'"
    from loop_body_blk_inv[OF this(2,1)] show "blk_inv A pf (pre @ [l]) s'" by simp
  qed
qed

lemma main_file_blk_inv:
  "main_file A pf dbg lines = Inr st \<Longrightarrow> blk_inv A pf lines st"
  using pass_prefix_blk_inv[OF main_file_pass_prefix] by fastforce

section \<open>The block tracker: the claims\<close>

lemma loop_body_blk_complete:
  assumes l: "loop_body A pf st line = Inr st'" and i: "blk_inv A pf pre st"
    and r: "refs_ok st" and ba: "blocks_arg A" and c: "blk_complete pre st"
  shows "blk_complete (pre @ [line]) st'"
  unfolding blk_complete_def
proof (intro allI impI)
  fix e
  assume h: "0 < e \<and> e < length (pre @ [line]) \<and> has_step ((pre @ [line]) ! (e - 1))
             \<and> \<not> has_step ((pre @ [line]) ! e)"
  from loop_body_refs[OF l r] have u: "blk_unchanged st st'"
    by (simp add: stored_unchanged_def)
  show "\<exists>k b. (k, b) \<in> set (blocks st') \<and> end_line (heap_block st' ! b) = int e"
  proof (cases "e < length pre")
    case True
    then have "e - 1 < length pre" by simp
    with h True have "0 < e \<and> e < length pre \<and> has_step (pre ! (e - 1)) \<and> \<not> has_step (pre ! e)"
      by (simp add: nth_append)
    with c obtain k b where m: "(k, b) \<in> set (blocks st)"
      and el: "end_line (heap_block st ! b) = int e"
      unfolding blk_complete_def by blast
    from u m have "(k, b) \<in> set (blocks st') \<and> heap_block st' ! b = heap_block st ! b"
      unfolding blk_unchanged_def by auto
    with el have "(k, b) \<in> set (blocks st') \<and> end_line (heap_block st' ! b) = int e" by simp
    then show ?thesis by blast
  next
    case False
    with h have e: "e = length pre" and ne: "pre \<noteq> []" by auto
    from h e ne have hs: "has_step (last pre)" "\<not> has_step line"
      by (simp_all add: nth_append last_conv_nth)
    from i ba ne hs have "chunk st" unfolding blk_inv_def by simp
    with loop_body_blk_inv[OF l i] ba hs show ?thesis unfolding e by simp
  qed
qed

lemma pass_prefix_blk_complete:
  assumes "pass_prefix A pf dbg lines n = Inr st" and ba: "blocks_arg A"
  shows "blk_complete (take n lines) st"
proof -
  from assms(1) obtain s0 where c: "compute_sim_parameters (FLASHLogStats_init dbg) lines = Inr s0"
    and l: "read_loop A pf (init_locals s0) (take n lines) = Inr st"
    by (rule pass_prefix_cases)
  have "refs_ok st \<and> blk_inv A pf (take n lines) st \<and> blk_complete (take n lines) st"
  proof (rule read_loop_invariant[OF l,
        where I = "\<lambda>pre s. refs_ok s \<and> blk_inv A pf pre s \<and> blk_complete pre s"])
    show "refs_ok (init_locals s0) \<and> blk_inv A pf [] (init_locals s0)
          \<and> blk_complete [] (init_locals s0)"
      using init_locals_refs[OF c] init_locals_blk_inv[OF c] by (simp add: blk_complete_def)
  next
    fix pre s l s'
    assume a: "refs_ok s \<and> blk_inv A pf pre s \<and> blk_complete pre s"
      and b: "loop_body A pf s l = Inr s'"
    from a loop_body_refs[OF b] loop_body_blk_inv[OF b] loop_body_blk_complete[OF b _ _ ba]
    show "refs_ok s' \<and> blk_inv A pf (pre @ [l]) s' \<and> blk_complete (pre @ [l]) s'" by simp
  qed
  then show ?thesis by simp
qed

lemma length_np_diff: "length (np_diff wl) = length wl - 1"
  by (induction wl rule: np_diff.induct) simp_all

lemma stored_block_fields:
  "start_line (stored_block k s wl wa da nc ncb) = s"
  "end_line (stored_block k s wl wa da nc ncb) = s + int (length wl) - 1"
  "n_steps (stored_block k s wl wa da nc ncb) = int (length wl) - 1"
  "block_id (stored_block k s wl wa da nc ncb) = k"
  "start_date (stored_block k s wl wa da nc ncb) = PyDatetime (hd wl)"
  "end_date (stored_block k s wl wa da nc ncb) = PyDatetime (last wl)"
  "core_hours (stored_block k s wl wa da nc ncb) = PyTimedelta ((last wl - hd wl) * nc)"
  "avg_wall_time_diff (stored_block k s wl wa da nc ncb) = NpFloat (np_mean (steps_per_time_secs wl))"
  "std_wall_time_diff (stored_block k s wl wa da nc ncb) = NpFloat (np_std (steps_per_time_secs wl))"
  by (simp_all add: stored_block_def finalized_block_def new_block_def FLASHLogBlock_init_def)

lemma blk_stored_entry:
  assumes "blk_stored pf pre st" and "(k, b) \<in> set (blocks st)"
  obtains s wa da nc ncb where "heap_wall_time st ! wa \<noteq> []" and "n_cores st = Some nc"
    and "n_cells_per_block st = Some ncb"
    and "heap_block st ! b = stored_block k s (heap_wall_time st ! wa) wa da nc ncb"
    and "steps_at pf pre s (heap_wall_time st ! wa) (heap_dt st ! da)"
    and "nat (s - 1) + length (heap_wall_time st ! wa) < length pre"
    and "\<not> has_step (pre ! (nat (s - 1) + length (heap_wall_time st ! wa)))"
  using assms unfolding blk_stored_def by fastforce

text \<open>
  Claim C2. A block in the result store at the end of \<^verbatim>\<open>main\<close> comes from \<open>N\<close> lines of
  the file, \<open>N\<close> at least 1: the lines \<open>start_line\<close> to \<open>end_line = start_line + N - 1\<close> are
  step lines, the line after them is not, and the list \<^verbatim>\<open>wall_time\<close> of the block holds
  their \<open>N\<close> times. The stored \<^verbatim>\<open>n_steps\<close> is \<open>N - 1\<close>, the list of differences in seconds
  has \<open>N - 1\<close> elements, and the stored mean and standard deviation are those of that
  list.
\<close>

theorem C2_step_count_and_deltas:
  assumes "main_file A pf dbg lines = Inr st" and "(k, b) \<in> set (blocks st)"
  shows "\<exists>wa da wl.
           wall_time (heap_block st ! b) = WallTimeListRef wa \<and> heap_wall_time st ! wa = wl
         \<and> dt (heap_block st ! b) = DtListRef da
         \<and> 1 \<le> length wl
         \<and> steps_at pf lines (start_line (heap_block st ! b)) wl (heap_dt st ! da)
         \<and> \<not> has_step (lines ! (nat (start_line (heap_block st ! b) - 1) + length wl))
         \<and> end_line (heap_block st ! b) = start_line (heap_block st ! b) + int (length wl) - 1
         \<and> n_steps (heap_block st ! b) = int (length wl) - 1
         \<and> n_steps (heap_block st ! b) = end_line (heap_block st ! b) - start_line (heap_block st ! b)
         \<and> length (steps_per_time_secs wl) = length wl - 1
         \<and> avg_wall_time_diff (heap_block st ! b) = NpFloat (np_mean (steps_per_time_secs wl))
         \<and> std_wall_time_diff (heap_block st ! b) = NpFloat (np_std (steps_per_time_secs wl))"
proof -
  from main_file_blk_inv[OF assms(1)] have s: "blk_stored pf lines st"
    unfolding blk_inv_def by simp
  from s assms(2) obtain s0 wa da nc ncb where h: "heap_wall_time st ! wa \<noteq> []"
    "heap_block st ! b = stored_block k s0 (heap_wall_time st ! wa) wa da nc ncb"
    "steps_at pf lines s0 (heap_wall_time st ! wa) (heap_dt st ! da)"
    "\<not> has_step (lines ! (nat (s0 - 1) + length (heap_wall_time st ! wa)))"
    by (rule blk_stored_entry)
  from h(1) have "1 \<le> length (heap_wall_time st ! wa)" by (cases "heap_wall_time st ! wa") simp_all
  then show ?thesis
    using h unfolding h(2)
    by (simp add: stored_block_fields steps_per_time_secs_def length_np_diff)
qed

lemma closed_event_fields:
  "start_date_io (closed_event k t0 t1 kind n) = PyDatetime t0"
  "wall_time_io (closed_event k t0 t1 kind n) = PyFloat (total_seconds (t1 - t0))"
  "core_hours_io (closed_event k t0 t1 kind n) = PyFloat (total_seconds (t1 - t0) / seconds_per_hour)"
  "file_type (closed_event k t0 t1 kind n) = kind"
  "write_id (closed_event k t0 t1 kind n) = k"
  "wall_time_norm (closed_event k t0 t1 kind n) = PyFloat (total_seconds (t1 - t0) / real_of_int n)"
  by (simp_all add: closed_event_def)

lemma total_seconds_mult:
  "total_seconds (d * nc) / seconds_per_hour = total_seconds d / seconds_per_hour * real_of_int nc"
  by (simp add: total_seconds_def)

text \<open>
  Claim C4. For a block in the result store at the end of \<^verbatim>\<open>main\<close>, the core hours that
  the export writes are the seconds from the start date to the end date, divided by 3600,
  times the core count. For a stored file-write event, the core hours are the seconds
  from the time of its open marker to the time of its close marker, divided by 3600; the
  core count does not enter.
\<close>

theorem C4_core_hours_asymmetry:
  assumes "main_file A pf dbg lines = Inr st"
  shows "(\<forall>(k, b) \<in> set (blocks st).
            \<exists>sd ed nc. start_date (heap_block st ! b) = PyDatetime sd
              \<and> end_date (heap_block st ! b) = PyDatetime ed \<and> n_cores st = Some nc
              \<and> export_core_hrs_block (heap_block st ! b)
                  = Inr (total_seconds (ed - sd) / seconds_per_hour * real_of_int nc))
       \<and> (\<forall>(k, a) \<in> set (fileIOs st).
            \<exists>i j t0 t1. i < j \<and> open_at lines i t0 \<and> close_at lines j t1
              \<and> start_date_io (heap_io st ! a) = PyDatetime t0
              \<and> wall_time_io (heap_io st ! a) = PyFloat (total_seconds (t1 - t0))
              \<and> export_core_hrs_io (heap_io st ! a)
                  = PyFloat (total_seconds (t1 - t0) / seconds_per_hour))"
proof (intro conjI ballI)
  fix x assume x: "x \<in> set (blocks st)"
  obtain k b where kb: "x = (k, b)" by (cases x)
  from main_file_blk_inv[OF assms] have s: "blk_stored pf lines st"
    unfolding blk_inv_def by simp
  from s x[unfolded kb] obtain s0 wa da nc ncb where h: "n_cores st = Some nc"
    "heap_block st ! b = stored_block k s0 (heap_wall_time st ! wa) wa da nc ncb"
    by (rule blk_stored_entry)
  have "start_date (heap_block st ! b) = PyDatetime (hd (heap_wall_time st ! wa))
      \<and> end_date (heap_block st ! b) = PyDatetime (last (heap_wall_time st ! wa))
      \<and> n_cores st = Some nc
      \<and> export_core_hrs_block (heap_block st ! b)
          = Inr (total_seconds (last (heap_wall_time st ! wa) - hd (heap_wall_time st ! wa))
                   / seconds_per_hour * real_of_int nc)"
    unfolding h(2) using h(1)
    by (simp add: stored_block_fields export_core_hrs_block_def total_seconds_mult)
  then show "case x of (k, b) \<Rightarrow>
            \<exists>sd ed nc. start_date (heap_block st ! b) = PyDatetime sd
              \<and> end_date (heap_block st ! b) = PyDatetime ed \<and> n_cores st = Some nc
              \<and> export_core_hrs_block (heap_block st ! b)
                  = Inr (total_seconds (ed - sd) / seconds_per_hour * real_of_int nc)"
    unfolding kb by blast
next
  fix x assume x: "x \<in> set (fileIOs st)"
  obtain k a where ka: "x = (k, a)" by (cases x)
  from pass_prefix_io_inv[OF main_file_pass_prefix[OF assms]]
  have s: "io_stored lines st" unfolding io_inv_def by simp
  from s x[unfolded ka] obtain i j t0 t1 n where h: "i < j" "open_at lines i t0"
    "close_at lines j t1" "heap_io st ! a = closed_event k t0 t1 (file_kind (lines ! j)) n"
    unfolding io_stored_def by fastforce
  have "i < j \<and> open_at lines i t0 \<and> close_at lines j t1
              \<and> start_date_io (heap_io st ! a) = PyDatetime t0
              \<and> wall_time_io (heap_io st ! a) = PyFloat (total_seconds (t1 - t0))
              \<and> export_core_hrs_io (heap_io st ! a)
                  = PyFloat (total_seconds (t1 - t0) / seconds_per_hour)"
    unfolding h(4) using h(1,2,3) by (simp add: closed_event_fields export_core_hrs_io_def)
  then show "case x of (k, a) \<Rightarrow>
            \<exists>i j t0 t1. i < j \<and> open_at lines i t0 \<and> close_at lines j t1
              \<and> start_date_io (heap_io st ! a) = PyDatetime t0
              \<and> wall_time_io (heap_io st ! a) = PyFloat (total_seconds (t1 - t0))
              \<and> export_core_hrs_io (heap_io st ! a)
                  = PyFloat (total_seconds (t1 - t0) / seconds_per_hour)"
    unfolding ka by blast
qed

text \<open>
  Claim C1, as the code has it. When the last line of the file is a step line, the pass
  ends with a block still being accumulated: that block is not in the result store, and
  every block that is stored ends before the last line of the file. The loop of
  \<^verbatim>\<open>deconstruct_log_file\<close> stores a block only on a line without a step, and nothing runs
  after the loop.
\<close>

theorem C1_trailing_block_not_stored:
  assumes "main_file A pf dbg lines = Inr st" and "blocks_arg A"
    and "lines \<noteq> []" and "has_step (last lines)"
  shows "chunk st
       \<and> (\<exists>b. block st = Some b \<and> b < length (heap_block st) \<and> b \<notin> snd ` set (blocks st))
       \<and> (\<forall>(k, b) \<in> set (blocks st). end_line (heap_block st ! b) < int (length lines))"
proof -
  from main_file_blk_inv[OF assms(1)] have i: "blk_inv A pf lines st" .
  then have c: "chunk st" using assms(2,3,4) unfolding blk_inv_def by simp
  from i c have b: "\<exists>b. block st = Some b \<and> b < length (heap_block st) \<and> b \<notin> snd ` set (blocks st)"
    unfolding blk_inv_def blk_refs_def by simp
  from i have s: "blk_stored pf lines st" unfolding blk_inv_def by simp
  have e: "end_line (heap_block st ! b) < int (length lines)" if "(k, b) \<in> set (blocks st)" for k b
  proof -
    from s that obtain s0 wa da nc ncb where
      h: "heap_block st ! b = stored_block k s0 (heap_wall_time st ! wa) wa da nc ncb"
      "steps_at pf lines s0 (heap_wall_time st ! wa) (heap_dt st ! da)"
      "nat (s0 - 1) + length (heap_wall_time st ! wa) < length lines"
      by (rule blk_stored_entry)
    from h(2) have "1 \<le> s0" by (simp add: steps_at_def)
    with h(3) show ?thesis unfolding h(1) by (simp add: stored_block_fields)
  qed
  from c b e show ?thesis by auto
qed

lemma steps_at_has_step:
  assumes "steps_at pf ls s wl dl" and "nat (s - 1) \<le> j" and "j < nat (s - 1) + length wl"
  shows "has_step (ls ! j)"
proof -
  from assms(2,3) obtain i where i: "j = nat (s - 1) + i" "i < length wl"
    by (metis add_diff_inverse_nat less_diff_conv2 nat_add_left_cancel_less not_less)
  from assms(1) i(2) have "search_walltime pf (ls ! (nat (s - 1) + i)) = Inr (Some (wl ! i, dl ! i))"
    unfolding steps_at_def by simp
  then show ?thesis unfolding i(1) by (rule search_walltime_Some)
qed

lemma blk_completeD:
  "blk_complete pre st \<Longrightarrow> 0 < e \<Longrightarrow> e < length pre \<Longrightarrow> has_step (pre ! (e - 1))
   \<Longrightarrow> \<not> has_step (pre ! e)
   \<Longrightarrow> \<exists>k b. (k, b) \<in> set (blocks st) \<and> end_line (heap_block st ! b) = int e"
  unfolding blk_complete_def by blast

text \<open>
  Claim C5, as the code has it. A step line (line \<open>n\<close>, counted from 1), then one line
  without a step, then \<open>m\<close> step lines, then a line without a step: the result store at
  the end of \<^verbatim>\<open>main\<close> has two blocks under two keys, two objects: one that ends at line
  \<open>n\<close>, and one that starts at line \<open>n + 2\<close>, ends at line \<open>n + 1 + m\<close> and has \<open>m - 1\<close>
  steps. The second block is stored by the line without a step after it.
\<close>

theorem C5_interrupted_run_two_blocks:
  assumes "main_file A pf dbg lines = Inr st" and "blocks_arg A"
    and "0 < n" and "has_step (lines ! (n - 1))" and "\<not> has_step (lines ! n)"
    and "0 < m" and "\<forall>i < m. has_step (lines ! (n + 1 + i))"
    and "n + 1 + m < length lines" and "\<not> has_step (lines ! (n + 1 + m))"
  shows "\<exists>k1 b1 k2 b2. (k1, b1) \<in> set (blocks st) \<and> (k2, b2) \<in> set (blocks st)
           \<and> k1 \<noteq> k2 \<and> b1 \<noteq> b2
           \<and> end_line (heap_block st ! b1) = int n
           \<and> start_line (heap_block st ! b2) = int n + 2
           \<and> end_line (heap_block st ! b2) = int n + 1 + int m
           \<and> n_steps (heap_block st ! b2) = int m - 1"
proof -
  from pass_prefix_blk_complete[OF main_file_pass_prefix[OF assms(1)] assms(2)]
  have c: "blk_complete lines st" by simp
  from main_file_blk_inv[OF assms(1)] have s: "blk_stored pf lines st" and r: "blk_refs st"
    unfolding blk_inv_def by simp_all
  from assms(8) have nl: "n < length lines" by simp
  from blk_completeD[OF c assms(3) nl assms(4,5)]
  obtain k1 b1 where m1: "(k1, b1) \<in> set (blocks st)"
    and e1: "end_line (heap_block st ! b1) = int n"
    by blast
  from assms(6) have "m - 1 < m" by simp
  with assms(7) have "has_step (lines ! (n + 1 + (m - 1)))" by blast
  with assms(6) have hl: "has_step (lines ! (n + 1 + m - 1))" by simp
  have pos: "0 < n + 1 + m" by simp
  from blk_completeD[OF c pos assms(8) hl assms(9)]
  obtain k2 b2 where m2: "(k2, b2) \<in> set (blocks st)"
    and e2: "end_line (heap_block st ! b2) = int (n + 1 + m)"
    by blast
  from s m2 obtain s0 wa da nc ncb where
    h: "heap_block st ! b2 = stored_block k2 s0 (heap_wall_time st ! wa) wa da nc ncb"
    "steps_at pf lines s0 (heap_wall_time st ! wa) (heap_dt st ! da)"
    by (rule blk_stored_entry)
  define L where "L = length (heap_wall_time st ! wa)"
  from h(2) have s1: "1 \<le> s0" by (simp add: steps_at_def)
  from e2 have sl: "s0 + int L = int n + 2 + int m"
    unfolding h(1) L_def by (simp add: stored_block_fields)
  have lo: "int n + 2 \<le> s0"
  proof (rule ccontr)
    assume "\<not> int n + 2 \<le> s0"
    with s1 sl have "nat (s0 - 1) \<le> n" "n < nat (s0 - 1) + L" by auto
    from steps_at_has_step[OF h(2) this[unfolded L_def]] assms(5) show False by simp
  qed
  have hi: "s0 \<le> int n + 2"
  proof (rule ccontr)
    assume a: "\<not> s0 \<le> int n + 2"
    then have "s0 \<noteq> 1" by simp
    with steps_at_start[OF h(2)] have ns: "\<not> has_step (lines ! nat (s0 - 2))" by simp
    from s1 sl have "0 \<le> int L" by simp
    define i where "i = nat (s0 - 2) - (n + 1)"
    from a have "n + 1 \<le> nat (s0 - 2)" by auto
    then have i1: "nat (s0 - 2) = n + 1 + i" unfolding i_def by simp
    from a sl \<open>0 \<le> int L\<close> h(2) have "int (nat (s0 - 2)) < int n + 1 + int m"
      unfolding steps_at_def L_def by auto
    with i1 have "i < m" by auto
    with assms(7) have "has_step (lines ! (n + 1 + i))" by blast
    with ns i1 show False by simp
  qed
  from lo hi have s0: "s0 = int n + 2" by simp
  with sl have Lm: "int L = int m" by simp
  have nb: "b1 \<noteq> b2"
  proof
    assume "b1 = b2"
    with e1 e2 have "int n = int (n + 1 + m)" by simp
    then show False by simp
  qed
  from r have d: "distinct (map fst (blocks st))" unfolding blk_refs_def by simp
  have nk: "k1 \<noteq> k2"
  proof
    assume "k1 = k2"
    with m1 m2 eq_key_imp_eq_value[OF d] have "b1 = b2" by blast
    with nb show False by simp
  qed
  have f: "start_line (heap_block st ! b2) = int n + 2"
    "end_line (heap_block st ! b2) = int n + 1 + int m"
    "n_steps (heap_block st ! b2) = int m - 1"
    unfolding h(1) using s0 Lm by (simp_all add: stored_block_fields L_def)
  show ?thesis
  proof (rule exI[of _ k1], rule exI[of _ b1], rule exI[of _ k2], rule exI[of _ b2])
    show "(k1, b1) \<in> set (blocks st) \<and> (k2, b2) \<in> set (blocks st)
           \<and> k1 \<noteq> k2 \<and> b1 \<noteq> b2
           \<and> end_line (heap_block st ! b1) = int n
           \<and> start_line (heap_block st ! b2) = int n + 2
           \<and> end_line (heap_block st ! b2) = int n + 1 + int m
           \<and> n_steps (heap_block st ! b2) = int m - 1"
      using m1 m2 nk nb e1 f by simp
  qed
qed

section \<open>A log file, evaluated\<close>

lemmas extract_defs = search_walltime_def has_step_def match_step_def match_dt_def float_sci_def
  line_wall_time_def match_date_def match_time_def digits_then_def digits_last_def is_digit_def
  strptime_def py_int_def digit_val_def datetime_us_def days_before_year_def
  days_before_month_def days_in_month_def is_leap_def first_digits_def

lemma ex_h1_facts:
  "re_search ''Number of MPI tasks:'' ex_h1"
  "\<not> re_search ''Number x zones:'' ex_h1"
  "\<not> re_search ''Number y zones:'' ex_h1"
  "\<not> re_search ''Number z zones:'' ex_h1"
  "\<not> re_search ''IO_writeCheckpoint'' ex_h1"
  "\<not> re_search ''IO_writePlotfile'' ex_h1"
  "\<not> re_search ''open:'' ex_h1"
  "\<not> re_search ''close:'' ex_h1"
  "\<not> has_step ex_h1"
  "search_walltime float_sci ex_h1 = Inr None"
  "first_digits ex_h1 = Some ''96''"
  by (simp_all add: ex_h1_def extract_defs)

lemma ex_h2_facts:
  "\<not> re_search ''Number of MPI tasks:'' ex_h2"
  "re_search ''Number x zones:'' ex_h2"
  "\<not> re_search ''Number y zones:'' ex_h2"
  "\<not> re_search ''Number z zones:'' ex_h2"
  "\<not> re_search ''IO_writeCheckpoint'' ex_h2"
  "\<not> re_search ''IO_writePlotfile'' ex_h2"
  "\<not> re_search ''open:'' ex_h2"
  "\<not> re_search ''close:'' ex_h2"
  "\<not> has_step ex_h2"
  "search_walltime float_sci ex_h2 = Inr None"
  "first_digits ex_h2 = Some ''16''"
  by (simp_all add: ex_h2_def extract_defs)

lemma ex_h3_facts:
  "\<not> re_search ''Number of MPI tasks:'' ex_h3"
  "\<not> re_search ''Number x zones:'' ex_h3"
  "re_search ''Number y zones:'' ex_h3"
  "\<not> re_search ''Number z zones:'' ex_h3"
  "\<not> re_search ''IO_writeCheckpoint'' ex_h3"
  "\<not> re_search ''IO_writePlotfile'' ex_h3"
  "\<not> re_search ''open:'' ex_h3"
  "\<not> re_search ''close:'' ex_h3"
  "\<not> has_step ex_h3"
  "search_walltime float_sci ex_h3 = Inr None"
  "first_digits ex_h3 = Some ''16''"
  by (simp_all add: ex_h3_def extract_defs)

lemma ex_h4_facts:
  "\<not> re_search ''Number of MPI tasks:'' ex_h4"
  "\<not> re_search ''Number x zones:'' ex_h4"
  "\<not> re_search ''Number y zones:'' ex_h4"
  "re_search ''Number z zones:'' ex_h4"
  "\<not> re_search ''IO_writeCheckpoint'' ex_h4"
  "\<not> re_search ''IO_writePlotfile'' ex_h4"
  "\<not> re_search ''open:'' ex_h4"
  "\<not> re_search ''close:'' ex_h4"
  "\<not> has_step ex_h4"
  "search_walltime float_sci ex_h4 = Inr None"
  "first_digits ex_h4 = Some ''16''"
  by (simp_all add: ex_h4_def extract_defs)

lemma ex_s1_facts:
  "\<not> re_search ''Number of MPI tasks:'' ex_s1"
  "\<not> re_search ''Number x zones:'' ex_s1"
  "\<not> re_search ''Number y zones:'' ex_s1"
  "\<not> re_search ''Number z zones:'' ex_s1"
  "\<not> re_search ''IO_writeCheckpoint'' ex_s1"
  "\<not> re_search ''IO_writePlotfile'' ex_s1"
  "\<not> re_search ''open:'' ex_s1"
  "\<not> re_search ''close:'' ex_s1"
  "has_step ex_s1"
  "search_walltime float_sci ex_s1 = Inr (Some (63776592000000000, 1 / 100000))"
  "line_wall_time ex_s1 = Inr 63776592000000000"
  by (simp_all add: ex_s1_def extract_defs)

lemma ex_s2_facts:
  "\<not> re_search ''Number of MPI tasks:'' ex_s2"
  "\<not> re_search ''Number x zones:'' ex_s2"
  "\<not> re_search ''Number y zones:'' ex_s2"
  "\<not> re_search ''Number z zones:'' ex_s2"
  "\<not> re_search ''IO_writeCheckpoint'' ex_s2"
  "\<not> re_search ''IO_writePlotfile'' ex_s2"
  "\<not> re_search ''open:'' ex_s2"
  "\<not> re_search ''close:'' ex_s2"
  "has_step ex_s2"
  "search_walltime float_sci ex_s2 = Inr (Some (63776592002000000, 1 / 100000))"
  "line_wall_time ex_s2 = Inr 63776592002000000"
  by (simp_all add: ex_s2_def extract_defs)

lemma ex_s3_facts:
  "\<not> re_search ''Number of MPI tasks:'' ex_s3"
  "\<not> re_search ''Number x zones:'' ex_s3"
  "\<not> re_search ''Number y zones:'' ex_s3"
  "\<not> re_search ''Number z zones:'' ex_s3"
  "\<not> re_search ''IO_writeCheckpoint'' ex_s3"
  "\<not> re_search ''IO_writePlotfile'' ex_s3"
  "\<not> re_search ''open:'' ex_s3"
  "\<not> re_search ''close:'' ex_s3"
  "has_step ex_s3"
  "search_walltime float_sci ex_s3 = Inr (Some (63776592004000000, 1 / 100000))"
  "line_wall_time ex_s3 = Inr 63776592004000000"
  by (simp_all add: ex_s3_def extract_defs)

lemma ex_o1_facts:
  "\<not> re_search ''Number of MPI tasks:'' ex_o1"
  "\<not> re_search ''Number x zones:'' ex_o1"
  "\<not> re_search ''Number y zones:'' ex_o1"
  "\<not> re_search ''Number z zones:'' ex_o1"
  "re_search ''IO_writeCheckpoint'' ex_o1"
  "\<not> re_search ''IO_writePlotfile'' ex_o1"
  "re_search ''open:'' ex_o1"
  "\<not> re_search ''close:'' ex_o1"
  "\<not> has_step ex_o1"
  "search_walltime float_sci ex_o1 = Inr None"
  "line_wall_time ex_o1 = Inr 63776592005000000"
  by (simp_all add: ex_o1_def extract_defs)

lemma ex_o2_facts:
  "\<not> re_search ''Number of MPI tasks:'' ex_o2"
  "\<not> re_search ''Number x zones:'' ex_o2"
  "\<not> re_search ''Number y zones:'' ex_o2"
  "\<not> re_search ''Number z zones:'' ex_o2"
  "re_search ''IO_writeCheckpoint'' ex_o2"
  "\<not> re_search ''IO_writePlotfile'' ex_o2"
  "re_search ''open:'' ex_o2"
  "\<not> re_search ''close:'' ex_o2"
  "\<not> has_step ex_o2"
  "search_walltime float_sci ex_o2 = Inr None"
  "line_wall_time ex_o2 = Inr 63776592006000000"
  by (simp_all add: ex_o2_def extract_defs)

lemma ex_c1_facts:
  "\<not> re_search ''Number of MPI tasks:'' ex_c1"
  "\<not> re_search ''Number x zones:'' ex_c1"
  "\<not> re_search ''Number y zones:'' ex_c1"
  "\<not> re_search ''Number z zones:'' ex_c1"
  "re_search ''IO_writeCheckpoint'' ex_c1"
  "\<not> re_search ''IO_writePlotfile'' ex_c1"
  "\<not> re_search ''open:'' ex_c1"
  "re_search ''close:'' ex_c1"
  "\<not> has_step ex_c1"
  "search_walltime float_sci ex_c1 = Inr None"
  "line_wall_time ex_c1 = Inr 63776592016000000"
  by (simp_all add: ex_c1_def extract_defs)

lemma ex_s4_facts:
  "\<not> re_search ''Number of MPI tasks:'' ex_s4"
  "\<not> re_search ''Number x zones:'' ex_s4"
  "\<not> re_search ''Number y zones:'' ex_s4"
  "\<not> re_search ''Number z zones:'' ex_s4"
  "\<not> re_search ''IO_writeCheckpoint'' ex_s4"
  "\<not> re_search ''IO_writePlotfile'' ex_s4"
  "\<not> re_search ''open:'' ex_s4"
  "\<not> re_search ''close:'' ex_s4"
  "has_step ex_s4"
  "search_walltime float_sci ex_s4 = Inr (Some (63776592020000000, 1 / 100000))"
  "line_wall_time ex_s4 = Inr 63776592020000000"
  by (simp_all add: ex_s4_def extract_defs)

lemma ex_s5_facts:
  "\<not> re_search ''Number of MPI tasks:'' ex_s5"
  "\<not> re_search ''Number x zones:'' ex_s5"
  "\<not> re_search ''Number y zones:'' ex_s5"
  "\<not> re_search ''Number z zones:'' ex_s5"
  "\<not> re_search ''IO_writeCheckpoint'' ex_s5"
  "\<not> re_search ''IO_writePlotfile'' ex_s5"
  "\<not> re_search ''open:'' ex_s5"
  "\<not> re_search ''close:'' ex_s5"
  "has_step ex_s5"
  "search_walltime float_sci ex_s5 = Inr (Some (63776592023000000, 1 / 100000))"
  "line_wall_time ex_s5 = Inr 63776592023000000"
  by (simp_all add: ex_s5_def extract_defs)

lemma ex_x_facts:
  "\<not> re_search ''Number of MPI tasks:'' ex_x"
  "\<not> re_search ''Number x zones:'' ex_x"
  "\<not> re_search ''Number y zones:'' ex_x"
  "\<not> re_search ''Number z zones:'' ex_x"
  "\<not> re_search ''IO_writeCheckpoint'' ex_x"
  "\<not> re_search ''IO_writePlotfile'' ex_x"
  "\<not> re_search ''open:'' ex_x"
  "\<not> re_search ''close:'' ex_x"
  "\<not> has_step ex_x"
  "search_walltime float_sci ex_x = Inr None"
  by (simp_all add: ex_x_def extract_defs)

lemma ex_s6_facts:
  "\<not> re_search ''Number of MPI tasks:'' ex_s6"
  "\<not> re_search ''Number x zones:'' ex_s6"
  "\<not> re_search ''Number y zones:'' ex_s6"
  "\<not> re_search ''Number z zones:'' ex_s6"
  "\<not> re_search ''IO_writeCheckpoint'' ex_s6"
  "\<not> re_search ''IO_writePlotfile'' ex_s6"
  "\<not> re_search ''open:'' ex_s6"
  "\<not> re_search ''close:'' ex_s6"
  "has_step ex_s6"
  "search_walltime float_sci ex_s6 = Inr (Some (63776592030000000, 1 / 100000))"
  "line_wall_time ex_s6 = Inr 63776592030000000"
  by (simp_all add: ex_s6_def extract_defs)

lemma ex_s7_facts:
  "\<not> re_search ''Number of MPI tasks:'' ex_s7"
  "\<not> re_search ''Number x zones:'' ex_s7"
  "\<not> re_search ''Number y zones:'' ex_s7"
  "\<not> re_search ''Number z zones:'' ex_s7"
  "\<not> re_search ''IO_writeCheckpoint'' ex_s7"
  "\<not> re_search ''IO_writePlotfile'' ex_s7"
  "\<not> re_search ''open:'' ex_s7"
  "\<not> re_search ''close:'' ex_s7"
  "has_step ex_s7"
  "search_walltime float_sci ex_s7 = Inr (Some (63776592031000000, 1 / 100000))"
  "line_wall_time ex_s7 = Inr 63776592031000000"
  by (simp_all add: ex_s7_def extract_defs)

lemma ex_y_facts:
  "\<not> re_search ''Number of MPI tasks:'' ex_y"
  "\<not> re_search ''Number x zones:'' ex_y"
  "\<not> re_search ''Number y zones:'' ex_y"
  "\<not> re_search ''Number z zones:'' ex_y"
  "\<not> re_search ''IO_writeCheckpoint'' ex_y"
  "\<not> re_search ''IO_writePlotfile'' ex_y"
  "\<not> re_search ''open:'' ex_y"
  "\<not> re_search ''close:'' ex_y"
  "\<not> has_step ex_y"
  "search_walltime float_sci ex_y = Inr None"
  by (simp_all add: ex_y_def extract_defs)

lemma ex_s8_facts:
  "\<not> re_search ''Number of MPI tasks:'' ex_s8"
  "\<not> re_search ''Number x zones:'' ex_s8"
  "\<not> re_search ''Number y zones:'' ex_s8"
  "\<not> re_search ''Number z zones:'' ex_s8"
  "\<not> re_search ''IO_writeCheckpoint'' ex_s8"
  "\<not> re_search ''IO_writePlotfile'' ex_s8"
  "\<not> re_search ''open:'' ex_s8"
  "\<not> re_search ''close:'' ex_s8"
  "has_step ex_s8"
  "search_walltime float_sci ex_s8 = Inr (Some (63776592040000000, 1 / 100000))"
  "line_wall_time ex_s8 = Inr 63776592040000000"
  by (simp_all add: ex_s8_def extract_defs)

lemmas ex_line_facts = ex_h1_facts ex_h2_facts ex_h3_facts ex_h4_facts ex_s1_facts ex_s2_facts ex_s3_facts ex_o1_facts ex_o2_facts ex_c1_facts ex_s4_facts ex_s5_facts ex_x_facts ex_s6_facts ex_s7_facts ex_y_facts ex_s8_facts

lemmas run_defs = loop_body_def track_block_def track_file_write_def
  process_block_statistics_def search_file_write_stats_def
  FLASHLogFileIO_init_def FLASHLogBlock_init_def heap_get_def open_file_def close_file_def
  empty_io_def total_seconds_def seconds_per_hour_def steps_per_time_secs_def np_mean_def
  np_std_def np_div_def timedelta_ok_def

lemma ex_scan:
  "compute_sim_parameters (FLASHLogStats_init False) example_log = Inr ex_s0"
  by (simp add: compute_sim_parameters_def scan_line_def search_core_count_def
      search_block_cell_count_def FLASHLogStats_init_def example_log_def ex_line_facts
      py_int_def digit_val_def ex_s0_def)

lemma ex_loop:
  "read_loop ex_args float_sci (init_locals ex_s0) example_log = Inr ex_final"
  by (simp add: example_log_def ex_args_def ex_s0_def init_locals_def run_defs ex_line_facts
      ex_final_def)

lemma ex_run: "main_file ex_args float_sci False example_log = Inr ex_final"
  using main_file_read_loop[OF ex_scan] ex_loop by simp

lemma ex_prefix_8:
  "\<exists>st. pass_prefix ex_args float_sci False example_log 8 = Inr st \<and> write_flag st
      \<and> fileIO st = Some 0 \<and> heap_io st ! 0 = opened_event 0 63776592005000000
      \<and> fileIOs st = [] \<and> IO_id_counter st = 0"
  by (simp add: pass_prefix_def ex_scan)
     (simp add: example_log_def ex_args_def ex_s0_def init_locals_def run_defs ex_line_facts
        opened_event_def)

text \<open>The flags of the event of the example log before and after its close marker.\<close>

lemma ex_flags_9:
  "flags_at ex_args float_sci False example_log 9 0 = Some (True, False)"
  by (simp add: flags_at_def pass_prefix_def ex_scan)
     (simp add: example_log_def ex_args_def ex_s0_def init_locals_def run_defs ex_line_facts
        flags_def)

lemma ex_flags_10:
  "flags_at ex_args float_sci False example_log 10 0 = Some (False, True)"
  by (simp add: flags_at_def pass_prefix_def ex_scan)
     (simp add: example_log_def ex_args_def ex_s0_def init_locals_def run_defs ex_line_facts
        flags_def)

lemma ex_flags_7:
  "flags_at ex_args float_sci False example_log 7 0 = None"
  by (simp add: flags_at_def pass_prefix_def ex_scan)
     (simp add: example_log_def ex_args_def ex_s0_def init_locals_def run_defs ex_line_facts
        flags_def)

section \<open>Closed examples for the claims\<close>

lemmas scan_defs = compute_sim_parameters_def scan_line_def search_core_count_def
  search_block_cell_count_def FLASHLogStats_init_def py_int_def digit_val_def

lemma ex_trailing_scan:
  "compute_sim_parameters (FLASHLogStats_init False) ex_trailing = Inr ex_s0"
  by (simp add: scan_defs ex_trailing_def ex_line_facts ex_s0_def)

lemma ex_interrupted_scan:
  "compute_sim_parameters (FLASHLogStats_init False) ex_interrupted = Inr ex_s0"
  by (simp add: scan_defs ex_interrupted_def ex_line_facts ex_s0_def)

lemma ex_orphan_scan:
  "compute_sim_parameters (FLASHLogStats_init False) ex_orphan = Inr ex_s0"
  by (simp add: scan_defs ex_orphan_def ex_line_facts ex_s0_def)

lemmas eval_defs = ex_args_def ex_s0_def init_locals_def run_defs ex_line_facts

text \<open>
  Claim C1 fails on the code: the file \<open>ex_trailing\<close> ends with two step lines, the pass
  succeeds, and the result store has no block at all.
\<close>

theorem C1_counterexample:
  "has_step (last ex_trailing)
   \<and> map_sum id blocks (main_file ex_args float_sci False ex_trailing) = Inr []"
  unfolding main_file_read_loop[OF ex_trailing_scan]
  by (simp add: ex_trailing_def eval_defs)

text \<open>
  On the example log, which ends with a step line: the block of line 17 is open and not
  stored, and the three stored blocks end before line 17.
\<close>

theorem C1_witness:
  "\<exists>st. main_file ex_args float_sci False example_log = Inr st \<and> has_step (last example_log)
      \<and> chunk st \<and> block st = Some 3 \<and> 3 \<notin> snd ` set (blocks st)
      \<and> (\<forall>(k, b) \<in> set (blocks st). end_line (heap_block st ! b) < int (length example_log))"
proof -
  have h: "blocks_arg ex_args" "example_log \<noteq> []" "has_step (last example_log)"
    by (simp_all add: ex_args_def example_log_def ex_line_facts)
  from C1_trailing_block_not_stored[OF ex_run h] ex_run h(3)
  show ?thesis by (simp add: ex_final_def)
qed

text \<open>
  Claim C5 fails on the code: in \<open>ex_interrupted\<close> two step lines are followed by one
  line without a step and by two more step lines, the pass succeeds, and the result
  store has one block only: the resumed run reaches the end of the file and is not
  stored.
\<close>

theorem C5_counterexample:
  "has_step (ex_interrupted ! 4) \<and> has_step (ex_interrupted ! 5)
   \<and> \<not> has_step (ex_interrupted ! 6)
   \<and> has_step (ex_interrupted ! 7) \<and> has_step (ex_interrupted ! 8)
   \<and> length ex_interrupted = 9
   \<and> map_sum id blocks (main_file ex_args float_sci False ex_interrupted) = Inr [(0, 0)]"
  unfolding main_file_read_loop[OF ex_interrupted_scan]
  by (simp add: ex_interrupted_def eval_defs)

text \<open>
  On the example log: line 12 is a step line, line 13 is not, lines 14 and 15 are, line
  16 is not; the blocks that end at line 12 and that span lines 14 to 15 are both
  stored.
\<close>

theorem C5_witness:
  "\<exists>st k1 b1 k2 b2. main_file ex_args float_sci False example_log = Inr st
      \<and> (k1, b1) \<in> set (blocks st) \<and> (k2, b2) \<in> set (blocks st) \<and> k1 \<noteq> k2 \<and> b1 \<noteq> b2
      \<and> end_line (heap_block st ! b1) = 12
      \<and> start_line (heap_block st ! b2) = 14
      \<and> end_line (heap_block st ! b2) = 15
      \<and> n_steps (heap_block st ! b2) = 1"
proof -
  have h: "blocks_arg ex_args" "0 < (12::nat)" "has_step (example_log ! (12 - 1))"
    "\<not> has_step (example_log ! 12)" "0 < (2::nat)"
    "12 + 1 + 2 < length example_log" "\<not> has_step (example_log ! (12 + 1 + 2))"
    by (simp_all add: ex_args_def example_log_def ex_line_facts)
  have r: "\<forall>i < 2. has_step (example_log ! (12 + 1 + i))"
  proof (intro allI impI)
    fix i :: nat assume "i < 2"
    then have "i = 0 \<or> i = 1" by auto
    then show "has_step (example_log ! (12 + 1 + i))"
      by (auto simp: example_log_def ex_line_facts)
  qed
  from C5_interrupted_run_two_blocks[OF ex_run h(1,2,3,4,5) r h(6,7)] ex_run
  show ?thesis by auto
qed

text \<open>
  On the example log: the block of the three step lines 5 to 7 has two steps and two
  differences.
\<close>

theorem C2_witness:
  "\<exists>st wa wl. main_file ex_args float_sci False example_log = Inr st
      \<and> (0, 0) \<in> set (blocks st)
      \<and> wall_time (heap_block st ! 0) = WallTimeListRef wa \<and> heap_wall_time st ! wa = wl
      \<and> length wl = 3 \<and> start_line (heap_block st ! 0) = 5 \<and> end_line (heap_block st ! 0) = 7
      \<and> n_steps (heap_block st ! 0) = 2 \<and> length (steps_per_time_secs wl) = 2
      \<and> avg_wall_time_diff (heap_block st ! 0) = NpFloat (np_mean (steps_per_time_secs wl))"
proof -
  have m: "(0, 0) \<in> set (blocks ex_final)" by (simp add: ex_final_def)
  from C2_step_count_and_deltas[OF ex_run m] obtain wa wl where
    w: "wall_time (heap_block ex_final ! 0) = WallTimeListRef wa" "heap_wall_time ex_final ! wa = wl"
    "length (steps_per_time_secs wl) = length wl - 1"
    "avg_wall_time_diff (heap_block ex_final ! 0) = NpFloat (np_mean (steps_per_time_secs wl))"
    by blast
  from w(1) have wa: "wa = 0" by (simp add: ex_final_def)
  from w(2) wa have wl: "length wl = 3" by (auto simp: ex_final_def)
  have "main_file ex_args float_sci False example_log = Inr ex_final
      \<and> (0, 0) \<in> set (blocks ex_final)
      \<and> wall_time (heap_block ex_final ! 0) = WallTimeListRef wa \<and> heap_wall_time ex_final ! wa = wl
      \<and> length wl = 3 \<and> start_line (heap_block ex_final ! 0) = 5
      \<and> end_line (heap_block ex_final ! 0) = 7
      \<and> n_steps (heap_block ex_final ! 0) = 2 \<and> length (steps_per_time_secs wl) = 2
      \<and> avg_wall_time_diff (heap_block ex_final ! 0) = NpFloat (np_mean (steps_per_time_secs wl))"
    using ex_run m w wl by (simp add: ex_final_def)
  then show ?thesis by blast
qed

text \<open>
  On the example log, with 96 cores: the block of lines 5 to 7 lasts 4 seconds and
  exports 4 / 3600 * 96 core hours; the file write lasts 10 seconds and has 10 / 3600
  core hours.
\<close>

theorem C4_witness:
  "\<exists>st. main_file ex_args float_sci False example_log = Inr st
      \<and> n_cores st = Some 96
      \<and> start_date (heap_block st ! 0) = PyDatetime 63776592000000000
      \<and> end_date (heap_block st ! 0) = PyDatetime 63776592004000000
      \<and> export_core_hrs_block (heap_block st ! 0) = Inr (4 / 3600 * 96)
      \<and> start_date_io (heap_io st ! 0) = PyDatetime 63776592006000000
      \<and> line_wall_time (example_log ! 9) = Inr 63776592016000000
      \<and> export_core_hrs_io (heap_io st ! 0) = PyFloat (10 / 3600)"
proof -
  note c = C4_core_hours_asymmetry[OF ex_run]
  from c have "\<exists>sd ed nc. start_date (heap_block ex_final ! 0) = PyDatetime sd
              \<and> end_date (heap_block ex_final ! 0) = PyDatetime ed \<and> n_cores ex_final = Some nc
              \<and> export_core_hrs_block (heap_block ex_final ! 0)
                  = Inr (total_seconds (ed - sd) / seconds_per_hour * real_of_int nc)"
    by (simp add: ex_final_def)
  then have b: "export_core_hrs_block (heap_block ex_final ! 0) = Inr (4 / 3600 * 96)"
    by (auto simp: ex_final_def total_seconds_def seconds_per_hour_def)
  from c have "\<exists>i j t0 t1. i < j \<and> open_at example_log i t0 \<and> close_at example_log j t1
              \<and> start_date_io (heap_io ex_final ! 0) = PyDatetime t0
              \<and> wall_time_io (heap_io ex_final ! 0) = PyFloat (total_seconds (t1 - t0))
              \<and> export_core_hrs_io (heap_io ex_final ! 0)
                  = PyFloat (total_seconds (t1 - t0) / seconds_per_hour)"
    by (simp add: ex_final_def)
  then have i: "export_core_hrs_io (heap_io ex_final ! 0) = PyFloat (10 / 3600)"
    by (auto simp: ex_final_def seconds_per_hour_def)
  have "line_wall_time (example_log ! 9) = Inr 63776592016000000"
    by (simp add: example_log_def ex_line_facts)
  with b i ex_run show ?thesis by (simp add: ex_final_def)
qed

text \<open>
  On the example log: the one stored event is closed and not open; its object does not
  exist after 7 lines, is open after 9 lines (two open markers read) and closed after
  10 lines, at its close marker.
\<close>

theorem C8_witness:
  "\<exists>st. main_file ex_args float_sci False example_log = Inr st \<and> fileIOs st = [(0, 0)]
      \<and> close_io (heap_io st ! 0) \<and> \<not> open_io (heap_io st ! 0)
      \<and> \<not> (open_io (fold call [Open_file, Close_file, Open_file] (FLASHLogFileIO_init 0))
           \<and> close_io (fold call [Open_file, Close_file, Open_file] (FLASHLogFileIO_init 0)))
      \<and> (\<exists>i j. i < j \<and> j < length example_log
            \<and> closed_once ex_args float_sci False example_log (length example_log) 0 i j
            \<and> flags_at ex_args float_sci False example_log j 0 = Some (True, False)
            \<and> flags_at ex_args float_sci False example_log (Suc j) 0 = Some (False, True))
      \<and> flags_at ex_args float_sci False example_log 7 0 = None
      \<and> flags_at ex_args float_sci False example_log 9 0 = Some (True, False)
      \<and> flags_at ex_args float_sci False example_log 10 0 = Some (False, True)"
proof -
  note c1 = C8_event_flags[THEN conjunct1, rule_format]
  note c3 = C8_event_flags[THEN conjunct2, THEN conjunct2, THEN conjunct1, rule_format]
  note c5 = C8_event_flags[THEN conjunct2, THEN conjunct2, THEN conjunct2, THEN conjunct2,
      rule_format]
  have f: "fileIOs ex_final = [(0, 0)]" by (simp add: ex_final_def)
  then have s: "(0, 0) \<in> set (fileIOs ex_final)" by simp
  have a: "\<forall>(k, a) \<in> set (fileIOs ex_final).
      close_io (heap_io ex_final ! a) \<and> \<not> open_io (heap_io ex_final ! a)"
    using c3[OF ex_run] by blast
  have b: "\<not> (open_io (fold call [Open_file, Close_file, Open_file] (FLASHLogFileIO_init 0))
           \<and> close_io (fold call [Open_file, Close_file, Open_file] (FLASHLogFileIO_init 0)))"
    by (rule c1)
  have c: "\<exists>i j. i < j \<and> j < length example_log
            \<and> closed_once ex_args float_sci False example_log (length example_log) 0 i j
            \<and> flags_at ex_args float_sci False example_log j 0 = Some (True, False)
            \<and> flags_at ex_args float_sci False example_log (Suc j) 0 = Some (False, True)"
    using c5[OF ex_run s] by simp
  from a f have "close_io (heap_io ex_final ! 0) \<and> \<not> open_io (heap_io ex_final ! 0)" by simp
  with b c f ex_run ex_flags_7 ex_flags_9 ex_flags_10 show ?thesis by blast
qed

text \<open>
  On the example log: the two blocks and the event stored after 13 lines are unchanged
  at the end of the pass, where a third block is stored as well.
\<close>

theorem C10_witness:
  "\<exists>st st'. pass_prefix ex_args float_sci False example_log 13 = Inr st
      \<and> main_file ex_args float_sci False example_log = Inr st'
      \<and> blocks st = [(0, 0), (1, 1)] \<and> fileIOs st = [(0, 0)]
      \<and> blocks st' = [(0, 0), (1, 1), (2, 2)]
      \<and> stored_unchanged st st'"
proof -
  have p: "\<exists>st. pass_prefix ex_args float_sci False example_log 13 = Inr st
      \<and> blocks st = [(0, 0), (1, 1)] \<and> fileIOs st = [(0, 0)]"
    by (simp add: pass_prefix_def ex_scan) (simp add: example_log_def eval_defs)
  from C10_stored_records_not_mutated[OF ex_run, of 13] p ex_run
  show ?thesis by (auto simp: ex_final_def)
qed

text \<open>
  On the example log: line 9 is a second open marker; the event opened at line 8 is
  replaced by an event opened at the time of line 9, and the stored event starts at
  that time.
\<close>

theorem C3_witness:
  "\<exists>st st'. pass_prefix ex_args float_sci False example_log 8 = Inr st
      \<and> pass_prefix ex_args float_sci False example_log 9 = Inr st'
      \<and> write_flag st \<and> heap_io st ! 0 = opened_event 0 63776592005000000
      \<and> is_marker (example_log ! 8) \<and> re_search ''open:'' (example_log ! 8)
      \<and> fileIOs st' = fileIOs st \<and> write_flag st' \<and> fileIO st' = Some 0
      \<and> heap_io st' ! 0 = opened_event 0 63776592006000000
      \<and> start_date_io (heap_io ex_final ! 0) = PyDatetime 63776592006000000
      \<and> io_stored example_log ex_final"
proof -
  from ex_prefix_8 obtain st where s: "pass_prefix ex_args float_sci False example_log 8 = Inr st"
    "write_flag st" "fileIO st = Some 0" "heap_io st ! 0 = opened_event 0 63776592005000000"
    "fileIOs st = []" "IO_id_counter st = 0"
    by blast
  have "\<exists>st'. pass_prefix ex_args float_sci False example_log 9 = Inr st'"
    by (simp add: pass_prefix_def ex_scan) (simp add: example_log_def eval_defs)
  then obtain st' where s': "pass_prefix ex_args float_sci False example_log 9 = Inr st'" by blast
  have h: "file_writes ex_args" "8 < length example_log" "is_marker (example_log ! 8)"
    "re_search ''open:'' (example_log ! 8)"
    "line_wall_time (example_log ! 8) = Inr 63776592006000000"
    by (simp_all add: ex_args_def example_log_def is_marker_def ex_line_facts)
  from C3_reopen_discards_earlier_event have
    1: "pass_prefix ex_args float_sci False example_log 8 = Inr st \<and> file_writes ex_args \<and> write_flag st
       \<and> 8 < length example_log \<and> is_marker (example_log ! 8) \<and> re_search ''open:'' (example_log ! 8)
       \<and> pass_prefix ex_args float_sci False example_log (Suc 8) = Inr st'
       \<longrightarrow> fileIOs st' = fileIOs st \<and> IO_id_counter st' = IO_id_counter st
           \<and> write_flag st' \<and> fileIO st' = fileIO st
           \<and> (\<exists>a t. fileIO st' = Some a \<and> line_wall_time (example_log ! 8) = Inr t
                 \<and> heap_io st' ! a = opened_event (IO_id_counter st) t
                 \<and> search_file_write_stats (debug st) (example_log ! 8)
                       (FLASHLogFileIO_init (IO_id_counter st)) = Inr (heap_io st' ! a))"
    and 2: "io_stored example_log ex_final"
    using ex_run by blast+
  from 1 s s' h have "fileIOs st' = fileIOs st \<and> write_flag st' \<and> fileIO st' = Some 0
      \<and> heap_io st' ! 0 = opened_event 0 63776592006000000"
    by auto
  moreover have "start_date_io (heap_io ex_final ! 0) = PyDatetime 63776592006000000"
    by (simp add: ex_final_def)
  ultimately show ?thesis using s s' h 2 by blast
qed

text \<open>
  On a file whose first marker line is a close marker: the pass raises TypeError.
\<close>

theorem C9_witness:
  "\<exists>st. pass_prefix ex_args float_sci False ex_orphan 4 = Inr st \<and> \<not> write_flag st
      \<and> close_at ex_orphan 4 63776592016000000
      \<and> search_file_write_stats (debug st) (ex_orphan ! 4) (FLASHLogFileIO_init (IO_id_counter st))
           = Inl TypeError
      \<and> main_file ex_args float_sci False ex_orphan = Inl TypeError"
proof -
  have "\<exists>st. pass_prefix ex_args float_sci False ex_orphan 4 = Inr st"
    by (simp add: pass_prefix_def ex_orphan_scan) (simp add: ex_orphan_def eval_defs)
  then obtain st where s: "pass_prefix ex_args float_sci False ex_orphan 4 = Inr st" by blast
  have h: "file_writes ex_args" "4 < length ex_orphan" "close_at ex_orphan 4 63776592016000000"
    by (simp_all add: ex_args_def ex_orphan_def close_at_def is_marker_def ex_line_facts)
  have n: "\<forall>m < 4. \<not> is_marker (ex_orphan ! m)"
  proof (intro allI impI)
    fix m :: nat assume "m < 4"
    then have "m = 0 \<or> m = 1 \<or> m = 2 \<or> m = 3" by auto
    then show "\<not> is_marker (ex_orphan ! m)"
      by (auto simp: ex_orphan_def is_marker_def ex_line_facts)
  qed
  from C9_orphan_close_type_error[OF h n s] s h(3) show ?thesis by blast
qed

end
